(* ===== verification/Prelude.thy ===== *)
theory Prelude
  imports Main "HOL-Library.Word" "HOL-Library.AList" "HOL-Library.Sublist"
begin

text \<open>
  Shared vocabulary of the development: the machine types of the server, the operations of
  \<^verbatim>\<open>std::string\<close> and \<^verbatim>\<open>std::unordered_map\<close> the sources use, and the interfaces
  (keyed containers, codecs, frames, event machines) that several components rely on.

  Conventions.
  \<^item> \<^verbatim>\<open>std::uint64_t\<close> is \<open>64 word\<close>; its arithmetic wraps.
  \<^item> \<^verbatim>\<open>v_int64\<close> is an \<open>int\<close>; casts to \<^verbatim>\<open>std::uint64_t\<close> are written with
    \<open>u64_of_i64\<close>, and the only arithmetic that can leave the range (an atomic increment) is
    \<open>i64_succ\<close>, which wraps.
  \<^item> \<^verbatim>\<open>std::size_t\<close> lengths are \<open>nat\<close>.
  \<^item> \<^verbatim>\<open>std::string\<close> is \<open>string\<close>: a list of bytes, \<open>byte c\<close> being the
    \<^verbatim>\<open>unsigned char\<close> value of \<open>c\<close>.
  \<^item> \<^verbatim>\<open>std::unordered_map\<close> is an association list with distinct keys. The order of the list
    is the iteration order, which the C++ leaves open; no lemma depends on which order it is.
\<close>

section \<open>Machine types\<close>

type_synonym u64 = "64 word"
type_synonym u32 = "32 word"
type_synonym u16 = "16 word"

definition u64_of_i64 :: "int \<Rightarrow> u64" where
  "u64_of_i64 x = word_of_int x"

definition in_i64 :: "int \<Rightarrow> bool" where
  "in_i64 x \<longleftrightarrow> - (2 ^ 63) \<le> x \<and> x < 2 ^ 63"

definition i64_succ :: "int \<Rightarrow> int" where
  "i64_succ x = (if x = 2 ^ 63 - 1 then - (2 ^ 63) else x + 1)"

lemma uint_u64_of_i64:
  assumes "0 \<le> x" and "in_i64 x"
  shows "uint (u64_of_i64 x) = x"
proof -
  from assms have "0 \<le> x" and "x < 2 ^ 64" by (auto simp: in_i64_def)
  then show ?thesis by (simp add: u64_of_i64_def uint_word_of_int take_bit_eq_mod)
qed

lemma i64_succ_less: "x < 2 ^ 63 - 1 \<Longrightarrow> i64_succ x = x + 1"
  by (simp add: i64_succ_def)

lemma unat_succ_u64: "m \<noteq> (- 1 :: u64) \<Longrightarrow> unat (m + 1) = Suc (unat m)"
proof -
  assume m: "m \<noteq> - 1"
  have "unat m \<noteq> unat (- 1 :: u64)" using m by (simp only: word_unat_eq_iff not_False_eq_True)
  then have "unat m \<noteq> 2 ^ 64 - 1" by (simp add: unsigned_minus_1_eq_mask mask_eq_exp_minus_1)
  moreover have "unat m < 2 ^ 64" using unsigned_less [of m] by simp
  ultimately have "Suc (unat m) < 2 ^ 64" by linarith
  then show ?thesis by (simp add: unat_word_ariths)
qed

lemma nat_or_shift:
  fixes a b :: nat
  assumes "b < 2 ^ n"
  shows "or (push_bit n a) b = a * 2 ^ n + b"
proof -
  have b: "b = take_bit n b" using assms by (simp add: take_bit_nat_eq_self)
  have "push_bit n a + b = or (push_bit n a) b"
    by (rule disjunctive_add_eq_or, subst b) (auto simp: bit_eq_iff bit_simps)
  then show ?thesis by (simp add: push_bit_eq_mult)
qed

lemma nat_and_mask:
  fixes x :: nat
  shows "and x 3 = x mod 4" "and x 15 = x mod 16" "and x 63 = x mod 64"
  using take_bit_eq_mask [of 2 x] take_bit_eq_mask [of 4 x] take_bit_eq_mask [of 6 x]
  by (simp_all add: mask_eq_exp_minus_1 take_bit_eq_mod)

section \<open>Strings and bytes\<close>

definition byte :: "char \<Rightarrow> nat" where
  "byte c = of_char c"

lemma byte_less [simp]: "byte c < 256"
by (simp add: byte_def)

lemma byte_inject [simp]: "byte c = byte d \<longleftrightarrow> c = d"
  by (simp add: byte_def)

lemma char_of_byte [simp]: "char_of (byte c) = c"
  by (simp add: byte_def)

lemma byte_char_of: "n < 256 \<Longrightarrow> byte (char_of n) = n"
  by (simp add: byte_def)

definition is_lower :: "char \<Rightarrow> bool" where
  "is_lower c \<longleftrightarrow> byte CHR ''a'' \<le> byte c \<and> byte c \<le> byte CHR ''z''"

definition is_upper :: "char \<Rightarrow> bool" where
  "is_upper c \<longleftrightarrow> byte CHR ''A'' \<le> byte c \<and> byte c \<le> byte CHR ''Z''"

definition is_digit :: "char \<Rightarrow> bool" where
  "is_digit c \<longleftrightarrow> byte CHR ''0'' \<le> byte c \<and> byte c \<le> byte CHR ''9''"

definition is_alnum :: "char \<Rightarrow> bool" where
  "is_alnum c \<longleftrightarrow> is_lower c \<or> is_upper c \<or> is_digit c"

definition digit_val :: "char \<Rightarrow> nat" where
  "digit_val c = byte c - byte CHR ''0''"

text \<open>The sixteen upper-case hexadecimal digits, as the sources index them.\<close>

definition hex_digit :: "nat \<Rightarrow> char" where
  "hex_digit n = ''0123456789ABCDEF'' ! n"

definition backslash :: char where "backslash = CHR 0x5C"
definition dquote :: char where "dquote = CHR 0x22"
definition squote :: char where "squote = CHR 0x27"
definition newline :: char where "newline = CHR 0x0A"
definition carriage_return :: char where "carriage_return = CHR 0x0D"
definition tabulator :: char where "tabulator = CHR 0x09"

text \<open>\<^verbatim>\<open>text.find(pattern, from)\<close>: the first position at or after \<open>from\<close> where the pattern
  starts, or \<^verbatim>\<open>npos\<close> (\<open>None\<close>).\<close>

fun find_sub :: "'a list \<Rightarrow> 'a list \<Rightarrow> nat option" where
  "find_sub pat [] = (if pat = [] then Some 0 else None)"
| "find_sub pat (x # xs) =
     (if prefix pat (x # xs) then Some 0 else map_option Suc (find_sub pat xs))"

definition str_find :: "'a list \<Rightarrow> 'a list \<Rightarrow> nat \<Rightarrow> nat option" where
  "str_find str pat from =
     (if from > length str then None
      else map_option (\<lambda>p. from + p) (find_sub pat (drop from str)))"

text \<open>\<^verbatim>\<open>text.substr(pos, count)\<close>.\<close>

definition substr :: "'a list \<Rightarrow> nat \<Rightarrow> nat \<Rightarrow> 'a list" where
  "substr str pos cnt = take cnt (drop pos str)"

lemma find_sub_Some:
  "find_sub pat str = Some p \<Longrightarrow> prefix pat (drop p str) \<and> p + length pat \<le> length str"
  by (induction pat str arbitrary: p rule: find_sub.induct)
     (auto simp: prefix_length_le split: if_splits dest: prefix_length_le)

lemma find_sub_first:
  "find_sub pat str = Some p \<Longrightarrow> q < p \<Longrightarrow> \<not> prefix pat (drop q str)"
proof (induction pat str arbitrary: p q rule: find_sub.induct)
  case (2 pat x xs)
  then show ?case by (cases q) (auto split: if_splits)
qed (auto split: if_splits)

lemma find_sub_None:
  "find_sub pat str = None \<longleftrightarrow> (\<forall>q \<le> length str. \<not> prefix pat (drop q str))"
proof (induction pat str rule: find_sub.induct)
  case (2 pat x xs)
  show ?case
  proof
    assume none: "find_sub pat (x # xs) = None"
    then have np: "\<not> prefix pat (x # xs)" and "find_sub pat xs = None"
      by (auto split: if_splits)
    with 2 have IH: "\<forall>q \<le> length xs. \<not> prefix pat (drop q xs)" by simp
    show "\<forall>q \<le> length (x # xs). \<not> prefix pat (drop q (x # xs))"
    proof (intro allI impI)
      fix q assume "q \<le> length (x # xs)"
      then show "\<not> prefix pat (drop q (x # xs))" using np IH by (cases q) auto
    qed
  next
    assume all: "\<forall>q \<le> length (x # xs). \<not> prefix pat (drop q (x # xs))"
    then have "\<not> prefix pat (x # xs)" by (metis drop0 le0)
    moreover have "\<forall>q \<le> length xs. \<not> prefix pat (drop q xs)"
      using all by (metis Suc_le_mono drop_Suc_Cons length_Cons)
    ultimately show "find_sub pat (x # xs) = None" using 2 by simp
  qed
qed auto

lemma str_find_Some:
  "str_find str pat from = Some p \<Longrightarrow>
     from \<le> p \<and> prefix pat (drop p str) \<and> p + length pat \<le> length str"
  by (auto simp: str_find_def add.commute split: if_splits dest!: find_sub_Some)

section \<open>Keyed containers\<close>

text \<open>
  The operations of \<^verbatim>\<open>std::unordered_map\<close> the server uses: \<^verbatim>\<open>find\<close>,
  \<^verbatim>\<open>emplace\<close> (keeps an existing entry), \<^verbatim>\<open>operator[] =\<close> (overwrites) and
  \<^verbatim>\<open>erase\<close> by key.
\<close>

type_synonym ('k, 'v) umap = "('k \<times> 'v) list"

definition um_find :: "('k, 'v) umap \<Rightarrow> 'k \<Rightarrow> 'v option" where
  "um_find m k = map_of m k"

definition um_assign :: "'k \<Rightarrow> 'v \<Rightarrow> ('k, 'v) umap \<Rightarrow> ('k, 'v) umap" where
  "um_assign k v m = AList.update k v m"

definition um_emplace :: "'k \<Rightarrow> 'v \<Rightarrow> ('k, 'v) umap \<Rightarrow> ('k, 'v) umap" where
  "um_emplace k v m = (case um_find m k of None \<Rightarrow> m @ [(k, v)] | Some _ \<Rightarrow> m)"

definition um_erase :: "'k \<Rightarrow> ('k, 'v) umap \<Rightarrow> ('k, 'v) umap" where
  "um_erase k m = filter (\<lambda>e. fst e \<noteq> k) m"

definition um_valid :: "('k, 'v) umap \<Rightarrow> bool" where
  "um_valid m \<longleftrightarrow> distinct (map fst m)"

text \<open>
  What the clients rely on. \<open>content\<close> reads a container as a map; \<open>count\<close> is
  \<^verbatim>\<open>size()\<close>.
\<close>

locale keyed_container =
  fixes lookup :: "'m \<Rightarrow> 'k \<Rightarrow> 'v option"
    and store :: "'k \<Rightarrow> 'v \<Rightarrow> 'm \<Rightarrow> 'm"
    and erase :: "'k \<Rightarrow> 'm \<Rightarrow> 'm"
    and count :: "'m \<Rightarrow> nat"
    and valid :: "'m \<Rightarrow> bool"
  assumes lookup_store: "valid m \<Longrightarrow> lookup (store k v m) j = (if j = k then Some v else lookup m j)"
    and lookup_erase: "valid m \<Longrightarrow> lookup (erase k m) j = (if j = k then None else lookup m j)"
    and valid_store: "valid m \<Longrightarrow> valid (store k v m)"
    and valid_erase: "valid m \<Longrightarrow> valid (erase k m)"
    and count_store: "valid m \<Longrightarrow>
          count (store k v m) = (if lookup m k = None then Suc (count m) else count m)"
    and count_erase: "valid m \<Longrightarrow>
          count (erase k m) = (if lookup m k = None then count m else count m - 1)"
begin

lemma count_store_le: "valid m \<Longrightarrow> count (store k v m) \<le> Suc (count m)"
  by (simp add: count_store)

lemma count_erase_le: "valid m \<Longrightarrow> count (erase k m) \<le> count m"
  by (simp add: count_erase)

lemma bounded_store:
  "valid m \<Longrightarrow> count m < limit \<Longrightarrow> count (store k v m) \<le> limit"
  using count_store_le [of m k v] by simp

lemma erase_store_lookup:
  "valid m \<Longrightarrow> lookup (erase k (store k v m)) = (lookup m)(k := None)"
  by (simp add: fun_eq_iff lookup_erase lookup_store valid_store)

lemma store_all_valid:
  "valid m \<Longrightarrow> valid (fold (\<lambda>kv. store (fst kv) (snd kv)) kvs m)"
  by (induction kvs arbitrary: m) (simp_all add: valid_store)

lemma erase_all_valid: "valid m \<Longrightarrow> valid (fold erase ks m)"
  by (induction ks arbitrary: m) (simp_all add: valid_erase)

lemma lookup_erase_all:
  "valid m \<Longrightarrow> lookup (fold erase ks m) j = (if j \<in> set ks then None else lookup m j)"
  by (induction ks arbitrary: m) (auto simp: valid_erase lookup_erase)

lemma count_erase_all_le: "valid m \<Longrightarrow> count (fold erase ks m) \<le> count m"
proof (induction ks arbitrary: m)
  case (Cons k ks)
  then have "count (fold erase ks (erase k m)) \<le> count (erase k m)"
    by (simp add: valid_erase)
  also have "\<dots> \<le> count m" using Cons.prems by (rule count_erase_le)
  finally show ?case by simp
qed simp

end

lemma map_of_filter_fst:
  "map_of (filter (\<lambda>e. fst e \<noteq> k) m) j = (if j = k then None else map_of m j)"
  by (induction m) auto

lemma um_find_Nil [simp]: "um_find [] k = None"
  by (simp add: um_find_def)

lemma um_valid_Nil [simp]: "um_valid []"
  by (simp add: um_valid_def)

lemma um_find_None: "um_find m k = None \<longleftrightarrow> k \<notin> fst ` set m"
  by (simp add: um_find_def map_of_eq_None_iff)

lemma um_find_SomeD: "um_find m k = Some v \<Longrightarrow> (k, v) \<in> set m"
  by (simp add: um_find_def map_of_SomeD)

lemma um_find_in: "um_valid m \<Longrightarrow> um_find m k = Some v \<longleftrightarrow> (k, v) \<in> set m"
  by (simp add: um_find_def um_valid_def map_of_eq_Some_iff)

lemma um_erase_set: "set (um_erase k m) = {e \<in> set m. fst e \<noteq> k}"
  by (auto simp: um_erase_def)

lemma um_emplace_fresh: "um_find m k = None \<Longrightarrow> um_emplace k v m = m @ [(k, v)]"
  by (simp add: um_emplace_def)

lemma um_assign_set:
  "um_valid m \<Longrightarrow> set (um_assign k v m) = insert (k, v) {e \<in> set m. fst e \<noteq> k}"
proof (induction m)
  case (Cons e m)
  then show ?case by (cases e) (force simp: um_assign_def um_valid_def)
qed (simp add: um_assign_def)

lemma length_filter_fst:
  "distinct (map fst m) \<Longrightarrow>
     length (filter (\<lambda>e. fst e \<noteq> k) m) = (if k \<in> fst ` set m then length m - 1 else length m)"
proof (induction m)
  case (Cons e m)
  show ?case
  proof (cases "fst e = k")
    case True
    with Cons.prems have "\<forall>x\<in>set m. fst x \<noteq> k" by (auto simp: image_iff)
    then have "filter (\<lambda>e. fst e \<noteq> k) m = m" by (rule filter_True)
    with True show ?thesis by simp
  next
    case False
    with Cons have "length (filter (\<lambda>e. fst e \<noteq> k) m)
        = (if k \<in> fst ` set m then length m - 1 else length m)" by simp
    moreover have "k \<in> fst ` set m \<Longrightarrow> 0 < length m" by (cases m) auto
    ultimately show ?thesis using False by auto
  qed
qed simp

lemma um_length_update:
  "length (AList.update k v m) = (if k \<in> fst ` set m then length m else Suc (length m))"
  by (induction m) auto

interpretation um: keyed_container um_find um_assign um_erase length um_valid
proof unfold_locales
  fix m :: "('k, 'v) umap" and k j :: 'k and v :: 'v
  assume m: "um_valid m"
  show "um_find (um_assign k v m) j = (if j = k then Some v else um_find m j)"
    by (simp add: um_find_def um_assign_def update_conv)
  show "um_find (um_erase k m) j = (if j = k then None else um_find m j)"
    by (auto simp: um_find_def um_erase_def map_of_filter_fst)
  show "um_valid (um_assign k v m)"
    using m by (simp add: um_valid_def um_assign_def distinct_update)
  show "um_valid (um_erase k m)"
    using m by (simp add: um_valid_def um_erase_def distinct_map_filter)
  show "length (um_assign k v m) = (if um_find m k = None then Suc (length m) else length m)"
    by (simp add: um_assign_def um_find_None um_length_update)
  show "length (um_erase k m) = (if um_find m k = None then length m else length m - 1)"
    using m by (simp add: um_erase_def um_valid_def um_find_None length_filter_fst)
qed


section \<open>Codecs and escapers\<close>

locale codec =
  fixes enc :: "'a \<Rightarrow> 'b"
    and dec :: "'b \<Rightarrow> 'a option"
    and dom_ok :: "'a \<Rightarrow> bool"
  assumes dec_enc: "dom_ok x \<Longrightarrow> dec (enc x) = Some x"
begin

lemma enc_inj: "dom_ok x \<Longrightarrow> dom_ok y \<Longrightarrow> enc x = enc y \<Longrightarrow> x = y"
  by (metis dec_enc option.inject)

lemma enc_inj_on: "inj_on enc {x. dom_ok x}"
  by (auto intro!: inj_onI dest: enc_inj)

end

text \<open>A reader that peels one character at a time off an escaped text; the fuel bounds the number
  of characters and the length of the text is always enough (\<open>decode_escaped\<close> below).\<close>

primrec decode_with :: "(string \<Rightarrow> (char \<times> string) option) \<Rightarrow> nat \<Rightarrow> string \<Rightarrow> string option" where
  "decode_with u 0 s = (if s = [] then Some [] else None)"
| "decode_with u (Suc n) s =
     (if s = [] then Some []
      else case u s of
        None \<Rightarrow> None
      | Some (c, r) \<Rightarrow> map_option ((#) c) (decode_with u n r))"

definition decode_escaped :: "(string \<Rightarrow> (char \<times> string) option) \<Rightarrow> string \<Rightarrow> string option" where
  "decode_escaped u s = decode_with u (length s) s"

text \<open>An escaper maps each byte to a non-empty text that a one-character reader undoes whatever
  follows.\<close>

locale escaper =
  fixes esc :: "char \<Rightarrow> string"
    and peel :: "string \<Rightarrow> (char \<times> string) option"
  assumes esc_nonempty: "esc c \<noteq> []"
    and peel_esc: "peel (esc c @ rest) = Some (c, rest)"
begin

lemma decode_with_enough:
  "length cs \<le> n \<Longrightarrow> decode_with peel n (concat (map esc cs)) = Some cs"
proof (induction cs arbitrary: n)
  case Nil
  then show ?case by (cases n) simp_all
next
  case (Cons c cs)
  then obtain m where n: "n = Suc m" and m: "length cs \<le> m"
    by (cases n) simp_all
  have "decode_with peel m (concat (map esc cs)) = Some cs" by (rule Cons.IH [OF m])
  then show ?case by (simp add: n esc_nonempty peel_esc)
qed

lemma length_escaped: "length cs \<le> length (concat (map esc cs))"
proof (induction cs)
  case (Cons c cs)
  have "1 \<le> length (esc c)" using esc_nonempty [of c] by (cases "esc c") simp_all
  with Cons show ?case by simp
qed simp

lemma decode_escaped_id: "decode_escaped peel (concat (map esc cs)) = Some cs"
  by (simp add: decode_escaped_def decode_with_enough length_escaped)

end

sublocale escaper \<subseteq> codec "\<lambda>cs. concat (map esc cs)" "decode_escaped peel" "\<lambda>_. True"
  by unfold_locales (rule decode_escaped_id)

lemma list_all_concat_map:
  "(\<And>c. c \<in> set cs \<Longrightarrow> list_all P (f c)) \<Longrightarrow> list_all P (concat (map f cs))"
  by (induction cs) auto

section \<open>Frames\<close>

text \<open>
  A frame is a relation between the state before and after an operation (what the operation leaves
  alone). Frames are closed under composition, so under the loops of the code as well.
\<close>

locale frame_relation =
  fixes frame :: "'s \<Rightarrow> 's \<Rightarrow> bool"
  assumes frame_refl: "frame s s"
    and frame_trans: "frame a b \<Longrightarrow> frame b c \<Longrightarrow> frame a c"
begin

lemma loop: "(\<And>x s. frame s (f x s)) \<Longrightarrow> frame s (fold f xs s)"
  by (induction xs arbitrary: s) (auto intro: frame_refl frame_trans)

lemma loop_set: "(\<And>x s. x \<in> set xs \<Longrightarrow> frame s (f x s)) \<Longrightarrow> frame s (fold f xs s)"
proof (induction xs arbitrary: s)
  case Nil
  show ?case by (simp add: frame_refl)
next
  case (Cons x xs)
  have "frame s (f x s)" by (rule Cons.prems) simp
  moreover have "frame (f x s) (fold f xs (f x s))" by (rule Cons.IH) (simp add: Cons.prems)
  ultimately show ?case using frame_trans by simp
qed

lemma branch: "frame s t \<Longrightarrow> frame s u \<Longrightarrow> frame s (if b then t else u)"
  by simp

end

section \<open>Event machines\<close>

text \<open>
  Objects that several threads drive are written as a partial step function: \<open>None\<close> when the event
  is not enabled. A run is a list of events, one interleaving.
\<close>

fun run_events :: "('e \<Rightarrow> 's \<Rightarrow> 's option) \<Rightarrow> 'e list \<Rightarrow> 's \<Rightarrow> 's option" where
  "run_events step [] s = Some s"
| "run_events step (e # es) s = (case step e s of None \<Rightarrow> None | Some s \<Rightarrow> run_events step es s)"

lemma run_events_append:
  "run_events step (es @ fs) s = (case run_events step es s of None \<Rightarrow> None | Some s \<Rightarrow> run_events step fs s)"
  by (induction es arbitrary: s) (auto split: option.split)

lemma run_events_total: "run_events (\<lambda>e s. Some (f e s)) es s = Some (fold f es s)"
  by (induction es arbitrary: s) simp_all

locale machine =
  fixes step :: "'e \<Rightarrow> 's \<Rightarrow> 's option"
    and allowed :: "'e \<Rightarrow> bool"
    and inv :: "'s \<Rightarrow> bool"
  assumes step_inv: "inv s \<Longrightarrow> allowed e \<Longrightarrow> step e s = Some s' \<Longrightarrow> inv s'"
begin

lemma run_inv: "inv s \<Longrightarrow> list_all allowed es \<Longrightarrow> run_events step es s = Some s' \<Longrightarrow> inv s'"
  by (induction es arbitrary: s) (auto split: option.splits dest: step_inv)

end

text \<open>A machine whose inner steps lower a measure makes only so many of them, whatever happens around it.\<close>

locale terminating_machine = machine +
  fixes inner :: "'e \<Rightarrow> bool"
    and rank :: "'s \<Rightarrow> nat"
  assumes rank_le: "inv s \<Longrightarrow> allowed e \<Longrightarrow> step e s = Some s' \<Longrightarrow> rank s' \<le> rank s"
    and rank_less: "inv s \<Longrightarrow> allowed e \<Longrightarrow> inner e \<Longrightarrow> step e s = Some s' \<Longrightarrow> rank s' < rank s"
begin

lemma inner_bounded:
  "inv s \<Longrightarrow> list_all allowed es \<Longrightarrow> run_events step es s = Some s' \<Longrightarrow>
     rank s' + length (filter inner es) \<le> rank s"
proof (induction es arbitrary: s)
  case (Cons e es)
  then obtain s1 where s1: "step e s = Some s1" "run_events step es s1 = Some s'" by (auto split: option.splits)
  have "inv s1" using step_inv [OF _ _ s1(1)] Cons.prems by simp
  from Cons.IH [OF this _ s1(2)] Cons.prems
  have "rank s' + length (filter inner es) \<le> rank s1" by simp
  moreover have "rank s1 + (if inner e then 1 else 0) \<le> rank s"
    using rank_le [OF _ _ s1(1)] rank_less [OF _ _ _ s1(1)] Cons.prems by (auto simp: Suc_le_eq)
  ultimately show ?case by (simp split: if_splits)
qed simp

end

end
