(* ===== verification/TorText.thy ===== *)
theory TorText
  imports Prelude
begin

text \<open>
  The texts of the Tor control protocol and the onion key file (\<^verbatim>\<open>server/src/utils/TorControl.cpp\<close>):
  hexadecimal, quoted values, fields and method lists, the shape of service ids and keys, and the
  loading and saving of the key.

  A system call is an argument: the scripted list of the results its successive invocations return,
  \<open>Inl\<close> an \<^verbatim>\<open>errno\<close> or \<open>Inr\<close> what was transferred. A script that is used up behaves like a call
  whose time-out has passed (\<open>EAGAIN\<close>): the sockets carry \<^verbatim>\<open>SO_RCVTIMEO\<close> and \<^verbatim>\<open>SO_SNDTIMEO\<close>. The text of an
  error number is the parameter \<open>strerror\<close>.
\<close>

unbundle bit_operations_syntax

type_synonym errno = int

definition EINTR :: errno where "EINTR = 4"
definition ENOENT :: errno where "ENOENT = 2"
definition EAGAIN :: errno where "EAGAIN = 11"
definition EINPROGRESS :: errno where "EINPROGRESS = 115"

definition MAX_LINE_BYTES :: nat where "MAX_LINE_BYTES = 8192"
definition MAX_REPLY_BYTES :: nat where "MAX_REPLY_BYTES = 64 * 1024"
definition COOKIE_BYTES :: nat where "COOKIE_BYTES = 32"
definition NONCE_BYTES :: nat where "NONCE_BYTES = 32"
definition SERVER_HASH_KEY :: string where
  "SERVER_HASH_KEY = ''Tor safe cookie authentication server-to-controller hash''"
definition CLIENT_HASH_KEY :: string where
  "CLIENT_HASH_KEY = ''Tor safe cookie authentication controller-to-server hash''"

definition socketError :: "(errno \<Rightarrow> string) \<Rightarrow> string \<Rightarrow> errno \<Rightarrow> string" where
  "socketError strerror action e = action @ '': '' @ strerror e"

text \<open>\<^verbatim>\<open>std::to_string\<close> of an unsigned number.\<close>

fun decimal :: "nat \<Rightarrow> string" where
  "decimal n = (if n < 10 then [char_of (48 + n)] else decimal (n div 10) @ [char_of (48 + n mod 10)])"

declare decimal.simps [simp del]

section \<open>Hexadecimal\<close>

fun hexEncode :: "string \<Rightarrow> string" where
  "hexEncode [] = []"
| "hexEncode (c # cs) = hex_digit (byte c div 16) # hex_digit (byte c mod 16) # hexEncode cs"

definition hex_nibble :: "char \<Rightarrow> nat option" where
  "hex_nibble c =
     (if 48 \<le> byte c \<and> byte c \<le> 57 then Some (byte c - 48)
      else if 97 \<le> byte c \<and> byte c \<le> 102 then Some (byte c - 97 + 10)
      else if 65 \<le> byte c \<and> byte c \<le> 70 then Some (byte c - 65 + 10)
      else None)"

fun hexDecode_loop :: "string \<Rightarrow> string option" where
  "hexDecode_loop (h # l # cs) =
     (case (hex_nibble h, hex_nibble l) of
        (Some high, Some low) \<Rightarrow> map_option ((#) (char_of (high * 16 + low))) (hexDecode_loop cs)
      | _ \<Rightarrow> None)"
| "hexDecode_loop _ = Some []"

definition hexDecode :: "string \<Rightarrow> string option" where
  "hexDecode s = (if s = [] \<or> odd (length s) then None else hexDecode_loop s)"

section \<open>Values in a reply line\<close>

text \<open>Up to two more octal digits: the value and the rest of the line.\<close>

fun octal_digits :: "nat \<Rightarrow> nat \<Rightarrow> string \<Rightarrow> nat \<times> string" where
  "octal_digits n octet [] = (octet, [])"
| "octal_digits n octet (c # cs) =
     (if n > 0 \<and> 48 \<le> byte c \<and> byte c \<le> 55 then octal_digits (n - 1) (octet * 8 + (byte c - 48)) cs
      else (octet, c # cs))"

lemma octal_digits_length: "length (snd (octal_digits n o0 cs)) \<le> length cs"
  by (induction n o0 cs rule: octal_digits.induct) auto

text \<open>The loop of \<^verbatim>\<open>quotedValue\<close> behind the opening quote, with the value read so far.\<close>

function quoted_scan :: "string \<Rightarrow> string \<Rightarrow> string option" where
  "quoted_scan [] value = None"
| "quoted_scan (c # cs) value =
     (if c = dquote then Some value
      else if c \<noteq> backslash then quoted_scan cs (value @ [c])
      else case cs of
        [] \<Rightarrow> None
      | e # es \<Rightarrow>
          if e = CHR ''n'' then quoted_scan es (value @ [newline])
          else if e = CHR ''r'' then quoted_scan es (value @ [carriage_return])
          else if e = CHR ''t'' then quoted_scan es (value @ [tabulator])
          else if e = backslash then quoted_scan es (value @ [backslash])
          else if e = dquote then quoted_scan es (value @ [dquote])
          else if byte e < 48 \<or> 55 < byte e then quoted_scan es (value @ [e])
          else if fst (octal_digits 2 (byte e - 48) es) > 255 then None
          else quoted_scan (snd (octal_digits 2 (byte e - 48) es))
                 (value @ [char_of (fst (octal_digits 2 (byte e - 48) es))]))"
  by pat_completeness auto
termination
  by (relation "measure (length \<circ> fst)")
     (auto intro: le_imp_less_Suc le_SucI octal_digits_length [THEN order_trans])

definition quotedValue :: "string \<Rightarrow> string \<Rightarrow> string option" where
  "quotedValue line name =
     (case str_find line name 0 of
        None \<Rightarrow> None
      | Some start \<Rightarrow>
          (case drop (start + length name) line of
             c # cs \<Rightarrow> if c \<noteq> dquote then None else quoted_scan cs []
           | [] \<Rightarrow> None))"

text \<open>The tokens between commas, as the loop visits them.\<close>

function containsMethod_from :: "nat \<Rightarrow> string \<Rightarrow> string \<Rightarrow> bool" where
  "containsMethod_from position methods method =
     (if position > length methods then False
      else
        let e = str_find methods '','' position;
            token = substr methods position (case e of None \<Rightarrow> length methods - position | Some p \<Rightarrow> p - position)
        in if token = method then True
           else case e of None \<Rightarrow> False | Some p \<Rightarrow> containsMethod_from (p + 1) methods method)"
  by pat_completeness auto
termination
  by (relation "measure (\<lambda>(position, methods, _). Suc (length methods) - position)")
     (auto dest!: str_find_Some [OF sym])

declare containsMethod_from.simps [simp del]

definition containsMethod :: "string \<Rightarrow> string \<Rightarrow> bool" where
  "containsMethod methods method = containsMethod_from 0 methods method"

text \<open>From behind \<open>field\<close> to the next space.\<close>

definition until_space :: "string \<Rightarrow> nat \<Rightarrow> string" where
  "until_space line valueStart =
     substr line valueStart (case str_find line '' '' valueStart of
        None \<Rightarrow> length line - valueStart | Some e \<Rightarrow> e - valueStart)"

definition fieldValue :: "string \<Rightarrow> string \<Rightarrow> string" where
  "fieldValue line field =
     (case str_find line field 0 of
        None \<Rightarrow> [] | Some start \<Rightarrow> until_space line (start + length field))"

definition service_id_char :: "char \<Rightarrow> bool" where
  "service_id_char c \<longleftrightarrow> is_lower c \<or> (50 \<le> byte c \<and> byte c \<le> 55)"

definition validServiceId :: "string \<Rightarrow> bool" where
  "validServiceId serviceId \<longleftrightarrow> length serviceId = 56 \<and> list_all service_id_char serviceId"

definition private_key_char :: "char \<Rightarrow> bool" where
  "private_key_char c \<longleftrightarrow> is_upper c \<or> is_lower c \<or> is_digit c \<or> c = CHR ''+'' \<or> c = CHR ''/''"

definition key_prefix :: string where "key_prefix = ''ED25519-V3:''"

definition validPrivateKey :: "string \<Rightarrow> bool" where
  "validPrivateKey privateKey \<longleftrightarrow>
     length privateKey = length key_prefix + 88
   \<and> take (length key_prefix) privateKey = key_prefix
   \<and> drop (length privateKey - 2) privateKey = ''==''
   \<and> list_all private_key_char (drop (length key_prefix) (take (length privateKey - 2) privateKey))"

record Reply =
  r_status :: int
  r_lines :: "string list"

definition Reply_new :: Reply where "Reply_new = \<lparr>r_status = 0, r_lines = []\<rparr>"

definition replyValue :: "Reply \<Rightarrow> string \<Rightarrow> string" where
  "replyValue reply pre =
     (case find (\<lambda>line. take (length pre) line = pre) (r_lines reply) of
        None \<Rightarrow> [] | Some line \<Rightarrow> drop (length pre) line)"

section \<open>The key file\<close>

text \<open>\<open>Opened\<close>: what \<^verbatim>\<open>fstat\<close> reports (whether the file is regular, its mode and its size) and what the
  reads return.\<close>

record KeyFile =
  kf_stat :: "(bool \<times> 32 word \<times> int) option"
  kf_reads :: "(errno + string) list"

datatype KeyLoadResult = MISSING | VALID | INVALID_KEY

text \<open>The loop reads until \<open>missing\<close> bytes have arrived; a read never returns more than it was asked for.\<close>

fun read_bytes :: "nat \<Rightarrow> (errno + string) list \<Rightarrow> string option" where
  "read_bytes missing [] = (if missing = 0 then Some [] else None)"
| "read_bytes missing (r # rs) =
     (if missing = 0 then Some []
      else case r of
        Inl e \<Rightarrow> if e = EINTR then read_bytes missing rs else None
      | Inr chunk \<Rightarrow>
          if chunk = [] then None
          else map_option ((@) (take missing chunk)) (read_bytes (missing - length chunk) rs))"

definition strip_newlines :: "string \<Rightarrow> string" where
  "strip_newlines s = rev (dropWhile (\<lambda>c. c = newline \<or> c = carriage_return) (rev s))"

definition loadPrivateKey :: "errno + KeyFile \<Rightarrow> KeyLoadResult \<times> string" where
  "loadPrivateKey opened =
     (case opened of
        Inl e \<Rightarrow> (if e = ENOENT then MISSING else INVALID_KEY, [])
      | Inr file \<Rightarrow>
          (case kf_stat file of
             None \<Rightarrow> (INVALID_KEY, [])
           | Some (regular, mode, bytes) \<Rightarrow>
               if \<not> regular \<or> mode AND 63 \<noteq> 0 \<or> bytes \<le> 0 \<or> bytes > 1024 then (INVALID_KEY, [])
               else (case read_bytes (nat bytes) (kf_reads file) of
                 None \<Rightarrow> (INVALID_KEY, [])
               | Some content \<Rightarrow>
                   let privateKey = strip_newlines content
                   in (if validPrivateKey privateKey then VALID else INVALID_KEY, privateKey))))"

text \<open>The bytes a write loop got out, and whether it got all of them out.\<close>

fun writeAll :: "(errno + nat) list \<Rightarrow> string \<Rightarrow> string \<times> bool" where
  "writeAll rs [] = ([], True)"
| "writeAll [] (c # cs) = ([], False)"
| "writeAll (r # rs) (c # cs) =
     (case r of
        Inl e \<Rightarrow> if e = EINTR then writeAll rs (c # cs) else ([], False)
      | Inr n \<Rightarrow>
          if n = 0 then ([], False)
          else let (out, ok) = writeAll rs (drop n (c # cs)) in (take n (c # cs) @ out, ok))"

lemma writeAll_out: "writeAll rs cs = (out, ok) \<Longrightarrow> prefix out cs \<and> (ok \<longrightarrow> out = cs)"
proof (induction rs cs arbitrary: out ok rule: writeAll.induct)
  case (3 r rs c cs)
  then show ?case
    by (cases r) (auto simp: prefix_def split: if_splits prod.splits, (metis append_assoc append_take_drop_id)+)
qed auto

text \<open>The results of the calls of \<^verbatim>\<open>savePrivateKey\<close>, in their order.\<close>

record SaveCalls =
  sv_mkdir :: bool
  sv_mkstemp :: bool
  sv_fchmod :: bool
  sv_writes :: "(errno + nat) list"
  sv_fsync :: bool
  sv_close :: bool
  sv_rename :: bool

text \<open>The content that ends up at the path, if any. \<^verbatim>\<open>parent_path\<close> is empty when the path has no slash.\<close>

definition savePrivateKey :: "SaveCalls \<Rightarrow> string \<Rightarrow> string \<Rightarrow> string option" where
  "savePrivateKey calls path privateKey =
     (if path = [] \<or> \<not> validPrivateKey privateKey then None
      else if CHR ''/'' \<in> set path \<and> \<not> sv_mkdir calls then None
      else if \<not> sv_mkstemp calls then None
      else
        let (out, written) = writeAll (sv_writes calls) (privateKey @ [newline]);
            success = (sv_fchmod calls \<and> written \<and> sv_fsync calls \<and> sv_close calls)
        in if success \<and> sv_rename calls then Some out else None)"

definition readCookie :: "(string \<Rightarrow> string option) \<Rightarrow> string \<Rightarrow> string option" where
  "readCookie files path =
     (case files path of
        None \<Rightarrow> None | Some content \<Rightarrow> if length content = COOKIE_BYTES then Some content else None)"

end
