(* ===== verification/TorControl.thy ===== *)
theory TorControl
  imports TorText
begin

text \<open>
  The onion service of \<^verbatim>\<open>server/src/utils/TorControl.cpp\<close>: connecting to the control port, commands and
  replies on it, cookie authentication, adding and removing the service. \<open>Onion\<close> is the object
  together with the connection: the results the sends and receives still return, the bytes sent,
  and the key file written.
\<close>

section \<open>Connecting\<close>

text \<open>The results of the calls made on one socket, in their order. \<open>cc_polls\<close> depends on the time-out.\<close>

record ConnectCalls =
  cc_socket :: "errno + int"
  cc_getfl :: "errno option"
  cc_setfl :: "errno option"
  cc_connects :: "errno option list"
  cc_polls :: "int \<Rightarrow> (errno + nat) list"
  cc_getsockopt :: "errno + errno"
  cc_restore :: "errno option"
  cc_rcvtimeo :: "errno option"
  cc_sndtimeo :: "errno option"

definition boundedTimeout :: "int \<Rightarrow> int" where
  "boundedTimeout timeoutCount =
     (if timeoutCount > 30000 then 30000 else if timeoutCount < 1 then 1 else timeoutCount)"

text \<open>\<^verbatim>\<open>poll\<close> is repeated after an interruption; it returns 0 when the time-out has passed.\<close>

fun poll_result :: "(errno + nat) list \<Rightarrow> errno + nat" where
  "poll_result [] = Inr 0"
| "poll_result (r # rs) = (if r = Inl EINTR then poll_result rs else r)"

definition waitForConnect :: "(errno \<Rightarrow> string) \<Rightarrow> ConnectCalls \<Rightarrow> int \<Rightarrow> string option" where
  "waitForConnect strerror calls timeout =
     (case poll_result (cc_polls calls (boundedTimeout timeout)) of
        Inr n \<Rightarrow>
          if n = 0 then Some ''Tor control connection timed out''
          else (case cc_getsockopt calls of
            Inl e \<Rightarrow> Some (socketError strerror ''checking Tor control connection'' e)
          | Inr status \<Rightarrow>
              if status \<noteq> 0 then Some (''connecting to Tor control endpoint: '' @ strerror status) else None)
      | Inl e \<Rightarrow> Some (socketError strerror ''polling Tor control connection'' e))"

fun connect_result :: "errno option list \<Rightarrow> errno option" where
  "connect_result [] = Some EAGAIN"
| "connect_result (r # rs) = (if r = Some EINTR then connect_result rs else r)"

definition connectWithTimeout :: "(errno \<Rightarrow> string) \<Rightarrow> ConnectCalls \<Rightarrow> int \<Rightarrow> string option" where
  "connectWithTimeout strerror calls timeout =
     (case (cc_getfl calls, cc_setfl calls) of
        (Some e, _) \<Rightarrow> Some (socketError strerror ''configuring Tor control socket'' e)
      | (None, Some e) \<Rightarrow> Some (socketError strerror ''configuring Tor control socket'' e)
      | (None, None) \<Rightarrow>
          let result = connect_result (cc_connects calls)
          in if result \<noteq> None \<and> result \<noteq> Some EINPROGRESS
             then Some (socketError strerror ''connecting to Tor control endpoint'' (the result))
             else (case (if result \<noteq> None then waitForConnect strerror calls timeout else None) of
               Some error \<Rightarrow> Some error
             | None \<Rightarrow>
                 (case cc_restore calls of
                    Some e \<Rightarrow> Some (socketError strerror ''restoring Tor control socket flags'' e)
                  | None \<Rightarrow>
                      (case (cc_rcvtimeo calls, cc_sndtimeo calls) of
                         (Some e, _) \<Rightarrow> Some (socketError strerror ''setting Tor control socket timeout'' e)
                       | (None, Some e) \<Rightarrow> Some (socketError strerror ''setting Tor control socket timeout'' e)
                       | (None, None) \<Rightarrow> None))))"

definition sun_path_size :: nat where "sun_path_size = 108"

definition connectUnix :: "(errno \<Rightarrow> string) \<Rightarrow> ConnectCalls \<Rightarrow> string \<Rightarrow> int \<Rightarrow> string + int" where
  "connectUnix strerror calls path timeout =
     (if path = [] \<or> length path \<ge> sun_path_size then Inl ''Tor control socket path is empty or too long''
      else case cc_socket calls of
        Inl e \<Rightarrow> Inl (socketError strerror ''creating Tor Unix control socket'' e)
      | Inr descriptor \<Rightarrow>
          (case connectWithTimeout strerror calls timeout of Some error \<Rightarrow> Inl error | None \<Rightarrow> Inr descriptor))"

fun connectTcp_loop :: "(errno \<Rightarrow> string) \<Rightarrow> int \<Rightarrow> ConnectCalls list \<Rightarrow> string \<Rightarrow> string + int" where
  "connectTcp_loop strerror timeout [] error =
     Inl (if error = [] then ''no usable Tor control address'' else error)"
| "connectTcp_loop strerror timeout (calls # addresses) error =
     (case cc_socket calls of
        Inl e \<Rightarrow> connectTcp_loop strerror timeout addresses error
      | Inr descriptor \<Rightarrow>
          (case connectWithTimeout strerror calls timeout of
             None \<Rightarrow> Inr descriptor
           | Some candidateError \<Rightarrow> connectTcp_loop strerror timeout addresses candidateError))"

text \<open>What the service takes from its surroundings. \<open>sys_lookup\<close> is \<^verbatim>\<open>getaddrinfo\<close>: an error text or the
  calls on the socket of each address.\<close>

record TorSystem =
  sys_strerror :: "errno \<Rightarrow> string"
  sys_unix :: ConnectCalls
  sys_lookup :: "string \<Rightarrow> string \<Rightarrow> string + ConnectCalls list"
  sys_cookies :: "string \<Rightarrow> string option"
  sys_random :: "string option"
  sys_hmac :: "string \<Rightarrow> string \<Rightarrow> string"
  sys_open :: "string \<Rightarrow> errno + KeyFile"
  sys_save :: SaveCalls

definition connectTcp :: "TorSystem \<Rightarrow> string \<Rightarrow> nat \<Rightarrow> int \<Rightarrow> string + int" where
  "connectTcp sys host port timeout =
     (case sys_lookup sys host (decimal port) of
        Inl text \<Rightarrow> Inl (''resolving Tor control host: '' @ text)
      | Inr addresses \<Rightarrow> connectTcp_loop (sys_strerror sys) timeout addresses [])"

record Options =
  op_controlSocket :: string
  op_controlHost :: string
  op_controlPort :: nat
  op_keyPath :: string
  op_targetHost :: string
  op_targetPort :: nat
  op_virtualPort :: nat
  op_timeout :: int

definition Options_default :: Options where
  "Options_default = \<lparr>op_controlSocket = ''/run/tor/control'', op_controlHost = ''127.0.0.1'',
     op_controlPort = 9051, op_keyPath = ''conspire-onion.key'', op_targetHost = ''127.0.0.1'',
     op_targetPort = 8080, op_virtualPort = 80, op_timeout = 2000\<rparr>"

section \<open>The service\<close>

record Onion =
  on_descriptor :: int
  on_serviceId :: string
  on_hostname :: string
  on_controlEndpoint :: string
  on_readBuffer :: string
  on_sends :: "(errno + nat) list"
  on_recvs :: "(errno + string) list"
  on_sent :: string
  on_keyFile :: "string option"

definition Onion_new :: "(errno + nat) list \<Rightarrow> (errno + string) list \<Rightarrow> Onion" where
  "Onion_new sends recvs = \<lparr>on_descriptor = - 1, on_serviceId = [], on_hostname = [],
     on_controlEndpoint = [], on_readBuffer = [], on_sends = sends, on_recvs = recvs, on_sent = [],
     on_keyFile = None\<rparr>"

definition Onion_active :: "Onion \<Rightarrow> bool" where
  "Onion_active s \<longleftrightarrow> on_descriptor s \<ge> 0 \<and> on_serviceId s \<noteq> []"

definition connectControl :: "TorSystem \<Rightarrow> Options \<Rightarrow> Onion \<Rightarrow> Onion \<times> string option" where
  "connectControl sys options s =
     (let unix = (if op_controlSocket options \<noteq> []
                  then Some (connectUnix (sys_strerror sys) (sys_unix sys) (op_controlSocket options)
                               (op_timeout options))
                  else None)
      in case unix of
           Some (Inr descriptor) \<Rightarrow>
             (s\<lparr>on_descriptor := descriptor, on_controlEndpoint := ''unix:'' @ op_controlSocket options\<rparr>, None)
         | _ \<Rightarrow>
             let unixError = (case unix of Some (Inl error) \<Rightarrow> error | _ \<Rightarrow> [])
             in (case connectTcp sys (op_controlHost options) (op_controlPort options) (op_timeout options) of
                  Inr descriptor \<Rightarrow>
                    (s\<lparr>on_descriptor := descriptor, on_controlEndpoint :=
                       ''tcp:'' @ op_controlHost options @ '':'' @ decimal (op_controlPort options)\<rparr>, None)
                | Inl tcpError \<Rightarrow>
                    (s, Some (''Tor control unavailable''
                       @ (if unixError \<noteq> [] then '' (Unix: '' @ unixError @ '')'' else [])
                       @ (if tcpError \<noteq> [] then '' (TCP: '' @ tcpError @ '')'' else [])))))"

definition crlf :: string where "crlf = [carriage_return, newline]"

fun send_all :: "(errno \<Rightarrow> string) \<Rightarrow> (errno + nat) list \<Rightarrow> string \<Rightarrow>
    (errno + nat) list \<times> string \<times> string option" where
  "send_all strerror rs [] = (rs, [], None)"
| "send_all strerror [] (c # cs) = ([], [], Some (socketError strerror ''writing Tor control command'' EAGAIN))"
| "send_all strerror (r # rs) (c # cs) =
     (case r of
        Inl e \<Rightarrow>
          if e = EINTR then send_all strerror rs (c # cs)
          else (rs, [], Some (socketError strerror ''writing Tor control command'' e))
      | Inr n \<Rightarrow>
          if n = 0 then (rs, [], Some ''Tor control connection closed while writing'')
          else let (rs, out, error) = send_all strerror rs (drop n (c # cs))
               in (rs, take n (c # cs) @ out, error))"

definition valid_command :: "string \<Rightarrow> bool" where
  "valid_command command \<longleftrightarrow> command \<noteq> [] \<and> length command \<le> MAX_LINE_BYTES
     \<and> carriage_return \<notin> set command \<and> newline \<notin> set command"

definition writeCommand :: "TorSystem \<Rightarrow> string \<Rightarrow> Onion \<Rightarrow> Onion \<times> string option" where
  "writeCommand sys command s =
     (if \<not> valid_command command then (s, Some ''refusing invalid Tor control command'')
      else let (rs, out, error) = send_all (sys_strerror sys) (on_sends s) (command @ crlf)
           in (s\<lparr>on_sends := rs, on_sent := on_sent s @ out\<rparr>, error))"

text \<open>The receives left, the buffer, and the line or the error.\<close>

fun readLine :: "(errno \<Rightarrow> string) \<Rightarrow> (errno + string) list \<Rightarrow> string \<Rightarrow>
    (errno + string) list \<times> string \<times> (string + string)" where
  "readLine strerror [] buffer =
     (case str_find buffer crlf 0 of
        Some lineEnd \<Rightarrow> ([], drop (lineEnd + 2) buffer, Inr (take lineEnd buffer))
      | None \<Rightarrow>
          if length buffer \<ge> MAX_LINE_BYTES then ([], buffer, Inl ''Tor control reply line exceeds limit'')
          else ([], buffer, Inl (socketError strerror ''reading Tor control reply'' EAGAIN)))"
| "readLine strerror (r # rs) buffer =
     (case str_find buffer crlf 0 of
        Some lineEnd \<Rightarrow> (r # rs, drop (lineEnd + 2) buffer, Inr (take lineEnd buffer))
      | None \<Rightarrow>
          if length buffer \<ge> MAX_LINE_BYTES then (r # rs, buffer, Inl ''Tor control reply line exceeds limit'')
          else (case r of
            Inl e \<Rightarrow>
              if e = EINTR then readLine strerror rs buffer
              else (rs, buffer, Inl (socketError strerror ''reading Tor control reply'' e))
          | Inr chunk \<Rightarrow>
              if chunk = [] then (rs, buffer, Inl ''Tor control connection closed while reading'')
              else readLine strerror rs (buffer @ chunk)))"

text \<open>What is still to be read, in the buffer or to come.\<close>

definition unread :: "(errno + string) list \<Rightarrow> string \<Rightarrow> string" where
  "unread rs buffer = buffer @ concat (map (case_sum (\<lambda>_. []) id) rs)"

lemma crlf_split: "str_find buffer crlf 0 = Some p \<Longrightarrow> buffer = take p buffer @ crlf @ drop (p + 2) buffer"
proof -
  assume "str_find buffer crlf 0 = Some p"
  then have "prefix crlf (drop p buffer)" by (simp add: str_find_Some)
  then obtain zs where zs: "drop p buffer = crlf @ zs" by (rule prefixE)
  then have "drop 2 (drop p buffer) = zs" by (simp add: crlf_def)
  with zs show ?thesis by (metis add.commute append_take_drop_id drop_drop)
qed

lemma readLine_unread:
  assumes "readLine strerror rs buffer = (rs', buffer', Inr line)"
  shows "unread rs buffer = line @ crlf @ unread rs' buffer'"
  using assms
proof (induction strerror rs buffer rule: readLine.induct)
  case (1 strerror buffer)
  then obtain p where p: "str_find buffer crlf 0 = Some p" "line = take p buffer" "buffer' = drop (p + 2) buffer" "rs' = []"
    by (auto split: option.splits if_splits)
  then show ?case using crlf_split [OF p(1)] by (simp add: unread_def)
next
  case (2 strerror r rs buffer)
  show ?case
  proof (cases "str_find buffer crlf 0")
    case (Some p)
    with 2(3) have p: "line = take p buffer" "buffer' = drop (p + 2) buffer" "rs' = r # rs" by auto
    have "unread (r # rs) buffer = (take p buffer @ crlf @ drop (p + 2) buffer) @ concat (map (case_sum (\<lambda>_. []) id) (r # rs))"
      unfolding unread_def by (subst crlf_split [OF Some]) simp
    with p show ?thesis by (simp add: unread_def)
  next
    case None
    show ?thesis
    proof (cases r)
      case (Inl e)
      with None 2 show ?thesis by (simp add: unread_def split: if_splits)
    next
      case (Inr chunk)
      with None 2 show ?thesis by (simp add: unread_def split: if_splits)
    qed
  qed
qed

lemma readLine_shorter:
  "readLine strerror rs buffer = (rs', buffer', Inr line) \<Longrightarrow>
     length (unread rs' buffer') < length (unread rs buffer)"
  by (drule readLine_unread) (simp add: crlf_def)

definition reply_status :: "string \<Rightarrow> int" where
  "reply_status line = (int (byte (line ! 0)) - 48) * 100 + (int (byte (line ! 1)) - 48) * 10
     + (int (byte (line ! 2)) - 48)"

text \<open>The loop of \<^verbatim>\<open>readReply\<close>: the reply so far and the bytes its lines had.\<close>

function readReply_loop :: "(errno \<Rightarrow> string) \<Rightarrow> (errno + string) list \<Rightarrow> string \<Rightarrow> Reply \<Rightarrow> nat \<Rightarrow>
    (errno + string) list \<times> string \<times> (string + Reply)" where
  "readReply_loop strerror rs buffer reply seen =
     (case readLine strerror rs buffer of
        (rs, buffer, Inl error) \<Rightarrow> (rs, buffer, Inl error)
      | (rs, buffer, Inr line) \<Rightarrow>
          if seen + length line > MAX_REPLY_BYTES \<or> length line < 4 \<or> \<not> is_digit (line ! 0)
             \<or> \<not> is_digit (line ! 1) \<or> \<not> is_digit (line ! 2)
          then (rs, buffer, Inl ''malformed Tor control reply'')
          else
            let status = reply_status line;
                reply = (if r_status reply = 0 then reply\<lparr>r_status := status\<rparr> else reply)
            in if status \<noteq> r_status reply \<or> line ! 3 \<noteq> CHR ''-'' \<and> line ! 3 \<noteq> CHR '' ''
               then (rs, buffer, Inl ''unsupported Tor control reply framing'')
               else
                 let reply = reply\<lparr>r_lines := r_lines reply @ [drop 4 line]\<rparr>
                 in if line ! 3 = CHR '' '' then (rs, buffer, Inr reply)
                    else readReply_loop strerror rs buffer reply (seen + length line))"
  by pat_completeness auto
termination
proof (relation "measure (\<lambda>(_, rs, buffer, _, _). length (unread rs buffer))", goal_cases)
  case (2 strerror rs buffer reply seen x y xa ya b)
  from 2(1-3) have "readLine strerror rs buffer = (x, xa, Inr b)" by (simp only:)
  then show ?case unfolding in_measure prod.case by (rule readLine_shorter)
qed (rule wf_measure)

declare readReply_loop.simps [simp del]

definition readReply :: "TorSystem \<Rightarrow> Onion \<Rightarrow> Onion \<times> (string + Reply)" where
  "readReply sys s =
     (let (rs, buffer, result) =
        readReply_loop (sys_strerror sys) (on_recvs s) (on_readBuffer s) Reply_new 0
      in (s\<lparr>on_recvs := rs, on_readBuffer := buffer\<rparr>, result))"

definition command_name :: "string \<Rightarrow> string" where
  "command_name command = (case str_find command '' '' 0 of None \<Rightarrow> command | Some p \<Rightarrow> take p command)"

definition sendCommand :: "TorSystem \<Rightarrow> string \<Rightarrow> Onion \<Rightarrow> Onion \<times> (string + Reply)" where
  "sendCommand sys command s =
     (case writeCommand sys command s of
        (s, Some error) \<Rightarrow> (s, Inl error)
      | (s, None) \<Rightarrow>
          (case readReply sys s of
             (s, Inl error) \<Rightarrow> (s, Inl error)
           | (s, Inr reply) \<Rightarrow>
               if r_status reply \<noteq> 250
               then (s, Inl (''Tor rejected '' @ command_name command @ '' with status ''
                      @ decimal (nat (r_status reply))
                      @ (if r_lines reply \<noteq> [] then '': '' @ last (r_lines reply) else [])))
               else (s, Inr reply)))"

section \<open>Authentication\<close>

definition auth_line :: "Reply \<Rightarrow> string" where
  "auth_line reply = (case find (\<lambda>line. take 5 line = ''AUTH '') (r_lines reply) of
     None \<Rightarrow> [] | Some line \<Rightarrow> line)"

definition auth_methods :: "string \<Rightarrow> string option" where
  "auth_methods authLine =
     (case str_find authLine ''METHODS='' 0 of
        None \<Rightarrow> None | Some methodsStart \<Rightarrow> Some (until_space authLine (methodsStart + 8)))"

text \<open>The message both sides hash, from the reply to \<^verbatim>\<open>AUTHCHALLENGE\<close>; the server's hash is checked first.\<close>

definition challenge_message :: "TorSystem \<Rightarrow> string \<Rightarrow> string \<Rightarrow> Reply \<Rightarrow> string + string" where
  "challenge_message sys cookie clientNonce challenge =
     (if r_lines challenge = [] then Inl ''Tor SAFECOOKIE challenge reply is empty''
      else
        (case (hexDecode (fieldValue (hd (r_lines challenge)) ''SERVERHASH=''),
               hexDecode (fieldValue (hd (r_lines challenge)) ''SERVERNONCE='')) of
           (Some serverHash, Some serverNonce) \<Rightarrow>
             if length serverHash \<noteq> 32 \<or> length serverNonce \<noteq> NONCE_BYTES
             then Inl ''Tor SAFECOOKIE challenge reply is malformed''
             else
               let msg = cookie @ clientNonce @ serverNonce;
                   expected = sys_hmac sys SERVER_HASH_KEY msg
               in if length expected \<noteq> length serverHash \<or> expected \<noteq> serverHash
                  then Inl ''Tor SAFECOOKIE server authentication failed'' else Inr msg
         | _ \<Rightarrow> Inl ''Tor SAFECOOKIE challenge reply is malformed''))"

definition authenticate_cookie :: "TorSystem \<Rightarrow> string \<Rightarrow> Onion \<Rightarrow> Onion \<times> string option" where
  "authenticate_cookie sys authLine s =
     (case quotedValue authLine ''COOKIEFILE='' of
        None \<Rightarrow> (s, Some ''Tor SAFECOOKIE did not provide a valid cookie path'')
      | Some cookiePath \<Rightarrow>
          (case readCookie (sys_cookies sys) cookiePath of
             None \<Rightarrow> (s, Some ''Tor SAFECOOKIE file is unreadable or not 32 bytes'')
           | Some cookie \<Rightarrow>
               (case sys_random sys of
                  None \<Rightarrow> (s, Some ''failed to generate Tor SAFECOOKIE nonce'')
                | Some clientNonce \<Rightarrow>
                    (case sendCommand sys (''AUTHCHALLENGE SAFECOOKIE '' @ hexEncode clientNonce) s of
                       (s, Inl error) \<Rightarrow> (s, Some error)
                     | (s, Inr challenge) \<Rightarrow>
                         (case challenge_message sys cookie clientNonce challenge of
                            Inl error \<Rightarrow> (s, Some error)
                          | Inr msg \<Rightarrow>
                              (case sendCommand sys (''AUTHENTICATE '' @ hexEncode (sys_hmac sys CLIENT_HASH_KEY msg)) s of
                                 (s, Inl error) \<Rightarrow> (s, Some error)
                               | (s, Inr reply) \<Rightarrow> (s, None)))))))"

definition authenticate :: "TorSystem \<Rightarrow> Onion \<Rightarrow> Onion \<times> string option" where
  "authenticate sys s =
     (case sendCommand sys ''PROTOCOLINFO 1'' s of
        (s, Inl error) \<Rightarrow> (s, Some error)
      | (s, Inr protocolInfo) \<Rightarrow>
          let authLine = auth_line protocolInfo
          in (case auth_methods authLine of
                None \<Rightarrow> (s, Some ''Tor PROTOCOLINFO omitted authentication methods'')
              | Some methods \<Rightarrow>
                  if containsMethod methods ''SAFECOOKIE'' then authenticate_cookie sys authLine s
                  else if containsMethod methods ''NULL'' \<and> take 5 (on_controlEndpoint s) = ''unix:''
                  then (case sendCommand sys ''AUTHENTICATE'' s of
                          (s, Inl error) \<Rightarrow> (s, Some error) | (s, Inr reply) \<Rightarrow> (s, None))
                  else (s, Some (''Tor control endpoint offers neither SAFECOOKIE nor ''
                              @ ''permission-protected Unix NULL authentication''))))"

section \<open>Adding and removing the service\<close>

definition add_command :: "Options \<Rightarrow> string \<Rightarrow> string" where
  "add_command options key = ''ADD_ONION '' @ key @ '' Port='' @ decimal (op_virtualPort options) @ '',''
     @ op_targetHost options @ '':'' @ decimal (op_targetPort options)"

definition Onion_add :: "TorSystem \<Rightarrow> Options \<Rightarrow> Onion \<Rightarrow> Onion \<times> string option" where
  "Onion_add sys options s =
     (let (keyResult, privateKey) = loadPrivateKey (sys_open sys (op_keyPath options))
      in if keyResult = INVALID_KEY
         then (s, Some (''Tor onion key is invalid or unreadable: '' @ op_keyPath options))
         else
           let generating = (keyResult = MISSING);
               key = (if generating then ''NEW:ED25519-V3'' else privateKey)
           in (case sendCommand sys (add_command options key) s of
                 (s, Inl error) \<Rightarrow> (s, Some error)
               | (s, Inr added) \<Rightarrow>
                   let serviceId = replyValue added ''ServiceID='';
                       finished = s\<lparr>on_serviceId := serviceId, on_hostname := serviceId @ ''.onion''\<rparr>
                   in if \<not> validServiceId serviceId
                      then (s, Some ''Tor returned an invalid v3 onion service ID'')
                      else if \<not> generating then (finished, None)
                      else
                        let returnedKey = replyValue added ''PrivateKey=''
                        in if \<not> validPrivateKey returnedKey
                           then (s, Some ''Tor did not return a valid persistent ED25519-V3 key'')
                           else (case savePrivateKey (sys_save sys) (op_keyPath options) returnedKey of
                             None \<Rightarrow>
                               (fst (sendCommand sys (''DEL_ONION '' @ serviceId) s),
                                Some (''failed to persist Tor onion key at '' @ op_keyPath options))
                           | Some content \<Rightarrow> (finished\<lparr>on_keyFile := Some content\<rparr>, None))))"

definition closeConnection :: "Onion \<Rightarrow> Onion" where
  "closeConnection s = s\<lparr>on_descriptor := - 1, on_readBuffer := [], on_controlEndpoint := []\<rparr>"

definition Onion_stop :: "TorSystem \<Rightarrow> Onion \<Rightarrow> Onion" where
  "Onion_stop sys s =
     (let s = (if on_descriptor s \<ge> 0 \<and> on_serviceId s \<noteq> []
               then fst (writeCommand sys ''QUIT''
                      (fst (sendCommand sys (''DEL_ONION '' @ on_serviceId s) s)))
               else s)
      in (closeConnection s)\<lparr>on_serviceId := [], on_hostname := []\<rparr>)"

definition Onion_start :: "TorSystem \<Rightarrow> Options \<Rightarrow> Onion \<Rightarrow> Onion \<times> string option" where
  "Onion_start sys options s =
     (case connectControl sys options (Onion_stop sys s) of
        (s, Some error) \<Rightarrow> (closeConnection s, Some error)
      | (s, None) \<Rightarrow>
          (case authenticate sys s of
             (s, Some error) \<Rightarrow> (closeConnection s, Some error)
           | (s, None) \<Rightarrow>
               (case Onion_add sys options s of
                  (s, Some error) \<Rightarrow> (closeConnection s, Some error)
                | (s, None) \<Rightarrow> (s, None))))"

end
