(* ===== verification/TorProps.thy ===== *)
theory TorProps
  imports TorControl "HOL-Library.Code_Target_Nat"
begin

text \<open>
  What the onion service promises: hexadecimal is lossless, a reply is read the same however the
  bytes arrive, nothing but whole commands is ever sent, the key file reads back, and the outcome
  of a start.
\<close>

section \<open>Hexadecimal\<close>

lemma hex_nibble_digit: "n < 16 \<Longrightarrow> hex_nibble (hex_digit n) = Some n"
proof -
  have "\<forall>n < 16. hex_nibble (hex_digit n) = Some n" by code_simp
  then show "n < 16 \<Longrightarrow> hex_nibble (hex_digit n) = Some n" by blast
qed

lemma hexDecode_loop_encode: "hexDecode_loop (hexEncode s) = Some s"
proof (induction s)
  case (Cons c s)
  have "byte c div 16 < 16" using byte_less [of c] by linarith
  moreover have "byte c mod 16 < 16" by simp
  moreover have "char_of (byte c div 16 * 16 + byte c mod 16) = c" by (simp only: div_mult_mod_eq char_of_byte)
  ultimately show ?case using Cons by (simp add: hex_nibble_digit)
qed simp

lemma length_hexEncode [simp]: "length (hexEncode s) = 2 * length s"
  by (induction s) simp_all

interpretation hex: codec hexEncode hexDecode "\<lambda>s. s \<noteq> []"
  by unfold_locales (auto simp: hexDecode_def hexDecode_loop_encode length_greater_0_conv [symmetric] simp del: length_greater_0_conv)

section \<open>Reading replies\<close>

text \<open>Deliveries that lose nothing: data or an interruption.\<close>

definition delivers :: "(errno + string) list \<Rightarrow> bool" where
  "delivers rs \<longleftrightarrow> (\<forall>r \<in> set rs. case r of Inl e \<Rightarrow> e = EINTR | Inr chunk \<Rightarrow> chunk \<noteq> [])"

text \<open>A line without a carriage return ends at the first CRLF.\<close>

lemma find_crlf: "carriage_return \<notin> set line \<Longrightarrow> find_sub crlf (line @ crlf @ rest) = Some (length line)"
  by (induction line) (auto simp: crlf_def)

lemma find_crlf_prefix:
  "carriage_return \<notin> set line \<Longrightarrow> prefix buffer (line @ crlf @ rest) \<Longrightarrow>
     str_find buffer crlf 0 = (if length line + 2 \<le> length buffer then Some (length line) else None)"
proof -
  assume cr: "carriage_return \<notin> set line" and p: "prefix buffer (line @ crlf @ rest)"
  show ?thesis
  proof (cases "length line + 2 \<le> length buffer")
    case True
    from p obtain zs where zs: "line @ crlf @ rest = buffer @ zs" by (rule prefixE)
    have "take (length line + 2) (line @ crlf @ rest) = line @ crlf" by (simp add: crlf_def)
    then have "take (length line + 2) buffer = line @ crlf" using True by (simp add: zs)
    then have "buffer = line @ crlf @ drop (length line + 2) buffer"
      by (metis append_assoc append_take_drop_id)
    with find_crlf [OF cr] have "find_sub crlf buffer = Some (length line)" by metis
    with True show ?thesis by (simp add: str_find_def)
  next
    case False
    have "find_sub crlf buffer = None"
      unfolding find_sub_None
    proof (intro allI impI notI)
      fix q assume "q \<le> length buffer" "prefix crlf (drop q buffer)"
      then have q: "q + 2 \<le> length buffer" "buffer ! q = carriage_return"
        by (auto simp: crlf_def prefix_def dest: arg_cong [where f = length])
           (metis nth_via_drop)
      from p obtain zs where "line @ crlf @ rest = buffer @ zs" by (rule prefixE)
      then have "(line @ crlf @ rest) ! q = buffer ! q" using q(1) by (simp add: nth_append)
      moreover have "q < length line" using q(1) False by simp
      ultimately have "line ! q = carriage_return" using q(2) by (simp add: nth_append)
      with cr \<open>q < length line\<close> show False by (metis nth_mem)
    qed
    with False show ?thesis by (simp add: str_find_def)
  qed
qed

lemma readLine_delivers:
  assumes "delivers rs" "carriage_return \<notin> set line" "length line + 2 \<le> MAX_LINE_BYTES"
    and "unread rs buffer = line @ crlf @ rest"
  shows "\<exists>rs' buffer'. readLine strerror rs buffer = (rs', buffer', Inr line) \<and> delivers rs'
    \<and> unread rs' buffer' = rest"
  using assms
proof (induction rs arbitrary: buffer)
  case Nil
  then have b: "buffer = line @ crlf @ rest" by (simp add: unread_def)
  have "str_find buffer crlf 0 = Some (length line)"
    using find_crlf_prefix [OF Nil.prems(2), of buffer rest] by (simp add: b crlf_def)
  then show ?case by (simp add: b delivers_def unread_def crlf_def)
next
  case (Cons r rs)
  have p: "prefix buffer (line @ crlf @ rest)" using Cons.prems(4) by (metis prefixI unread_def)
  note find = find_crlf_prefix [OF Cons.prems(2) p]
  show ?case
  proof (cases "length line + 2 \<le> length buffer")
    case True
    from p obtain zs where zs: "line @ crlf @ rest = buffer @ zs" by (rule prefixE)
    have "take (length line) buffer = line" "drop (length line + 2) buffer @ zs = rest"
      using arg_cong [OF zs, of "take (length line)"] arg_cong [OF zs, of "drop (length line + 2)"] True
      by (simp_all add: crlf_def)
    moreover have "zs = concat (map (case_sum (\<lambda>_. []) id) (r # rs))"
      using Cons.prems(4) by (simp add: unread_def zs)
    ultimately show ?thesis using True find Cons.prems(1) by (simp add: unread_def)
  next
    case False
    then have none: "str_find buffer crlf 0 = None" and short: "length buffer < MAX_LINE_BYTES"
      using find Cons.prems(3) by simp_all
    have d: "delivers rs" using Cons.prems(1) by (simp add: delivers_def)
    show ?thesis
    proof (cases r)
      case (Inl e)
      then have "e = EINTR" using Cons.prems(1) by (simp add: delivers_def)
      with Inl none short Cons.IH [OF d Cons.prems(2,3)] Cons.prems(4) show ?thesis
        by (simp add: unread_def)
    next
      case (Inr chunk)
      then have "chunk \<noteq> []" using Cons.prems(1) by (simp add: delivers_def)
      with Inr none short Cons.IH [OF d Cons.prems(2,3), of "buffer @ chunk"] Cons.prems(4) show ?thesis
        by (simp add: unread_def)
    qed
  qed
qed

text \<open>The text of a reply with three status digits.\<close>

fun reply_text :: "string \<Rightarrow> string list \<Rightarrow> string" where
  "reply_text code [] = []"
| "reply_text code [l] = code @ '' '' @ l @ crlf"
| "reply_text code (l # ls) = code @ ''-'' @ l @ crlf @ reply_text code ls"

definition status_code :: "string \<Rightarrow> bool" where
  "status_code code \<longleftrightarrow> length code = 3 \<and> list_all is_digit code \<and> code \<noteq> ''000''"

lemma status_code_split:
  assumes "status_code code"
  obtains a b c where "code = [a, b, c]" "is_digit a" "is_digit b" "is_digit c" "reply_status (code @ x) \<noteq> 0"
    "reply_status (code @ x) = reply_status (code @ y)"
proof -
  obtain a b c where abc: "code = [a, b, c]"
    using assms by (auto simp: status_code_def numeral_3_eq_3 length_Suc_conv)
  have d: "is_digit a" "is_digit b" "is_digit c" using assms by (simp_all add: status_code_def abc)
  have "reply_status (code @ x) \<noteq> 0"
  proof
    assume z: "reply_status (code @ x) = 0"
    have "byte CHR ''0'' = 48" by (simp add: byte_def)
    then have "byte a \<ge> 48" "byte b \<ge> 48" "byte c \<ge> 48" using d by (simp_all add: is_digit_def)
    with z have "byte a = 48" "byte b = 48" "byte c = 48" by (auto simp: reply_status_def abc)
    with \<open>byte CHR ''0'' = 48\<close> have "a = CHR ''0''" "b = CHR ''0''" "c = CHR ''0''" by (metis byte_inject)+
    with assms show False by (simp add: status_code_def abc)
  qed
  moreover have "reply_status (code @ x) = reply_status (code @ y)" by (simp add: reply_status_def abc)
  ultimately show thesis using abc d that by blast
qed

lemma status_code_no_cr: "status_code code \<Longrightarrow> carriage_return \<notin> set code"
  by (auto simp: status_code_def list_all_iff is_digit_def carriage_return_def byte_def)

text \<open>One round of the loop, on a line of the reply.\<close>

lemma readReply_loop_line:
  assumes "status_code code" "readLine strerror rs buffer = (rs', buffer', Inr (code @ sep # l))"
    and "seen + length l + 4 \<le> MAX_REPLY_BYTES" "r_status reply \<in> {0, reply_status code}"
    and "sep = CHR ''-'' \<or> sep = CHR '' ''"
  defines "reply' \<equiv> reply\<lparr>r_status := reply_status code, r_lines := r_lines reply @ [l]\<rparr>"
  shows "readReply_loop strerror rs buffer reply seen =
    (if sep = CHR '' '' then (rs', buffer', Inr reply')
     else readReply_loop strerror rs' buffer' reply' (seen + length l + 4))"
proof -
  obtain a b c where abc: "code = [a, b, c]" "is_digit a" "is_digit b" "is_digit c"
    and nz: "reply_status (code @ []) \<noteq> 0" "reply_status (code @ sep # l) = reply_status (code @ [])"
    using status_code_split [OF assms(1), of "sep # l" "[]"] by metis
  define line where "line = code @ sep # l"
  have at: "line ! 0 = a" "line ! Suc 0 = b" "line ! 2 = c" "line ! 3 = sep" "drop 4 line = l" "length line = length l + 4"
    by (simp_all add: line_def abc(1))
  have st: "reply_status line = reply_status code" "reply_status code \<noteq> 0" using nz by (simp_all add: line_def)
  have read: "readLine strerror rs buffer = (rs', buffer', Inr line)" using assms(2) by (simp add: line_def)
  have upd: "reply\<lparr>r_lines := xs\<rparr> = reply\<lparr>r_status := reply_status code, r_lines := xs\<rparr>"
    if "r_status reply = reply_status code" for xs using that by (cases reply) simp
  show ?thesis
  proof (cases "r_status reply = 0")
    case True
    then show ?thesis using assms(3,5) abc(2-4) st
      by (subst readReply_loop.simps) (auto simp: read at reply'_def ac_simps)
  next
    case False
    with assms(4) have "r_status reply = reply_status code" by simp
    with False show ?thesis using assms(3,5) abc(2-4) st
      by (subst readReply_loop.simps) (auto simp: read at reply'_def upd ac_simps)
  qed
qed

definition line_fits :: "string \<Rightarrow> bool" where
  "line_fits l \<longleftrightarrow> carriage_return \<notin> set l \<and> length l + 6 \<le> MAX_LINE_BYTES"

lemma readReply_loop_text:
  assumes "status_code code"
  shows "\<lbrakk>ls \<noteq> []; list_all line_fits ls; delivers rs; unread rs buffer = reply_text code ls @ rest;
      seen + sum_list (map (\<lambda>l. length l + 4) ls) \<le> MAX_REPLY_BYTES; r_status reply \<in> {0, reply_status code}\<rbrakk>
    \<Longrightarrow> \<exists>rs' buffer'. readReply_loop strerror rs buffer reply seen =
          (rs', buffer', Inr (reply\<lparr>r_status := reply_status code, r_lines := r_lines reply @ ls\<rparr>))
        \<and> delivers rs' \<and> unread rs' buffer' = rest"
proof (induction ls arbitrary: rs buffer reply seen)
  case (Cons l ls)
  define sep where "sep = (if ls = [] then CHR '' '' else CHR ''-'')"
  define after where "after = (if ls = [] then rest else reply_text code ls @ rest)"
  have "unread rs buffer = (code @ sep # l) @ crlf @ after"
    using Cons.prems(4) by (cases ls) (simp_all add: sep_def after_def)
  moreover have "carriage_return \<notin> set (code @ sep # l)" "length (code @ sep # l) + 2 \<le> MAX_LINE_BYTES"
    using Cons.prems(2) assms status_code_no_cr [OF assms]
    by (auto simp: line_fits_def sep_def carriage_return_def status_code_def)
  ultimately obtain rs' buffer' where l: "readLine strerror rs buffer = (rs', buffer', Inr (code @ sep # l))"
      "delivers rs'" "unread rs' buffer' = after"
    using readLine_delivers [OF Cons.prems(3)] by blast
  note line = readReply_loop_line [OF assms l(1), of seen reply]
  show ?case
  proof (cases "ls = []")
    case True
    with line l Cons.prems(5,6) show ?thesis by (simp add: sep_def after_def)
  next
    case False
    let ?reply = "reply\<lparr>r_status := reply_status code, r_lines := r_lines reply @ [l]\<rparr>"
    have "readReply_loop strerror rs buffer reply seen = readReply_loop strerror rs' buffer' ?reply (seen + length l + 4)"
      using line False Cons.prems(5,6) by (simp add: sep_def)
    moreover have "unread rs' buffer' = reply_text code ls @ rest" using l(3) False by (simp add: after_def)
    ultimately show ?thesis
      using Cons.IH [of rs' buffer' "seen + length l + 4" ?reply] False Cons.prems(2,5) l(2)
      by (simp add: ac_simps)
  qed
qed simp

section \<open>Commands on the wire\<close>

definition framed :: "string list \<Rightarrow> string" where
  "framed cs = concat (map (\<lambda>c. c @ crlf) cs)"

text \<open>What one connection is sent: whole commands, and behind them, unless \<open>whole\<close>, the beginning of
  one more.\<close>

definition command_stream :: "bool \<Rightarrow> string \<Rightarrow> bool" where
  "command_stream whole sent \<longleftrightarrow>
     (\<exists>cs c part. list_all valid_command cs \<and> sent = framed cs @ part
        \<and> (if whole then part = [] else valid_command c \<and> prefix part (c @ crlf)))"

definition wrote :: "bool \<Rightarrow> Onion \<Rightarrow> Onion \<Rightarrow> bool" where
  "wrote whole s s' \<longleftrightarrow> (\<exists>t. on_sent s' = on_sent s @ t \<and> command_stream whole t)"

lemma framed_append [simp]: "framed (cs @ ds) = framed cs @ framed ds"
  and framed_single [simp]: "framed [c] = c @ crlf"
  and framed_Nil [simp]: "framed [] = []"
  by (simp_all add: framed_def)

lemma valid_QUIT: "valid_command ''QUIT''" by code_simp

lemma command_stream_frames: "list_all valid_command cs \<Longrightarrow> command_stream whole (framed cs)"
  unfolding command_stream_def
  by (intro exI [of _ cs] exI [of _ "''QUIT''"] exI [of _ "[]"]) (simp add: valid_QUIT)

lemma command_stream_part:
  "list_all valid_command cs \<Longrightarrow> valid_command c \<Longrightarrow> prefix part (c @ crlf) \<Longrightarrow>
     command_stream False (framed cs @ part)"
  unfolding command_stream_def by (intro exI [of _ cs] exI [of _ c] exI [of _ part]) simp

lemma command_streamE:
  assumes "command_stream whole t"
  obtains cs c part where "list_all valid_command cs" "t = framed cs @ part"
    "if whole then part = [] else valid_command c \<and> prefix part (c @ crlf)"
  using assms unfolding command_stream_def by blast

lemma command_stream_Nil: "command_stream whole []"
  using command_stream_frames [of "[]"] by simp

lemma command_stream_whole: "command_stream True t \<Longrightarrow> command_stream whole t"
  by (erule command_streamE) (simp add: command_stream_frames)

lemma command_stream_append:
  assumes "command_stream True t" and "command_stream whole u"
  shows "command_stream whole (t @ u)"
proof -
  obtain cs where t: "list_all valid_command cs" "t = framed cs" using assms(1) by (rule command_streamE) simp
  obtain ds d part where u: "list_all valid_command ds" "u = framed ds @ part"
      "if whole then part = [] else valid_command d \<and> prefix part (d @ crlf)"
    using assms(2) by (rule command_streamE)
  have "list_all valid_command (cs @ ds)" "t @ u = framed (cs @ ds) @ part" using t u(1,2) by simp_all
  with u(3) show ?thesis
    using command_stream_frames [of "cs @ ds"] command_stream_part [of "cs @ ds" d part] by (cases whole) simp_all
qed

lemma wrote_same: "on_sent s' = on_sent s \<Longrightarrow> wrote whole s s'"
  by (simp add: wrote_def command_stream_Nil)

lemma wrote_whole: "wrote True s s' \<Longrightarrow> wrote whole s s'"
  by (auto simp: wrote_def intro: command_stream_whole)

lemma wrote_trans: "wrote True s s' \<Longrightarrow> wrote whole s' s'' \<Longrightarrow> wrote whole s s''"
  by (auto simp: wrote_def intro: command_stream_append)

lemma wrote_cong: "on_sent s' = on_sent s'' \<Longrightarrow> wrote whole s s' = wrote whole s s''"
  by (simp add: wrote_def)

lemma send_all_out:
  "send_all strerror rs cs = (rs', out, error) \<Longrightarrow> prefix out cs \<and> (error = None \<longrightarrow> out = cs)"
proof (induction strerror rs cs arbitrary: rs' out error rule: send_all.induct)
  case (3 strerror r rs c cs)
  then show ?case
    by (cases r) (auto simp: prefix_def split: if_splits prod.splits, (metis append_assoc append_take_drop_id)+)
qed auto

lemma writeCommand_wrote:
  "writeCommand sys c s = (s', error) \<Longrightarrow>
     wrote (error = None) s s' \<and> (error = None \<longrightarrow> on_sent s' = on_sent s @ c @ crlf)
   \<and> (\<exists>t. on_sent s' = on_sent s @ t \<and> prefix t (c @ crlf)) \<and> s' = s\<lparr>on_sends := on_sends s', on_sent := on_sent s'\<rparr>"
proof (cases "valid_command c")
  case True
  assume w: "writeCommand sys c s = (s', error)"
  obtain rs out e where "send_all (sys_strerror sys) (on_sends s) (c @ crlf) = (rs, out, e)"
    by (metis prod.exhaust)
  moreover from send_all_out [OF this] have out: "prefix out (c @ crlf)" "e = None \<Longrightarrow> out = c @ crlf" by simp_all
  have "command_stream (e = None) out"
    using command_stream_part [OF _ True out(1), of "[]"] command_stream_frames [of "[c]"] True out(2)
    by (cases e) simp_all
  ultimately show ?thesis using w True out by (auto simp: writeCommand_def wrote_def)
qed (auto simp: writeCommand_def wrote_def command_stream_Nil)

lemma readReply_wrote: "readReply sys s = (s', r) \<Longrightarrow> s' = s\<lparr>on_recvs := on_recvs s', on_readBuffer := on_readBuffer s'\<rparr>"
  by (auto simp: readReply_def split: prod.splits)

text \<open>A command with its reply changes nothing but the connection.\<close>

lemma sendCommand_frame:
  assumes "sendCommand sys c s = (s', r)"
  shows "s' = s\<lparr>on_sends := on_sends s', on_sent := on_sent s', on_recvs := on_recvs s', on_readBuffer := on_readBuffer s'\<rparr>"
    and "wrote (\<not> isl r) s s'"
    and "\<exists>t. on_sent s' = on_sent s @ t \<and> prefix t (c @ crlf)"
    and "\<not> isl r \<Longrightarrow> on_sent s' = on_sent s @ c @ crlf"
proof -
  obtain s1 e where w: "writeCommand sys c s = (s1, e)" by (metis prod.exhaust)
  note w1 = writeCommand_wrote [OF w]
  have all: "s' = s\<lparr>on_sends := on_sends s', on_sent := on_sent s', on_recvs := on_recvs s', on_readBuffer := on_readBuffer s'\<rparr>
    \<and> wrote (\<not> isl r) s s' \<and> (\<exists>t. on_sent s' = on_sent s @ t \<and> prefix t (c @ crlf))
    \<and> (\<not> isl r \<longrightarrow> on_sent s' = on_sent s @ c @ crlf)"
  proof (cases e)
    case (Some error)
    then have r: "s' = s1" "r = Inl error" using assms w by (simp_all add: sendCommand_def)
    show ?thesis using w1 Some unfolding r by (cases s; cases s1) simp
  next
    case None
    obtain s2 r2 where rd: "readReply sys s1 = (s2, r2)" by (metis prod.exhaust)
    then have s2: "s' = s2" and r: "isl r \<or> \<not> isl r2"
      using assms w None by (auto simp: sendCommand_def split: sum.splits if_splits)
    have rd1: "s2 = s1\<lparr>on_recvs := on_recvs s2, on_readBuffer := on_readBuffer s2\<rparr>" using readReply_wrote [OF rd] .
    then have sent: "on_sent s2 = on_sent s1" by (cases s1; cases s2) simp
    have "wrote True s s2" using w1 None wrote_cong [OF sent] by simp
    moreover have "s2 = s\<lparr>on_sends := on_sends s2, on_sent := on_sent s2, on_recvs := on_recvs s2, on_readBuffer := on_readBuffer s2\<rparr>"
      using w1 rd1 by (cases s; cases s1; cases s2) simp
    ultimately show ?thesis using w1 None sent unfolding s2 by (auto intro: wrote_whole)
  qed
  then show "s' = s\<lparr>on_sends := on_sends s', on_sent := on_sent s', on_recvs := on_recvs s', on_readBuffer := on_readBuffer s'\<rparr>"
    and "wrote (\<not> isl r) s s'" and "\<exists>t. on_sent s' = on_sent s @ t \<and> prefix t (c @ crlf)"
    and "\<not> isl r \<Longrightarrow> on_sent s' = on_sent s @ c @ crlf" by blast+
qed

lemma sendCommand_wrote:
  "sendCommand sys c s = (s', Inl e) \<Longrightarrow> wrote False s s'"
  "sendCommand sys c s = (s', Inr reply) \<Longrightarrow> wrote True s s'"
  using sendCommand_frame(2) [of sys c s s' "Inl e"] sendCommand_frame(2) [of sys c s s' "Inr reply"] by simp_all

definition conn_only :: "Onion \<Rightarrow> Onion \<Rightarrow> bool" where
  "conn_only s s' \<longleftrightarrow> s' = s\<lparr>on_sends := on_sends s', on_sent := on_sent s', on_recvs := on_recvs s', on_readBuffer := on_readBuffer s'\<rparr>"

lemma conn_only_refl: "conn_only s s"
  by (simp add: conn_only_def)

lemma conn_only_trans: "conn_only s s' \<Longrightarrow> conn_only s' s'' \<Longrightarrow> conn_only s s''"
  unfolding conn_only_def by (cases s; cases s'; cases s'') simp

lemma conn_only_fields:
  "conn_only s s' \<Longrightarrow> on_descriptor s' = on_descriptor s \<and> on_serviceId s' = on_serviceId s
     \<and> on_hostname s' = on_hostname s \<and> on_controlEndpoint s' = on_controlEndpoint s \<and> on_keyFile s' = on_keyFile s"
  unfolding conn_only_def by (cases s; cases s') simp

lemma sendCommand_conn: "sendCommand sys c s = (s', r) \<Longrightarrow> conn_only s s'"
  unfolding conn_only_def by (rule sendCommand_frame(1))

lemma sendCommand_effects:
  "sendCommand sys c s = (s', Inl e) \<Longrightarrow> wrote False s s' \<and> conn_only s s'"
  "sendCommand sys c s = (s', Inr reply) \<Longrightarrow> wrote True s s' \<and> conn_only s s'"
  by (simp_all add: sendCommand_wrote sendCommand_conn)

lemma authenticate_cookie_effects:
  assumes "authenticate_cookie sys line s = (s', e)"
  shows "wrote (e = None) s s' \<and> conn_only s s'"
  using assms unfolding authenticate_cookie_def
  by (auto simp: wrote_same conn_only_refl split: option.splits prod.splits sum.splits dest!: sendCommand_effects)
     (blast intro: wrote_trans wrote_whole conn_only_trans)+

lemma authenticate_effects:
  assumes "authenticate sys s = (s', e)"
  shows "wrote (e = None) s s' \<and> conn_only s s'"
  using assms unfolding authenticate_def Let_def
  by (auto split: option.splits prod.splits sum.splits if_splits dest!: authenticate_cookie_effects sendCommand_effects)
     (blast intro: wrote_trans wrote_whole conn_only_trans)+

section \<open>The key file\<close>

lemma savePrivateKey_content:
  "savePrivateKey calls path k = Some content \<Longrightarrow> validPrivateKey k \<and> content = k @ [newline]"
  by (auto simp: savePrivateKey_def dest: writeAll_out split: if_splits prod.splits)

lemma validPrivateKey_last: "validPrivateKey k \<Longrightarrow> k \<noteq> [] \<and> last k = CHR ''=''"
proof -
  assume v: "validPrivateKey k"
  then have "k = take (length k - 2) k @ ''==''" by (metis append_take_drop_id validPrivateKey_def)
  then have "last k = last (take (length k - 2) k @ ''=='')" by simp
  with v show ?thesis by (auto simp: validPrivateKey_def)
qed

lemma strip_newlines_key: "validPrivateKey k \<Longrightarrow> strip_newlines (k @ [newline]) = k"
  using validPrivateKey_last [of k]
  by (cases k rule: rev_cases) (simp_all add: strip_newlines_def newline_def carriage_return_def)

lemma read_bytes_delivers:
  "delivers rs \<Longrightarrow> unread rs [] = xs @ ys \<Longrightarrow> read_bytes (length xs) rs = Some xs"
proof (induction rs arbitrary: xs)
  case Nil
  then show ?case by (simp add: unread_def)
next
  case (Cons r rs)
  then have d: "delivers rs" by (simp add: delivers_def)
  show ?case
  proof (cases r)
    case (Inl e)
    with Cons d show ?thesis by (simp add: delivers_def unread_def)
  next
    case (Inr chunk)
    then have c: "chunk \<noteq> []" and u: "chunk @ unread rs [] = xs @ ys"
      using Cons.prems by (simp_all add: delivers_def unread_def)
    show ?thesis
    proof (cases "length chunk \<le> length xs")
      case True
      from u have "xs = chunk @ drop (length chunk) xs \<and> unread rs [] = drop (length chunk) xs @ ys"
        using True by (simp add: append_eq_append_conv_if) (metis append_take_drop_id)
      then obtain zs where zs: "xs = chunk @ zs" "unread rs [] = zs @ ys" by blast
      with Cons.IH [OF d zs(2)] Inr c show ?thesis by simp
    next
      case False
      then have "take (length xs) chunk = xs" using u by (metis append_eq_append_conv_if nle_le)
      moreover have "read_bytes 0 rs = Some []" by (cases rs) simp_all
      ultimately show ?thesis using False Inr c by simp
    qed
  qed
qed

section \<open>Starting\<close>

text \<open>What adding the service leaves behind.\<close>

definition added :: "Onion \<Rightarrow> Onion \<Rightarrow> bool" where
  "added s s' \<longleftrightarrow> validServiceId (on_serviceId s') \<and> on_hostname s' = on_serviceId s' @ ''.onion''
     \<and> on_descriptor s' = on_descriptor s \<and> on_controlEndpoint s' = on_controlEndpoint s
     \<and> (on_keyFile s' = on_keyFile s \<or> (\<exists>k. validPrivateKey k \<and> on_keyFile s' = Some (k @ [newline])))"

lemma wrote_onion_update:
  "wrote w s (s'\<lparr>on_serviceId := a, on_hostname := b\<rparr>) = wrote w s s'"
  "wrote w s (s'\<lparr>on_serviceId := a, on_hostname := b, on_keyFile := k\<rparr>) = wrote w s s'"
  by (simp_all add: wrote_def)

lemma Onion_add_effects:
  assumes "Onion_add sys options s = (s', e)"
  shows "wrote (e = None) s s' \<and> (if e = None then added s s' else conn_only s s')"
proof -
  obtain result key where load: "loadPrivateKey (sys_open sys (op_keyPath options)) = (result, key)"
    by (metis prod.exhaust)
  show ?thesis
  proof (cases "result = INVALID_KEY")
    case True
    with assms load show ?thesis by (auto simp: Onion_add_def wrote_same conn_only_refl)
  next
    case ok: False
    define command where "command = add_command options (if result = MISSING then ''NEW:ED25519-V3'' else key)"
    obtain s1 r where sent: "sendCommand sys command s = (s1, r)" by (metis prod.exhaust)
    show ?thesis
    proof (cases r)
      case (Inl error)
      with assms load ok sent sendCommand_effects(1) [of sys command s s1 error] show ?thesis
        by (auto simp: Onion_add_def command_def)
    next
      case (Inr reply)
      then have w: "wrote True s s1" and c: "conn_only s s1"
        using sent sendCommand_effects(2) [of sys command s s1 reply] by simp_all
      define sid where "sid = replyValue reply ''ServiceID=''"
      define k where "k = replyValue reply ''PrivateKey=''"
      obtain s2 r2 where del: "sendCommand sys (''DEL_ONION '' @ sid) s1 = (s2, r2)" by (metis prod.exhaust)
      have w2: "wrote False s s2" and c2: "conn_only s s2"
        using wrote_trans [OF w] conn_only_trans [OF c] sendCommand_frame(2) [OF del] sendCommand_conn [OF del] wrote_whole
        by (metis (full_types))+
      let ?fin = "s1\<lparr>on_serviceId := sid, on_hostname := sid @ ''.onion''\<rparr>"
      have eq: "Onion_add sys options s =
        (if \<not> validServiceId sid then (s1, Some ''Tor returned an invalid v3 onion service ID'')
         else if result \<noteq> MISSING then (?fin, None)
         else if \<not> validPrivateKey k then (s1, Some ''Tor did not return a valid persistent ED25519-V3 key'')
         else (case savePrivateKey (sys_save sys) (op_keyPath options) k of
             None \<Rightarrow> (s2, Some (''failed to persist Tor onion key at '' @ op_keyPath options))
           | Some content \<Rightarrow> (?fin\<lparr>on_keyFile := Some content\<rparr>, None)))"
        using load ok sent Inr del by (simp add: Onion_add_def command_def Let_def sid_def k_def split: option.split)
      show ?thesis
        using assms unfolding eq
        by (cases "validServiceId sid"; cases "result = MISSING"; cases "validPrivateKey k";
            cases "savePrivateKey (sys_save sys) (op_keyPath options) k")
           (use w w2 c c2 conn_only_fields [OF c] in
             \<open>auto simp: wrote_onion_update added_def wrote_whole dest: savePrivateKey_content\<close>)
    qed
  qed
qed

text \<open>\<^verbatim>\<open>socket(2)\<close> returns a descriptor that is not negative.\<close>

definition good_sockets :: "TorSystem \<Rightarrow> Options \<Rightarrow> bool" where
  "good_sockets sys options \<longleftrightarrow>
     (case cc_socket (sys_unix sys) of Inl e \<Rightarrow> True | Inr d \<Rightarrow> d \<ge> 0)
   \<and> (case sys_lookup sys (op_controlHost options) (decimal (op_controlPort options)) of
        Inl text \<Rightarrow> True
      | Inr addresses \<Rightarrow> list_all (\<lambda>calls. case cc_socket calls of Inl e \<Rightarrow> True | Inr d \<Rightarrow> d \<ge> 0) addresses)"

lemma connectTcp_loop_descriptor:
  "connectTcp_loop strerror timeout addresses error = Inr d \<Longrightarrow>
     list_all (\<lambda>calls. case cc_socket calls of Inl e \<Rightarrow> True | Inr d \<Rightarrow> d \<ge> 0) addresses \<Longrightarrow> d \<ge> 0"
  by (induction strerror timeout addresses error rule: connectTcp_loop.induct)
     (auto split: sum.splits option.splits)

lemma connectControl_effects:
  assumes "connectControl sys options s = (s', e)"
  shows "s' = s\<lparr>on_descriptor := on_descriptor s', on_controlEndpoint := on_controlEndpoint s'\<rparr>
    \<and> (e = None \<longrightarrow> good_sockets sys options \<longrightarrow> on_descriptor s' \<ge> 0)"
  using assms
  by (auto simp: connectControl_def connectUnix_def connectTcp_def good_sockets_def Let_def
      split: if_splits sum.splits option.splits dest!: connectTcp_loop_descriptor)

lemma closeConnection_fields [simp]:
  "on_sent (closeConnection s) = on_sent s" "on_descriptor (closeConnection s) = - 1"
  "on_serviceId (closeConnection s) = on_serviceId s" "on_hostname (closeConnection s) = on_hostname s"
  "on_keyFile (closeConnection s) = on_keyFile s" "on_readBuffer (closeConnection s) = []"
  "on_controlEndpoint (closeConnection s) = []"
  by (simp_all add: closeConnection_def)

definition stopped :: "Onion \<Rightarrow> bool" where
  "stopped s \<longleftrightarrow> on_descriptor s = - 1 \<and> on_serviceId s = [] \<and> on_hostname s = [] \<and> on_readBuffer s = []
     \<and> on_controlEndpoint s = []"

lemma Onion_stop_stopped: "stopped (Onion_stop sys s)"
  by (simp add: stopped_def Onion_stop_def Let_def)

lemma Onion_stop_idle: "on_descriptor s < 0 \<Longrightarrow> on_sent (Onion_stop sys s) = on_sent s \<and> on_keyFile (Onion_stop sys s) = on_keyFile s"
  by (simp add: Onion_stop_def Let_def)

text \<open>A start fails and closes the connection, or all of its three stages succeed.\<close>

lemma connectControl_wrote:
  assumes "connectControl sys options s = (s', e)"
  shows "wrote whole s s' \<and> on_serviceId s' = on_serviceId s \<and> on_hostname s' = on_hostname s \<and> on_keyFile s' = on_keyFile s"
  using conjunct1 [OF connectControl_effects [OF assms]] by (cases s; cases s') (simp add: wrote_same)

lemma Onion_start_cases:
  assumes "Onion_start sys options s = (s', e)"
  obtains (failed) s2 error where "s' = closeConnection s2" "e = Some error" "wrote False (Onion_stop sys s) s2"
        "on_serviceId s2 = []" "on_hostname s2 = []" "on_keyFile s2 = on_keyFile (Onion_stop sys s)"
  | (started) s1 where "connectControl sys options (Onion_stop sys s) = (s1, None)" "wrote True (Onion_stop sys s) s'"
        "added s1 s'" "e = None" "on_keyFile s1 = on_keyFile (Onion_stop sys s)"
proof -
  let ?s = "Onion_stop sys s"
  have s0: "on_serviceId ?s = []" "on_hostname ?s = []" using Onion_stop_stopped [of sys s] by (simp_all add: stopped_def)
  obtain s1 e1 where c: "connectControl sys options ?s = (s1, e1)" by (metis prod.exhaust)
  note c1 = connectControl_wrote [OF c] s0
  show thesis
  proof (cases e1)
    case (Some error)
    then have "s' = closeConnection s1" "e = Some error" using assms c by (simp_all add: Onion_start_def)
    with c1 show ?thesis by (intro failed [of s1 error]) simp_all
  next
    case None
    obtain s2 e2 where a: "authenticate sys s1 = (s2, e2)" by (metis prod.exhaust)
    note a1 = authenticate_effects [OF a] conn_only_fields [of s1 s2]
    show ?thesis
    proof (cases e2)
      case (Some error)
      then have "s' = closeConnection s2" "e = Some error" using assms c None a by (simp_all add: Onion_start_def)
      with c1 a1 Some show ?thesis by (intro failed [of s2 error]) (auto intro: wrote_trans)
    next
      case none2: None
      obtain s3 e3 where o: "Onion_add sys options s2 = (s3, e3)" by (metis prod.exhaust)
      note o1 = Onion_add_effects [OF o] conn_only_fields [of s2 s3]
      have w: "wrote True ?s s2" using c1 a1 none2 wrote_trans by (metis (full_types))
      show ?thesis
      proof (cases e3)
        case (Some error)
        then have "s' = closeConnection s3" "e = Some error" using assms c None a none2 o by (simp_all add: Onion_start_def)
        with c1 a1 o1 Some none2 w show ?thesis by (intro failed [of s3 error]) (auto intro: wrote_trans)
      next
        case none3: None
        then have "s' = s3" "e = None" using assms c None a none2 o by (simp_all add: Onion_start_def)
        with c c1 a1 o1 none2 none3 None w show ?thesis
          by (intro started [of s1]) (auto intro: wrote_trans simp: added_def)
      qed
    qed
  qed
qed

section \<open>Cookie authentication\<close>

lemma challenge_message_Inr:
  "challenge_message sys cookie nonce reply = Inr msg \<Longrightarrow>
     \<exists>serverNonce. msg = cookie @ nonce @ serverNonce \<and> length serverNonce = NONCE_BYTES
       \<and> hexDecode (fieldValue (hd (r_lines reply)) ''SERVERHASH='') = Some (sys_hmac sys SERVER_HASH_KEY msg)"
  by (auto simp: challenge_message_def Let_def split: if_splits option.splits)

definition challenge_command :: "string \<Rightarrow> string" where
  "challenge_command nonce = ''AUTHCHALLENGE SAFECOOKIE '' @ hexEncode nonce"

definition proof_command :: "TorSystem \<Rightarrow> string \<Rightarrow> string" where
  "proof_command sys msg = ''AUTHENTICATE '' @ hexEncode (sys_hmac sys CLIENT_HASH_KEY msg)"

section \<open>A concrete run\<close>

text \<open>A control port that offers \<^verbatim>\<open>SAFECOOKIE\<close>, reached over its Unix socket, and no key file yet. The
  deliveries cut the replies at odd places.\<close>

definition demo_calls :: ConnectCalls where
  "demo_calls = \<lparr>cc_socket = Inr 7, cc_getfl = None, cc_setfl = None, cc_connects = [Some EINTR, Some EINPROGRESS],
     cc_polls = (\<lambda>_. [Inl EINTR, Inr 1]), cc_getsockopt = Inr 0, cc_restore = None, cc_rcvtimeo = None, cc_sndtimeo = None\<rparr>"

definition demo_key :: string where "demo_key = key_prefix @ replicate 86 CHR ''k'' @ ''==''"
definition demo_cookie :: string where "demo_cookie = replicate 32 CHR ''c''"

definition demo_hmac :: "string \<Rightarrow> string \<Rightarrow> string" where
  "demo_hmac key msg = take 32 (drop 40 key @ drop 60 msg @ replicate 32 CHR ''h'')"

definition demo_tor :: TorSystem where
  "demo_tor = \<lparr>sys_strerror = (\<lambda>_. ''error''), sys_unix = demo_calls, sys_lookup = (\<lambda>_ _. Inr []),
     sys_cookies = (\<lambda>path. if path = ''/c'' then Some demo_cookie else None), sys_random = Some (replicate 32 CHR ''n''),
     sys_hmac = demo_hmac, sys_open = (\<lambda>_. Inl ENOENT),
     sys_save = \<lparr>sv_mkdir = True, sv_mkstemp = True, sv_fchmod = True, sv_writes = [Inr 10, Inl EINTR, Inr 200],
       sv_fsync = True, sv_close = True, sv_rename = True\<rparr>\<rparr>"

definition demo_info :: string where
  "demo_info = reply_text ''250'' [''PROTOCOLINFO 1'', ''AUTH METHODS=NULL,SAFECOOKIE COOKIEFILE='' @ [dquote] @ ''/c'' @ [dquote], ''OK'']"

definition demo_challenge :: string where
  "demo_challenge = reply_text ''250'' [''AUTHCHALLENGE SERVERHASH=''
     @ hexEncode (demo_hmac SERVER_HASH_KEY (demo_cookie @ replicate 32 CHR ''n'' @ replicate 32 CHR ''s''))
     @ '' SERVERNONCE='' @ hexEncode (replicate 32 CHR ''s'')]"

definition demo_replies :: string where
  "demo_replies = demo_info @ demo_challenge @ reply_text ''250'' [''OK'']
     @ reply_text ''250'' [''ServiceID='' @ replicate 56 CHR ''a'', ''PrivateKey='' @ demo_key, ''OK'']"

definition demo_onion :: Onion where
  "demo_onion = Onion_new (Inr 3 # Inl EINTR # replicate 9 (Inr 5000))
     [Inr (take 7 demo_replies), Inl EINTR, Inr (take 100 (drop 7 demo_replies)), Inr (drop 107 demo_replies)]"

section \<open>Properties\<close>



text \<open>C25: Whatever the configuration, the key file and the server's replies contain, the bytes a start sends on
  a fresh connection are whole commands, each one non-empty line of at most 8192 bytes with its CRLF, and
  behind them at most the beginning of one more such command, which only a failed start leaves: nothing is
  injected into the control connection.\<close>

theorem start_sends_commands:
  assumes "on_descriptor s < 0" and "Onion_start sys options s = (s', e)"
  shows "\<exists>t. on_sent s' = on_sent s @ t \<and> command_stream (e = None) t"
  using assms(2)
proof (cases rule: Onion_start_cases)
  case (failed s2 error)
  then show ?thesis using Onion_stop_idle [OF assms(1), of sys] by (simp add: wrote_def)
next
  case (started s1)
  then show ?thesis using Onion_stop_idle [OF assms(1), of sys] by (simp add: wrote_def)
qed

lemma start_sends_commands_witness:
  "\<exists>t. on_sent (fst (Onion_start demo_tor Options_default demo_onion)) = on_sent demo_onion @ t
     \<and> command_stream (snd (Onion_start demo_tor Options_default demo_onion) = None) t"
proof -
  have "on_descriptor demo_onion < 0" by (simp add: demo_onion_def Onion_new_def)
  from start_sends_commands [OF this prod.collapse [symmetric]] show ?thesis .
qed

text \<open>C26: A reply is read the same however the bytes of the connection are cut into deliveries and however often
  the calls are interrupted: its status and lines are returned, in order, and exactly what follows the
  reply stays unread, for every reply whose lines and total are within the limits.\<close>

theorem reply_chunking:
  assumes "status_code code" and "ls \<noteq> []" and "list_all line_fits ls"
    and "sum_list (map (\<lambda>l. length l + 4) ls) \<le> MAX_REPLY_BYTES" and "delivers (on_recvs s)"
    and "unread (on_recvs s) (on_readBuffer s) = reply_text code ls @ rest"
  shows "\<exists>s'. readReply sys s = (s', Inr \<lparr>r_status = reply_status code, r_lines = ls\<rparr>)
    \<and> unread (on_recvs s') (on_readBuffer s') = rest \<and> on_sent s' = on_sent s"
proof -
  obtain rs' buffer' where r: "readReply_loop (sys_strerror sys) (on_recvs s) (on_readBuffer s) Reply_new 0 =
      (rs', buffer', Inr (Reply_new\<lparr>r_status := reply_status code, r_lines := r_lines Reply_new @ ls\<rparr>))"
      "unread rs' buffer' = rest"
    using readReply_loop_text [OF assms(1-3,5,6), of 0 Reply_new "sys_strerror sys"] assms(4)
    by (auto simp: Reply_new_def)
  then show ?thesis by (simp add: readReply_def Reply_new_def)
qed

lemma reply_chunking_witness:
  "\<exists>s'. readReply demo_tor demo_onion = (s', Inr \<lparr>r_status = 250, r_lines = [''PROTOCOLINFO 1'',
       ''AUTH METHODS=NULL,SAFECOOKIE COOKIEFILE='' @ [dquote] @ ''/c'' @ [dquote], ''OK'']\<rparr>)"
proof -
  let ?ls = "[''PROTOCOLINFO 1'', ''AUTH METHODS=NULL,SAFECOOKIE COOKIEFILE='' @ [dquote] @ ''/c'' @ [dquote], ''OK'']"
  have "status_code ''250''" "?ls \<noteq> []" "list_all line_fits ?ls"
    "sum_list (map (\<lambda>l. length l + 4) ?ls) \<le> MAX_REPLY_BYTES" "delivers (on_recvs demo_onion)"
    "unread (on_recvs demo_onion) (on_readBuffer demo_onion) = reply_text ''250'' ?ls @ drop (length demo_info) demo_replies"
    by code_simp+
  from reply_chunking [OF this, of demo_tor] show ?thesis by (auto simp: reply_status_def byte_def)
qed

text \<open>A key that was stored is loaded again: whatever way the reads cut the file, a file that is regular, private
  to its owner and holds what \<open>savePrivateKey\<close> wrote yields \<open>VALID\<close> and the key.\<close>

theorem key_file_roundtrip:
  assumes "savePrivateKey calls path key = Some content" and "mode AND 63 = 0"
    and "delivers rs" and "unread rs [] = content"
  shows "loadPrivateKey (Inr \<lparr>kf_stat = Some (True, mode, int (length content)), kf_reads = rs\<rparr>) = (VALID, key)"
proof -
  have k: "validPrivateKey key" "content = key @ [newline]" using savePrivateKey_content [OF assms(1)] by simp_all
  then have "length content = 100" by (simp add: validPrivateKey_def key_prefix_def)
  moreover have "read_bytes (length content) rs = Some content"
    using read_bytes_delivers [OF assms(3), of content "[]"] assms(4) by simp
  ultimately show ?thesis using assms(2) k by (simp add: loadPrivateKey_def strip_newlines_key)
qed

lemma key_file_roundtrip_witness:
  "loadPrivateKey (Inr \<lparr>kf_stat = Some (True, 384, 100), kf_reads = [Inr (take 9 (demo_key @ [newline])),
     Inl EINTR, Inr (drop 9 (demo_key @ [newline]))]\<rparr>) = (VALID, demo_key)"
proof -
  have "savePrivateKey (sys_save demo_tor) ''/k'' demo_key = Some (demo_key @ [newline])" by code_simp
  moreover have "(384 :: 32 word) AND 63 = 0" by simp
  moreover have "delivers [Inr (take 9 (demo_key @ [newline])), Inl EINTR, Inr (drop 9 (demo_key @ [newline]))]"
    "unread [Inr (take 9 (demo_key @ [newline])), Inl EINTR, Inr (drop 9 (demo_key @ [newline]))] [] = demo_key @ [newline]"
    by code_simp+
  ultimately show ?thesis using key_file_roundtrip by (fastforce simp: demo_key_def key_prefix_def)
qed

text \<open>C24: Cookie authentication never sends the proof of the cookie to a server that has not proved its own
  knowledge first: either nothing is sent, or at most the challenge, or the challenge was answered with
  the hash of cookie and both nonces under the server's key, and only then the client's hash of the same
  message follows. Success sends both commands whole.\<close>

theorem client_proof_after_server_proof:
  assumes "authenticate_cookie sys authLine s = (s', e)"
  shows "\<exists>t. on_sent s' = on_sent s @ t \<and> (e \<noteq> None \<and> t = []
    \<or> (\<exists>path cookie nonce. quotedValue authLine ''COOKIEFILE='' = Some path \<and> sys_cookies sys path = Some cookie
        \<and> length cookie = 32 \<and> sys_random sys = Some nonce
        \<and> (e \<noteq> None \<and> prefix t (challenge_command nonce @ crlf)
         \<or> (\<exists>s1 reply serverNonce u. sendCommand sys (challenge_command nonce) s = (s1, Inr reply)
             \<and> hexDecode (fieldValue (hd (r_lines reply)) ''SERVERHASH='')
                = Some (sys_hmac sys SERVER_HASH_KEY (cookie @ nonce @ serverNonce))
             \<and> length serverNonce = 32 \<and> t = challenge_command nonce @ crlf @ u
             \<and> prefix u (proof_command sys (cookie @ nonce @ serverNonce) @ crlf)
             \<and> (e = None \<longrightarrow> u = proof_command sys (cookie @ nonce @ serverNonce) @ crlf)))))"
proof (cases "\<exists>path cookie nonce. quotedValue authLine ''COOKIEFILE='' = Some path
    \<and> readCookie (sys_cookies sys) path = Some cookie \<and> sys_random sys = Some nonce")
  case False
  with assms have "e \<noteq> None \<and> s' = s"
    by (auto simp: authenticate_cookie_def split: option.splits)
  then show ?thesis by (intro exI [of _ "[]"]) simp
next
  case True
  then obtain path cookie nonce where p: "quotedValue authLine ''COOKIEFILE='' = Some path"
      "readCookie (sys_cookies sys) path = Some cookie" "sys_random sys = Some nonce" by blast
  have q: "sys_cookies sys path = Some cookie" "length cookie = 32"
    using p(2) by (auto simp: readCookie_def COOKIE_BYTES_def split: option.splits if_splits)
  obtain s1 r where c: "sendCommand sys (challenge_command nonce) s = (s1, r)" by (metis prod.exhaust)
  obtain t where t: "on_sent s1 = on_sent s @ t" "prefix t (challenge_command nonce @ crlf)"
    using sendCommand_frame(3) [OF c] by blast
  note start = assms [unfolded authenticate_cookie_def, folded challenge_command_def proof_command_def]
  show ?thesis
  proof (cases "\<exists>reply msg. r = Inr reply \<and> challenge_message sys cookie nonce reply = Inr msg")
    case False
    then have "s' = s1 \<and> e \<noteq> None" using start p c by (auto split: sum.splits)
    with t p q show ?thesis by blast
  next
    case True
    then obtain reply msg where r: "r = Inr reply" "challenge_message sys cookie nonce reply = Inr msg" by blast
    obtain serverNonce where n: "msg = cookie @ nonce @ serverNonce" "length serverNonce = 32"
      "hexDecode (fieldValue (hd (r_lines reply)) ''SERVERHASH='') = Some (sys_hmac sys SERVER_HASH_KEY msg)"
      using challenge_message_Inr [OF r(2)] by (auto simp: NONCE_BYTES_def)
    obtain s2 r2 where a: "sendCommand sys (proof_command sys msg) s1 = (s2, r2)" by (metis prod.exhaust)
    have s': "s' = s2" "e = None \<longrightarrow> \<not> isl r2" using start p c r a by (auto split: sum.splits)
    obtain u where u: "on_sent s2 = on_sent s1 @ u" "prefix u (proof_command sys msg @ crlf)"
        "\<not> isl r2 \<Longrightarrow> u = proof_command sys msg @ crlf"
      using sendCommand_frame(3,4) [OF a] by (metis same_append_eq)
    have "on_sent s1 = on_sent s @ challenge_command nonce @ crlf" using sendCommand_frame(4) [OF c] r by simp
    with u have "on_sent s' = on_sent s @ challenge_command nonce @ crlf @ u" by (simp add: s')
    with u p q c r n s' show ?thesis by blast
  qed
qed

lemma client_proof_after_server_proof_witness:
  "\<exists>s1 reply serverNonce. sendCommand demo_tor (challenge_command (replicate 32 CHR ''n''))
       (demo_onion\<lparr>on_recvs := [Inr (demo_challenge @ reply_text ''250'' [''OK''])]\<rparr>) = (s1, Inr reply)
     \<and> hexDecode (fieldValue (hd (r_lines reply)) ''SERVERHASH='')
        = Some (demo_hmac SERVER_HASH_KEY (demo_cookie @ replicate 32 CHR ''n'' @ serverNonce))"
proof -
  let ?s = "demo_onion\<lparr>on_recvs := [Inr (demo_challenge @ reply_text ''250'' [''OK''])]\<rparr>"
  let ?line = "''COOKIEFILE='' @ [dquote] @ ''/c'' @ [dquote]"
  have ok: "snd (authenticate_cookie demo_tor ?line ?s) = None" by code_simp
  from client_proof_after_server_proof [OF prod.collapse [symmetric], of demo_tor ?line ?s]
  show ?thesis unfolding ok by (auto simp: demo_tor_def split: if_splits)
qed

end
