(* ===== verification/Boundaries.thy ===== *)
theory Boundaries
  imports Prelude
begin

text \<open>
  \<^verbatim>\<open>server/src/utils/ServerBoundaries.hpp\<close>: the limits on client-controlled values, the
  validators and escapers built on them, literal replacement in page templates, and the
  \<open>ChunkRequest\<close> state machine that pairs file-chunk requests with their responses.
\<close>

section \<open>Limits\<close>

named_theorems limits

definition Limits_roomId :: nat where [limits]: "Limits_roomId = 64"
definition Limits_message :: nat where [limits]: "Limits_message = 8 * 1024"
definition Limits_filename :: nat where [limits]: "Limits_filename = 255"
definition Limits_filesPerMessage :: nat where [limits]: "Limits_filesPerMessage = 16"
definition Limits_fileBytes :: nat where [limits]: "Limits_fileBytes = 100 * 1024 * 1024"
definition Limits_mediaType :: nat where [limits]: "Limits_mediaType = 32"
definition Limits_chunkBytes :: nat where [limits]: "Limits_chunkBytes = 64 * 1024"
definition Limits_rooms :: nat where [limits]: "Limits_rooms = 256"
definition Limits_peersPerRoom :: nat where [limits]: "Limits_peersPerRoom = 64"
definition Limits_filesPerPeer :: nat where [limits]: "Limits_filesPerPeer = 32"
definition Limits_subscribersPerFile :: nat where [limits]: "Limits_subscribersPerFile = 32"

section \<open>ChunkRequest\<close>

datatype ChunkResult = ACCEPTED | DUPLICATE | INVALID

record ChunkRequest =
  cr_position :: int
  cr_size :: int
  cr_requestId :: u64
  cr_completedId :: u64
  cr_completedPosition :: int
  cr_completedSize :: int
  cr_outstanding :: bool

definition ChunkRequest_new :: ChunkRequest where
  "ChunkRequest_new = \<lparr>cr_position = 0, cr_size = 0, cr_requestId = 0, cr_completedId = 0,
     cr_completedPosition = 0, cr_completedSize = 0, cr_outstanding = False\<rparr>"

definition ChunkRequest_begin :: "int \<Rightarrow> int \<Rightarrow> ChunkRequest \<Rightarrow> ChunkRequest \<times> u64" where
  "ChunkRequest_begin position sz r =
     (if cr_outstanding r then (r, cr_requestId r)
      else
        let next = cr_requestId r + 1;
            next = (if next = 0 then next + 1 else next)
        in (r\<lparr>cr_position := position, cr_size := sz, cr_requestId := next,
              cr_outstanding := True\<rparr>, next))"

definition ChunkRequest_accept ::
  "u64 \<Rightarrow> int \<Rightarrow> int \<Rightarrow> nat \<Rightarrow> ChunkRequest \<Rightarrow> ChunkRequest \<times> ChunkResult" where
  "ChunkRequest_accept requestId position sz receivedSize r =
     (if sz < 0 \<or> unat (u64_of_i64 sz) \<noteq> receivedSize then (r, INVALID)
      else if requestId = cr_completedId r \<and> position = cr_completedPosition r
              \<and> sz = cr_completedSize r then (r, DUPLICATE)
      else if \<not> cr_outstanding r then (r, INVALID)
      else if requestId \<noteq> cr_requestId r \<or> position \<noteq> cr_position r \<or> sz \<noteq> cr_size r
        then (r, INVALID)
      else (r\<lparr>cr_outstanding := False, cr_completedId := requestId,
              cr_completedPosition := position, cr_completedSize := sz\<rparr>, ACCEPTED))"

definition ChunkRequest_cancel :: "ChunkRequest \<Rightarrow> ChunkRequest" where
  "ChunkRequest_cancel r = r\<lparr>cr_outstanding := False\<rparr>"

section \<open>Capacity checks\<close>

definition hasCapacity :: "nat \<Rightarrow> nat \<Rightarrow> bool" where
  "hasCapacity current maximum \<longleftrightarrow> maximum \<noteq> 0 \<and> current < maximum"

definition hasCapacityFor :: "nat \<Rightarrow> nat \<Rightarrow> nat \<Rightarrow> bool" where
  "hasCapacityFor current additional maximum \<longleftrightarrow>
     maximum \<noteq> 0 \<and> current \<le> maximum \<and> additional \<le> maximum - current"

lemma hasCapacityFor_iff:
  "hasCapacityFor current additional maximum \<longleftrightarrow> 0 < maximum \<and> current + additional \<le> maximum"
  by (auto simp: hasCapacityFor_def)

section \<open>Validators\<close>

fun containsControl :: "string \<Rightarrow> bool" where
  "containsControl [] = False"
| "containsControl (c # cs) =
     (if byte c < 0x20 \<or> byte c = 0x7f then True else containsControl cs)"

definition room_id_char :: "char \<Rightarrow> bool" where
  "room_id_char c \<longleftrightarrow> is_lower c \<or> is_upper c \<or> is_digit c \<or> c = CHR ''-'' \<or> c = CHR ''_''"

definition validRoomId :: "string \<Rightarrow> bool" where
  "validRoomId value \<longleftrightarrow>
     \<not> (value = [] \<or> length value > Limits_roomId) \<and> list_all room_id_char value"

definition validMessageContent :: "string \<Rightarrow> bool" where
  "validMessageContent value \<longleftrightarrow> length value \<le> Limits_message \<and> \<not> containsControl value"

definition validFileDescriptor :: "string \<Rightarrow> int \<Rightarrow> nat \<Rightarrow> bool" where
  "validFileDescriptor filename sz maximumSize \<longleftrightarrow>
     filename \<noteq> [] \<and> length filename \<le> Limits_filename \<and> \<not> containsControl filename \<and>
     sz \<ge> 0 \<and> unat (u64_of_i64 sz) \<le> maximumSize"

definition validImageMediaType :: "string \<Rightarrow> bool" where
  "validImageMediaType value \<longleftrightarrow>
     \<not> length value > Limits_mediaType \<and> list_all (\<lambda>c. \<not> byte c > 0x7f) value \<and>
     (value = ''image/jpeg'' \<or> value = ''image/png'' \<or> value = ''image/webp'')"

definition validChunk :: "int \<Rightarrow> int \<Rightarrow> nat \<Rightarrow> int \<Rightarrow> bool" where
  "validChunk position declaredSize receivedSize totalSize \<longleftrightarrow>
     (if position < 0 \<or> declaredSize < 0 \<or> totalSize < 0 \<or> receivedSize > Limits_chunkBytes
         \<or> unat (u64_of_i64 declaredSize) \<noteq> receivedSize then False
      else
        let start = u64_of_i64 position; sz = u64_of_i64 declaredSize; total = u64_of_i64 totalSize
        in start \<le> total \<and> sz \<le> total - start)"

definition host_char :: "char \<Rightarrow> bool" where
  "host_char c \<longleftrightarrow> is_lower c \<or> is_upper c \<or> is_digit c \<or> c = CHR ''.'' \<or> c = CHR ''-''
     \<or> c = CHR '':'' \<or> c = CHR ''['' \<or> c = CHR '']''"

definition validHost :: "string \<Rightarrow> bool" where
  "validHost value \<longleftrightarrow>
     \<not> (value = [] \<or> length value > 255 \<or> containsControl value) \<and> list_all host_char value"

definition validRelativePath :: "string \<Rightarrow> bool" where
  "validRelativePath value \<longleftrightarrow>
     value \<noteq> [] \<and> hd value \<noteq> CHR ''/'' \<and> str_find value ''..'' 0 = None \<and>
     str_find value ''?'' 0 = None \<and> str_find value ''#'' 0 = None \<and> \<not> containsControl value"

definition validRequestPath :: "string \<Rightarrow> bool" where
  "validRequestPath value \<longleftrightarrow>
     value \<noteq> [] \<and> hd value = CHR ''/'' \<and> str_find value ''//'' 0 \<noteq> Some 0 \<and>
     str_find value ''..'' 0 = None \<and> \<not> containsControl value"

definition allowedOrigin :: "string \<Rightarrow> string \<Rightarrow> bool \<Rightarrow> bool" where
  "allowedOrigin origin canonicalOrigin allowLocalDevelopmentOrigin \<longleftrightarrow>
     (if origin = canonicalOrigin then True
      else if \<not> allowLocalDevelopmentOrigin then False
      else origin = ''http://localhost'' \<or> origin = ''http://127.0.0.1''
           \<or> origin = ''http://[::1]'')"

section \<open>Escapers\<close>

definition url_unreserved :: "char \<Rightarrow> bool" where
  "url_unreserved c \<longleftrightarrow> is_lower c \<or> is_upper c \<or> is_digit c
     \<or> c = CHR ''-'' \<or> c = CHR ''_'' \<or> c = CHR ''.''"

definition url_escape_char :: "char \<Rightarrow> string" where
  "url_escape_char c =
     (if url_unreserved c then [c]
      else [CHR ''%'', hex_digit (byte c div 16), hex_digit (byte c mod 16)])"

definition urlPathSegment :: "string \<Rightarrow> string" where
  "urlPathSegment value = concat (map url_escape_char value)"

definition js_escape_char :: "char \<Rightarrow> string" where
  "js_escape_char c =
     (if c = backslash then [backslash, backslash]
      else if c = dquote then [backslash, dquote]
      else if c = newline then [backslash, CHR ''n'']
      else if c = carriage_return then [backslash, CHR ''r'']
      else if c = tabulator then [backslash, CHR ''t'']
      else if c = CHR ''<'' then backslash # ''u003C''
      else if c = CHR ''>'' then backslash # ''u003E''
      else if byte c < 0x20 \<or> byte c = 0x7f
        then backslash # ''u00'' @ [hex_digit (byte c div 16), hex_digit (byte c mod 16)]
      else [c])"

definition javascriptString :: "string \<Rightarrow> string" where
  "javascriptString value = [dquote] @ concat (map js_escape_char value) @ [dquote]"

definition html_escape_char :: "char \<Rightarrow> string" where
  "html_escape_char c =
     (if c = CHR ''&'' then ''&amp;''
      else if c = CHR ''<'' then ''&lt;''
      else if c = CHR ''>'' then ''&gt;''
      else if c = dquote then ''&quot;''
      else if c = squote then ''&#39;''
      else [c])"

definition htmlText :: "string \<Rightarrow> string" where
  "htmlText value = concat (map html_escape_char value)"

definition pageTitle :: "string \<Rightarrow> string" where
  "pageTitle version =
     (let version = (if version \<noteq> [] \<and> hd version = CHR ''v'' then tl version else version)
      in ''Conspire v'' @ htmlText version @ '' by Dyne.org'')"

definition attachment_char :: "char \<Rightarrow> char" where
  "attachment_char c =
     (if byte c < 0x20 \<or> byte c \<ge> 0x7f \<or> c = dquote \<or> c = backslash then CHR ''_'' else c)"

definition attachmentFilename :: "string \<Rightarrow> string" where
  "attachmentFilename filename =
     (let result = map attachment_char filename
      in if result = [] then ''download'' else result)"

section \<open>Literal replacement and bounded retention\<close>

text \<open>The \<^verbatim>\<open>while (true)\<close> loop of \<^verbatim>\<open>replaceLiteral\<close>: the state is the text, the position
  to search from and the \<^verbatim>\<open>replaced\<close> flag. The part of the text after \<open>searchFrom\<close> shrinks by
  the length of the marker in every round.\<close>

function replaceLiteral_loop ::
  "string \<Rightarrow> string \<Rightarrow> string \<Rightarrow> nat \<Rightarrow> bool \<Rightarrow> string \<times> bool" where
  "replaceLiteral_loop marker replacement str searchFrom replaced =
     (if marker = [] then (str, replaced)
      else case str_find str marker searchFrom of
        None \<Rightarrow> (str, replaced)
      | Some position \<Rightarrow>
          replaceLiteral_loop marker replacement
            (take position str @ replacement @ drop (position + length marker) str)
            (position + length replacement) True)"
  by pat_completeness auto
termination
  by (relation "measure (\<lambda>(m, r, s, from, b). length s - from)")
     (auto dest!: str_find_Some simp: neq_Nil_conv)

declare replaceLiteral_loop.simps [simp del]

definition replaceLiteral :: "string \<Rightarrow> string \<Rightarrow> string \<Rightarrow> string \<times> bool" where
  "replaceLiteral str marker replacement =
     (if marker = [] then (str, False)
      else replaceLiteral_loop marker replacement str 0 False)"

fun retainLast :: "'a list \<Rightarrow> nat \<Rightarrow> 'a list" where
  "retainLast values maximum =
     (if length values > maximum then retainLast (tl values) maximum else values)"

declare retainLast.simps [simp del]

definition findById :: "('k, 'v) umap \<Rightarrow> 'k \<Rightarrow> 'v option" where
  "findById values key = um_find values key"


section \<open>Hexadecimal digits and character classes\<close>

definition hex_val :: "char \<Rightarrow> nat option" where
  "hex_val c =
     (if is_digit c then Some (byte c - 48)
      else if 97 \<le> byte c \<and> byte c \<le> 102 then Some (byte c - 97 + 10)
      else if 65 \<le> byte c \<and> byte c \<le> 70 then Some (byte c - 65 + 10)
      else None)"

lemma byte_literals [simp]:
  "byte backslash = 92" "byte dquote = 34" "byte squote = 39" "byte newline = 10"
  "byte carriage_return = 13" "byte tabulator = 9"
  by (simp_all add: byte_def backslash_def dquote_def squote_def newline_def
      carriage_return_def tabulator_def)

lemma char_eq_byte: "c = d \<longleftrightarrow> byte c = byte d"
  by simp

lemmas char_class_defs = is_lower_def is_upper_def is_digit_def byte_def

lemma hex_digit_table:
  "list_all (\<lambda>n. hex_val (hex_digit n) = Some n \<and> url_unreserved (hex_digit n)
     \<and> 48 \<le> byte (hex_digit n) \<and> byte (hex_digit n) \<le> 70 \<and> byte (hex_digit n) \<noteq> 60
     \<and> byte (hex_digit n) \<noteq> 62) [0..<16]"
  by code_simp

lemma hex_digit_facts:
  assumes "n < 16"
  shows "hex_val (hex_digit n) = Some n" and "url_unreserved (hex_digit n)"
    and "48 \<le> byte (hex_digit n)" and "byte (hex_digit n) \<le> 70"
    and "byte (hex_digit n) \<noteq> 60" and "byte (hex_digit n) \<noteq> 62"
  using hex_digit_table assms by (auto simp: list_all_iff)

lemma byte_div_16 [simp]: "byte c div 16 < 16"
  by (rule less_mult_imp_div_less) (use byte_less [of c] in simp)

lemma hex_pair_byte [simp]: "char_of (byte c div 16 * 16 + byte c mod 16) = c"
  by simp

text \<open>Reference reader for percent-encoding.\<close>

definition url_peel :: "string \<Rightarrow> (char \<times> string) option" where
  "url_peel s =
     (case s of
        [] \<Rightarrow> None
      | c # r \<Rightarrow>
          if c \<noteq> CHR ''%'' then Some (c, r)
          else (case r of
            h # l # r' \<Rightarrow>
              (case (hex_val h, hex_val l) of
                (Some x, Some y) \<Rightarrow> Some (char_of (x * 16 + y), r')
              | _ \<Rightarrow> None)
          | _ \<Rightarrow> None))"

interpretation url: escaper url_escape_char url_peel
proof unfold_locales
  show "url_escape_char c \<noteq> []" for c
    by (simp add: url_escape_char_def)
  show "url_peel (url_escape_char c @ rest) = Some (c, rest)" for c rest
  proof (cases "url_unreserved c")
    case True
    then have "c \<noteq> CHR ''%''" by (auto simp: url_unreserved_def char_class_defs)
    with True show ?thesis by (simp add: url_escape_char_def url_peel_def)
  next
    case False
    then show ?thesis
      by (simp add: url_escape_char_def url_peel_def hex_digit_facts)
  qed
qed

text \<open>Reference reader for the characters of a double-quoted JavaScript literal: an unescaped
  quote ends the literal and a raw line terminator is illegal, so both are refused here.\<close>

definition js_peel :: "string \<Rightarrow> (char \<times> string) option" where
  "js_peel s =
     (case s of
        [] \<Rightarrow> None
      | c # r \<Rightarrow>
          if c = dquote \<or> c = newline \<or> c = carriage_return then None
          else if c \<noteq> backslash then Some (c, r)
          else (case r of
            [] \<Rightarrow> None
          | e # r' \<Rightarrow>
              if e = CHR ''n'' then Some (newline, r')
              else if e = CHR ''r'' then Some (carriage_return, r')
              else if e = CHR ''t'' then Some (tabulator, r')
              else if e = CHR ''u'' then
                (case r' of
                  d1 # d2 # h # l # r'' \<Rightarrow>
                    (case (hex_val d1, hex_val d2, hex_val h, hex_val l) of
                      (Some 0, Some 0, Some x, Some y) \<Rightarrow> Some (char_of (x * 16 + y), r'')
                    | _ \<Rightarrow> None)
                | _ \<Rightarrow> None)
              else Some (e, r')))"

lemma hex_val_literals [simp]:
  "hex_val CHR ''0'' = Some 0" "hex_val CHR ''3'' = Some 3"
  "hex_val CHR ''C'' = Some 12" "hex_val CHR ''E'' = Some 14"
  by (simp_all add: hex_val_def char_class_defs)

lemma char_of_literals [simp]: "char_of (60 :: nat) = CHR ''<''" "char_of (62 :: nat) = CHR ''>''"
  by code_simp+

interpretation js: escaper js_escape_char js_peel
proof unfold_locales
  show "js_escape_char c \<noteq> []" for c
    by (simp add: js_escape_char_def)
  show "js_peel (js_escape_char c @ rest) = Some (c, rest)" for c rest
  proof (cases "c \<in> {backslash, dquote, newline, carriage_return, tabulator, CHR ''<'', CHR ''>''}")
    case True
    then show ?thesis
      by (auto simp: js_escape_char_def js_peel_def backslash_def dquote_def newline_def
          carriage_return_def tabulator_def)
  next
    case False
    then show ?thesis
      by (auto simp: js_escape_char_def js_peel_def hex_digit_facts backslash_def dquote_def
          newline_def carriage_return_def)
  qed
qed

text \<open>Reference reader for HTML text with the five predefined entities. A raw
  \<open><\<close>, \<open>>\<close>, quote or apostrophe is markup, so it is refused.\<close>

definition html_entities :: "(string \<times> char) list" where
  "html_entities = [(''&amp;'', CHR ''&''), (''&lt;'', CHR ''<''), (''&gt;'', CHR ''>''),
     (''&quot;'', dquote), (''&#39;'', squote)]"

definition html_peel :: "string \<Rightarrow> (char \<times> string) option" where
  "html_peel s =
     (case s of
        [] \<Rightarrow> None
      | c # r \<Rightarrow>
          if c = CHR ''&'' then
            (case find (\<lambda>e. prefix (fst e) s) html_entities of
              None \<Rightarrow> None
            | Some (name, d) \<Rightarrow> Some (d, drop (length name) s))
          else if c \<in> {CHR ''<'', CHR ''>'', dquote, squote} then None
          else Some (c, r))"

interpretation html: escaper html_escape_char html_peel
proof unfold_locales
  show "html_escape_char c \<noteq> []" for c
    by (simp add: html_escape_char_def)
  show "html_peel (html_escape_char c @ rest) = Some (c, rest)" for c rest
    by (auto simp: html_escape_char_def html_peel_def html_entities_def)
qed


section \<open>Literal replacement against a reference\<close>

text \<open>The specification of \<^verbatim>\<open>replaceLiteral\<close>: one left-to-right pass that replaces every
  non-overlapping occurrence and never rescans inserted text.\<close>

function replace_all :: "string \<Rightarrow> string \<Rightarrow> string \<Rightarrow> string" where
  "replace_all marker replacement str =
     (if marker = [] then str
      else case str of
        [] \<Rightarrow> []
      | c # cs \<Rightarrow>
          (if prefix marker str
           then replacement @ replace_all marker replacement (drop (length marker) str)
           else c # replace_all marker replacement cs))"
  by pat_completeness auto
termination
  by (relation "measure (\<lambda>(m, r, s). length s)") (auto simp: neq_Nil_conv)

declare replace_all.simps [simp del]

lemma replace_all_none:
  assumes "marker \<noteq> []" and "find_sub marker str = None"
  shows "replace_all marker replacement str = str"
  using assms
proof (induction str)
  case (Cons c cs)
  then show ?case
    by (subst replace_all.simps) (auto split: if_splits)
qed (subst replace_all.simps, simp)

lemma replace_all_some:
  assumes "marker \<noteq> []" and "find_sub marker str = Some p"
  shows "replace_all marker replacement str
    = take p str @ replacement @ replace_all marker replacement (drop (p + length marker) str)"
  using assms
proof (induction str arbitrary: p)
  case (Cons c cs)
  show ?case
  proof (cases "prefix marker (c # cs)")
    case True
    with Cons.prems have "p = 0" by simp
    with True Cons.prems show ?thesis by (subst replace_all.simps) simp
  next
    case False
    with Cons.prems obtain q where q: "find_sub marker cs = Some q" and p: "p = Suc q" by auto
    from Cons.IH [OF Cons.prems(1) q] False Cons.prems(1) show ?thesis
      by (subst replace_all.simps) (simp add: p)
  qed
qed simp

lemma replaceLiteral_loop_eq:
  assumes "marker \<noteq> []" and "from \<le> length str"
  shows "replaceLiteral_loop marker replacement str from b
    = (take from str @ replace_all marker replacement (drop from str),
       b \<or> find_sub marker (drop from str) \<noteq> None)"
  using assms
proof (induction marker replacement str "from" b rule: replaceLiteral_loop.induct)
  case (1 marker replacement str "from" replaced)
  show ?case
  proof (cases "find_sub marker (drop from str)")
    case None
    with "1.prems" have "str_find str marker from = None"
      by (simp add: str_find_def)
    with None "1.prems" show ?thesis
      by (subst replaceLiteral_loop.simps) (simp add: replace_all_none)
  next
    case (Some p)
    with "1.prems" have found: "str_find str marker from = Some (from + p)"
      by (simp add: str_find_def)
    from find_sub_Some [OF Some] have "p + length marker \<le> length str - from" by simp
    with "1.prems" have le: "from + p + length marker \<le> length str" by linarith
    let ?new = "take (from + p) str @ replacement @ drop (from + p + length marker) str"
    have cut: "take (from + p + length replacement) ?new = take (from + p) str @ replacement"
      and rest: "drop (from + p + length replacement) ?new = drop (from + p + length marker) str"
      using le by simp_all
    have "from + p + length replacement \<le> length ?new" using le by simp
    from "1.IH" [OF "1.prems"(1) found "1.prems"(1) this]
    have "replaceLiteral_loop marker replacement ?new (from + p + length replacement) True
        = (take (from + p) str @ replacement @
             replace_all marker replacement (drop (from + p + length marker) str), True)"
      unfolding cut rest by simp
    moreover have "replace_all marker replacement (drop from str)
        = take p (drop from str) @ replacement
          @ replace_all marker replacement (drop (from + p + length marker) str)"
      using replace_all_some [OF "1.prems"(1) Some, of replacement] by (simp add: ac_simps)
    moreover have "take (from + p) str = take from str @ take p (drop from str)"
      by (simp add: take_add)
    ultimately show ?thesis
      using found Some "1.prems" by (subst replaceLiteral_loop.simps) simp
  qed
qed

lemma replaceLiteral_eq:
  "marker \<noteq> [] \<Longrightarrow> replaceLiteral str marker replacement
     = (replace_all marker replacement str, find_sub marker str \<noteq> None)"
  by (simp add: replaceLiteral_def replaceLiteral_loop_eq)

lemma retainLast_drop: "retainLast xs n = drop (length xs - n) xs"
proof (induction xs n rule: retainLast.induct)
  case (1 xs n)
  show ?case
  proof (cases "length xs > n")
    case True
    with 1 have "retainLast xs n = drop (length (tl xs) - n) (tl xs)"
      by (subst retainLast.simps) simp
    with True show ?thesis by (cases xs) (auto simp: Suc_diff_le)
  qed (subst retainLast.simps, simp)
qed


section \<open>Facts about the validators and the request machine\<close>

lemma containsControl_iff:
  "containsControl s \<longleftrightarrow> (\<exists>c\<in>set s. byte c < 0x20 \<or> byte c = 0x7f)"
  by (induction s) auto

lemma unat_u64_of_i64: "0 \<le> x \<Longrightarrow> in_i64 x \<Longrightarrow> unat (u64_of_i64 x) = nat x"
  by (simp add: uint_u64_of_i64 flip: nat_uint_eq)

lemma in_i64_nonneg: "0 \<le> x \<Longrightarrow> in_i64 x \<longleftrightarrow> x < 2 ^ 63"
  by (simp add: in_i64_def)

definition ChunkRequest_inv :: "ChunkRequest \<Rightarrow> bool" where
  "ChunkRequest_inv r \<longleftrightarrow> (cr_outstanding r \<longrightarrow> cr_requestId r \<noteq> 0)"

lemma ChunkRequest_inv_new [simp]: "ChunkRequest_inv ChunkRequest_new"
  by (simp add: ChunkRequest_inv_def ChunkRequest_new_def)

lemma ChunkRequest_inv_begin: "ChunkRequest_inv r \<Longrightarrow> ChunkRequest_inv (fst (ChunkRequest_begin p n r))"
  by (auto simp: ChunkRequest_inv_def ChunkRequest_begin_def Let_def)

lemma ChunkRequest_inv_accept:
  "ChunkRequest_inv r \<Longrightarrow> ChunkRequest_inv (fst (ChunkRequest_accept i p n k r))"
  by (auto simp: ChunkRequest_inv_def ChunkRequest_accept_def)

lemma ChunkRequest_inv_cancel: "ChunkRequest_inv (ChunkRequest_cancel r)"
  by (simp add: ChunkRequest_inv_def ChunkRequest_cancel_def)

lemma accept_ACCEPTED_iff:
  "ChunkRequest_accept i p n k r = (r', ACCEPTED) \<longleftrightarrow>
     n \<ge> 0 \<and> unat (u64_of_i64 n) = k \<and> cr_outstanding r \<and>
     i = cr_requestId r \<and> p = cr_position r \<and> n = cr_size r \<and>
     \<not> (i = cr_completedId r \<and> p = cr_completedPosition r \<and> n = cr_completedSize r) \<and>
     r' = r\<lparr>cr_outstanding := False, cr_completedId := i, cr_completedPosition := p,
            cr_completedSize := n\<rparr>"
  by (auto simp: ChunkRequest_accept_def)

lemma accept_not_ACCEPTED_unchanged:
  "snd (ChunkRequest_accept i p n k r) \<noteq> ACCEPTED \<Longrightarrow> fst (ChunkRequest_accept i p n k r) = r"
  by (auto simp: ChunkRequest_accept_def)

lemma begin_outstanding [simp]: "cr_outstanding (fst (ChunkRequest_begin p n r))"
  by (simp add: ChunkRequest_begin_def Let_def)

lemma begin_completed [simp]:
  "cr_completedId (fst (ChunkRequest_begin p n r)) = cr_completedId r"
  "cr_completedPosition (fst (ChunkRequest_begin p n r)) = cr_completedPosition r"
  "cr_completedSize (fst (ChunkRequest_begin p n r)) = cr_completedSize r"
  by (simp_all add: ChunkRequest_begin_def Let_def)

lemma begin_id: "snd (ChunkRequest_begin p n r) = cr_requestId (fst (ChunkRequest_begin p n r))"
  by (simp add: ChunkRequest_begin_def Let_def)

lemma begin_id_nonzero: "ChunkRequest_inv r \<Longrightarrow> snd (ChunkRequest_begin p n r) \<noteq> 0"
  by (auto simp: ChunkRequest_begin_def Let_def ChunkRequest_inv_def)

text \<open>Histories of one request machine: the ids freshly issued and the ids accepted, in order.\<close>

datatype chunk_op = Begin int int | Accept u64 int int nat | Cancel

fun chunk_history :: "chunk_op list \<Rightarrow> ChunkRequest \<Rightarrow> u64 list \<times> u64 list" where
  "chunk_history [] r = ([], [])"
| "chunk_history (Begin p n # ops) r =
     (let (r', i) = ChunkRequest_begin p n r; (issued, accepted) = chunk_history ops r'
      in (if cr_outstanding r then issued else i # issued, accepted))"
| "chunk_history (Accept i p n k # ops) r =
     (let (r', res) = ChunkRequest_accept i p n k r; (issued, accepted) = chunk_history ops r'
      in (issued, if res = ACCEPTED then i # accepted else accepted))"
| "chunk_history (Cancel # ops) r = chunk_history ops (ChunkRequest_cancel r)"

lemma chunk_history_subseq:
  "subseq (snd (chunk_history ops r))
     ((if cr_outstanding r then [cr_requestId r] else []) @ fst (chunk_history ops r))"
proof (induction ops arbitrary: r)
  case (Cons opn ops)
  show ?case
  proof (cases opn)
    case (Begin p n)
    show ?thesis using Cons.IH [of "fst (ChunkRequest_begin p n r)"]
      by (auto simp: Begin Let_def case_prod_beta ChunkRequest_begin_def split: if_splits)
  next
    case (Accept i p n k)
    show ?thesis
    proof (cases "snd (ChunkRequest_accept i p n k r) = ACCEPTED")
      case True
      then obtain r' where acc: "ChunkRequest_accept i p n k r = (r', ACCEPTED)"
        by (cases "ChunkRequest_accept i p n k r") simp
      with accept_ACCEPTED_iff have "cr_outstanding r" and i: "i = cr_requestId r"
        and "\<not> cr_outstanding r'" by auto
      with Cons.IH [of r'] show ?thesis
        by (simp add: Accept acc [unfolded i] case_prod_beta Let_def)
    next
      case False
      then have same: "fst (ChunkRequest_accept i p n k r) = r"
        by (rule accept_not_ACCEPTED_unchanged)
      have "subseq (snd (chunk_history (Accept i p n k # ops) r))
          ((if cr_outstanding r then [cr_requestId r] else [])
             @ fst (chunk_history (Accept i p n k # ops) r))"
        using Cons.IH [of r] False by (simp add: same case_prod_beta Let_def)
      then show ?thesis by (simp only: Accept)
    qed
  next
    case Cancel
    have "subseq (snd (chunk_history ops (ChunkRequest_cancel r)))
        (fst (chunk_history ops (ChunkRequest_cancel r)))"
      using Cons.IH [of "ChunkRequest_cancel r"] by (simp add: ChunkRequest_cancel_def)
    then show ?thesis by (auto simp: Cancel)
  qed
qed simp


section \<open>Properties\<close>

lemma js_escape_char_safe:
  "list_all (\<lambda>c. 0x20 \<le> byte c \<and> byte c \<noteq> 0x7f \<and> c \<noteq> CHR ''<'' \<and> c \<noteq> CHR ''>'')
     (js_escape_char c)"
proof -
  have "byte CHR ''u'' = 117" "byte CHR ''0'' = 48" "byte CHR ''3'' = 51" "byte CHR ''C'' = 67"
    "byte CHR ''E'' = 69" "byte CHR ''n'' = 110" "byte CHR ''r'' = 114" "byte CHR ''t'' = 116"
    "byte CHR ''<'' = 60" "byte CHR ''>'' = 62"
    by (simp_all add: byte_def)
  note literals = this
  have hex: "32 \<le> byte (hex_digit n) \<and> byte (hex_digit n) \<noteq> 127
      \<and> byte (hex_digit n) \<noteq> 60 \<and> byte (hex_digit n) \<noteq> 62" if "n < 16" for n
    using hex_digit_facts [OF that] by auto
  show ?thesis
    unfolding char_eq_byte [of _ "CHR ''<''"] char_eq_byte [of _ "CHR ''>''"]
    using hex [of "byte c div 16"] hex [of "byte c mod 16"]
    by (auto simp: js_escape_char_def literals char_eq_byte simp del: byte_inject)
qed

lemma url_escape_char_safe:
  "list_all (\<lambda>c. url_unreserved c \<or> c = CHR ''%'') (url_escape_char c)"
  by (simp add: url_escape_char_def hex_digit_facts)

lemma html_escape_char_safe:
  "list_all (\<lambda>c. c \<notin> {CHR ''<'', CHR ''>'', dquote, squote}) (html_escape_char c)"
  by (auto simp: html_escape_char_def dquote_def squote_def)

text \<open>\<^verbatim>\<open>javascriptString\<close> embeds any byte string in a script safely. The result is a
  double-quoted literal; a JavaScript reader that stops at an unescaped quote recovers exactly the
  input from its inside; and the inside holds no control byte and no \<open><\<close> or \<open>>\<close>, so it can
  neither end the literal nor close the script element.\<close>

theorem javascriptString_safe:
  "\<exists>inside. javascriptString v = [dquote] @ inside @ [dquote]
     \<and> decode_escaped js_peel inside = Some v
     \<and> list_all (\<lambda>c. 0x20 \<le> byte c \<and> byte c \<noteq> 0x7f \<and> c \<noteq> CHR ''<'' \<and> c \<noteq> CHR ''>'') inside"
  using js.decode_escaped_id [of v]
    list_all_concat_map [of v _ js_escape_char, OF js_escape_char_safe]
  unfolding javascriptString_def by blast

text \<open>\<^verbatim>\<open>urlPathSegment\<close> produces only unreserved characters and percent signs, and
  percent-decoding gives back the input, whatever its bytes.\<close>

theorem urlPathSegment_roundtrip:
  "decode_escaped url_peel (urlPathSegment v) = Some v
     \<and> list_all (\<lambda>c. url_unreserved c \<or> c = CHR ''%'') (urlPathSegment v)"
  using url.decode_escaped_id [of v]
    list_all_concat_map [of v _ url_escape_char, OF url_escape_char_safe]
  by (simp add: urlPathSegment_def)

text \<open>\<^verbatim>\<open>htmlText\<close> produces text without angle brackets or quotes, so it is inert in element
  and attribute position, and reading its entities gives back the input.\<close>

theorem htmlText_roundtrip:
  "decode_escaped html_peel (htmlText v) = Some v
     \<and> list_all (\<lambda>c. c \<notin> {CHR ''<'', CHR ''>'', dquote, squote}) (htmlText v)"
  using html.decode_escaped_id [of v]
    list_all_concat_map [of v _ html_escape_char, OF html_escape_char_safe]
  by (simp add: htmlText_def)

text \<open>the search-and-splice loop of \<^verbatim>\<open>replaceLiteral\<close> terminates and computes the one-pass
  replacement of all non-overlapping occurrences of the marker, never rescanning inserted text;
  the flag says whether the marker occurred.\<close>

theorem replaceLiteral_spec:
  "replaceLiteral str marker replacement =
     (if marker = [] then (str, False)
      else (replace_all marker replacement str, \<exists>p \<le> length str. prefix marker (drop p str)))"
proof (cases "marker = []")
  case False
  have "find_sub marker str \<noteq> None \<longleftrightarrow> (\<exists>p \<le> length str. prefix marker (drop p str))"
    unfolding find_sub_None by (simp only: not_all not_imp not_not)
  then show ?thesis unfolding replaceLiteral_eq [OF False] by (simp only: False if_False)
qed (simp add: replaceLiteral_def)

text \<open>\<^verbatim>\<open>validChunk\<close>, computed in wrapping unsigned arithmetic, accepts exactly the chunks
  that lie inside the file as mathematical integers, carry the declared number of bytes, and stay
  within the chunk limit.\<close>

theorem validChunk_iff:
  assumes "in_i64 position" and "in_i64 declared" and "in_i64 totalSize"
  shows "validChunk position declared received totalSize \<longleftrightarrow>
     0 \<le> position \<and> 0 \<le> declared \<and> 0 \<le> totalSize \<and> position + declared \<le> totalSize
       \<and> int received = declared \<and> received \<le> 64 * 1024"
proof (cases "0 \<le> position \<and> 0 \<le> declared \<and> 0 \<le> totalSize")
  case True
  then have u: "unat (u64_of_i64 position) = nat position"
    "unat (u64_of_i64 declared) = nat declared" "unat (u64_of_i64 totalSize) = nat totalSize"
    using assms by (simp_all add: unat_u64_of_i64)
  have "u64_of_i64 position \<le> u64_of_i64 totalSize \<and> u64_of_i64 declared \<le> u64_of_i64 totalSize - u64_of_i64 position
      \<longleftrightarrow> nat position \<le> nat totalSize \<and> nat declared \<le> nat totalSize - nat position"
    by (auto simp: word_le_nat_alt unat_sub u)
  also have "\<dots> \<longleftrightarrow> position + declared \<le> totalSize" using True by linarith
  finally show ?thesis using True u by (auto simp: validChunk_def Let_def limits)
next
  case False
  then show ?thesis by (auto simp: validChunk_def)
qed

theorem validChunk_iff_witness: "validChunk 4 3 3 10 \<longleftrightarrow> (4 :: int) + 3 \<le> 10"
  using validChunk_iff [of 4 3 10 3] by (simp add: in_i64_def)

text \<open>a chunk response is accepted only if it answers the outstanding request exactly (id,
  position, size and number of bytes); afterwards nothing is accepted until a new request is
  begun, and a repetition of the accepted response, even after the next request has begun, is
  reported as a duplicate and changes nothing.\<close>

theorem chunk_accept_once:
  assumes "ChunkRequest_accept i p n k r = (r', ACCEPTED)"
  shows "cr_outstanding r \<and> i = cr_requestId r \<and> p = cr_position r \<and> n = cr_size r \<and> int k = n mod 2 ^ 64
    \<and> snd (ChunkRequest_accept i' p' n' k' r') \<noteq> ACCEPTED
    \<and> ChunkRequest_accept i p n k r' = (r', DUPLICATE)
    \<and> (let r'' = fst (ChunkRequest_begin p' n' r') in
        ChunkRequest_accept i p n k r'' = (r'', DUPLICATE) \<and> cr_outstanding r'')"
proof -
  from assms [unfolded accept_ACCEPTED_iff]
  have acc: "0 \<le> n" "unat (u64_of_i64 n) = k" "cr_outstanding r" "i = cr_requestId r"
    "p = cr_position r" "n = cr_size r"
    and r': "r' = r\<lparr>cr_outstanding := False, cr_completedId := i, cr_completedPosition := p,
            cr_completedSize := n\<rparr>" by auto
  have "int k = n mod 2 ^ 64"
    unfolding acc(2) [symmetric] by (simp add: u64_of_i64_def uint_word_of_int take_bit_eq_mod)
  with acc show ?thesis
    by (auto simp: r' ChunkRequest_accept_def ChunkRequest_begin_def Let_def)
qed

theorem chunk_accept_once_witness:
  "(let r = fst (ChunkRequest_begin 4 3 ChunkRequest_new);
        r' = fst (ChunkRequest_accept 1 4 3 3 r)
    in ChunkRequest_accept 1 4 3 3 r' = (r', DUPLICATE))"
proof -
  let ?r = "fst (ChunkRequest_begin 4 3 ChunkRequest_new)"
  have "ChunkRequest_accept 1 4 3 3 ?r = (fst (ChunkRequest_accept 1 4 3 3 ?r), ACCEPTED)"
    by (simp add: ChunkRequest_accept_def ChunkRequest_begin_def ChunkRequest_new_def u64_of_i64_def)
  from chunk_accept_once [OF this] show ?thesis by (simp add: Let_def)
qed

text \<open>over any sequence of begins, responses (honest, late, repeated or forged) and
  cancellations of one subscriber, the accepted request ids form a subsequence of the issued
  ones: each issued request is answered at most once and in the order of issue, and no id is
  accepted that was not issued.\<close>

theorem chunk_ids_accepted_once:
  "subseq (snd (chunk_history ops ChunkRequest_new)) (fst (chunk_history ops ChunkRequest_new))"
  using chunk_history_subseq [of ops ChunkRequest_new] by (simp add: ChunkRequest_new_def)

end
