(* ===== verification/Sessions.thy ===== *)
theory Sessions
  imports Boundaries
begin

unbundle bit_operations_syntax

text \<open>
  \<^verbatim>\<open>server/src/utils/SessionReliability.hpp\<close> and
  \<^verbatim>\<open>server/src/utils/SessionCredentials.hpp\<close>: room sequence numbers, the replay decision, the
  retry window, the leases of detached sessions and pending hellos, the transport generation
  fence, and resume tokens.

  Time points of \<^verbatim>\<open>std::chrono::steady_clock\<close> are integers counting nanoseconds. A transport
  pointer is an \<open>option\<close>, \<open>None\<close> being \<^verbatim>\<open>nullptr\<close>. OpenSSL is a parameter:
  \<open>sha256\<close> is passed to \<open>digestToken\<close>, and \<open>makeResumeToken\<close> receives what
  \<^verbatim>\<open>RAND_bytes\<close> produced (\<open>None\<close> when it failed).
\<close>

type_synonym time = int

definition seconds :: "int \<Rightarrow> time" where
  "seconds n = n * 1000000000"

definition gracePeriod :: time where "gracePeriod = seconds 300"
definition pendingHelloPeriod :: time where "pendingHelloPeriod = seconds 10"
definition maxClientMessageIdBytes :: nat where "maxClientMessageIdBytes = 64"
definition maxDedupeEntries :: nat where "maxDedupeEntries = 1024"

section \<open>Identifiers\<close>

definition base64url_char :: "char \<Rightarrow> bool" where
  "base64url_char c \<longleftrightarrow> is_upper c \<or> is_lower c \<or> is_digit c \<or> c = CHR ''-'' \<or> c = CHR ''_''"

definition validBase64UrlId :: "string \<Rightarrow> nat \<Rightarrow> bool" where
  "validBase64UrlId value expectedBytes \<longleftrightarrow>
     (let encodedBytes = (expectedBytes * 4 + 2) div 3
      in length value = encodedBytes \<and> list_all base64url_char value)"

definition validClientMessageId :: "string \<Rightarrow> bool" where
  "validClientMessageId value \<longleftrightarrow>
     value \<noteq> [] \<and> length value \<le> maxClientMessageIdBytes \<and> validBase64UrlId value 16"

section \<open>Sequencing and replay\<close>

type_synonym RoomSequencer = u64

definition RoomSequencer_new :: RoomSequencer where
  "RoomSequencer_new = 0"

definition RoomSequencer_next :: "RoomSequencer \<Rightarrow> RoomSequencer \<times> u64 option" where
  "RoomSequencer_next m = (if m = - 1 then (m, None) else (m + 1, Some (m + 1)))"

definition RoomSequencer_latest :: "RoomSequencer \<Rightarrow> u64" where
  "RoomSequencer_latest m = m"

definition RoomSequencer_advanceTo :: "u64 \<Rightarrow> RoomSequencer \<Rightarrow> RoomSequencer \<times> bool" where
  "RoomSequencer_advanceTo v m = (if v < m then (m, False) else (v, True))"

definition requiresReplayResync :: "u64 \<Rightarrow> u64 \<Rightarrow> u64 option \<Rightarrow> bool" where
  "requiresReplayResync cursor latest earliestRetained =
     (if cursor > latest then True
      else case earliestRetained of
        None \<Rightarrow> cursor < latest
      | Some e \<Rightarrow> e > 0 \<and> cursor < e - 1)"

section \<open>Retry window\<close>

record DedupeWindow =
  dw_sequences :: "(string, u64) umap"
  dw_order :: "string list"
  dw_limit :: nat

definition DedupeWindow_new :: "nat \<Rightarrow> DedupeWindow" where
  "DedupeWindow_new limit = \<lparr>dw_sequences = [], dw_order = [], dw_limit = limit\<rparr>"

definition DedupeWindow_find :: "DedupeWindow \<Rightarrow> string \<Rightarrow> u64 option" where
  "DedupeWindow_find w mid = um_find (dw_sequences w) mid"

definition DedupeWindow_remember :: "string \<Rightarrow> u64 \<Rightarrow> DedupeWindow \<Rightarrow> DedupeWindow \<times> bool" where
  "DedupeWindow_remember mid sequence w =
     (if \<not> validClientMessageId mid \<or> sequence = 0 \<or> dw_limit w = 0
         \<or> um_find (dw_sequences w) mid \<noteq> None then (w, False)
      else if length (dw_order w) \<ge> dw_limit w then (w, False)
      else (w\<lparr>dw_order := dw_order w @ [mid],
              dw_sequences := um_emplace mid sequence (dw_sequences w)\<rparr>, True))"

definition DedupeWindow_size :: "DedupeWindow \<Rightarrow> nat" where
  "DedupeWindow_size w = length (dw_order w)"

definition DedupeWindow_full :: "DedupeWindow \<Rightarrow> bool" where
  "DedupeWindow_full w \<longleftrightarrow> length (dw_order w) \<ge> dw_limit w"

section \<open>Leases\<close>

type_synonym SessionLease = "time option"

definition SessionLease_new :: SessionLease where
  "SessionLease_new = None"

definition SessionLease_detach :: "time \<Rightarrow> SessionLease \<Rightarrow> SessionLease" where
  "SessionLease_detach now l = Some (now + gracePeriod)"

definition SessionLease_disconnected :: "SessionLease \<Rightarrow> bool" where
  "SessionLease_disconnected l \<longleftrightarrow> l \<noteq> None"

definition SessionLease_canResume :: "time \<Rightarrow> SessionLease \<Rightarrow> bool" where
  "SessionLease_canResume now l = (case l of None \<Rightarrow> False | Some deadline \<Rightarrow> now < deadline)"

definition SessionLease_expires :: "time \<Rightarrow> SessionLease \<Rightarrow> bool" where
  "SessionLease_expires now l = (case l of None \<Rightarrow> False | Some deadline \<Rightarrow> now \<ge> deadline)"

definition SessionLease_resume :: "time \<Rightarrow> SessionLease \<Rightarrow> SessionLease \<times> bool" where
  "SessionLease_resume now l = (if \<not> SessionLease_canResume now l then (l, False) else (None, True))"

record PendingHelloLease =
  ph_deadline :: time
  ph_consumed :: bool

definition PendingHelloLease_new :: "time \<Rightarrow> PendingHelloLease" where
  "PendingHelloLease_new created =
     \<lparr>ph_deadline = created + pendingHelloPeriod, ph_consumed = False\<rparr>"

definition PendingHelloLease_accept :: "time \<Rightarrow> PendingHelloLease \<Rightarrow> PendingHelloLease \<times> bool" where
  "PendingHelloLease_accept now l =
     (if ph_consumed l \<or> now \<ge> ph_deadline l then (l, False)
      else (l\<lparr>ph_consumed := True\<rparr>, True))"

definition PendingHelloLease_expires :: "time \<Rightarrow> PendingHelloLease \<Rightarrow> bool" where
  "PendingHelloLease_expires now l \<longleftrightarrow> \<not> ph_consumed l \<and> now \<ge> ph_deadline l"

section \<open>Transport generation fence\<close>

record 't TransportGeneration =
  tg_current :: "'t option"
  tg_generation :: u64

definition TransportGeneration_new :: "'t TransportGeneration" where
  "TransportGeneration_new = \<lparr>tg_current = None, tg_generation = 0\<rparr>"

definition TransportGeneration_replace ::
  "'t option \<Rightarrow> 't TransportGeneration \<Rightarrow> 't TransportGeneration \<times> u64" where
  "TransportGeneration_replace transport g =
     (let gen = tg_generation g + 1 in (g\<lparr>tg_current := transport, tg_generation := gen\<rparr>, gen))"

definition TransportGeneration_isCurrent ::
  "'t option \<Rightarrow> u64 \<Rightarrow> 't TransportGeneration \<Rightarrow> bool" where
  "TransportGeneration_isCurrent transport generation g \<longleftrightarrow>
     transport = tg_current g \<and> generation = tg_generation g"

definition TransportGeneration_detachIfCurrent ::
  "'t option \<Rightarrow> u64 \<Rightarrow> 't TransportGeneration \<Rightarrow> 't TransportGeneration \<times> bool" where
  "TransportGeneration_detachIfCurrent transport generation g =
     (if \<not> TransportGeneration_isCurrent transport generation g then (g, False)
      else (g\<lparr>tg_current := None\<rparr>, True))"

section \<open>Resume tokens\<close>

type_synonym TokenDigest = string

definition base64url_alphabet :: string where
  "base64url_alphabet = ''ABCDEFGHIJKLMNOPQRSTUVWXYZabcdefghijklmnopqrstuvwxyz0123456789-_''"

definition base64url_digit :: "nat \<Rightarrow> char" where
  "base64url_digit n = base64url_alphabet ! n"

fun base64Url :: "string \<Rightarrow> string" where
  "base64Url [] = []"
| "base64Url (d # rest) =
     (let first = byte d;
          second = (case rest of b # _ \<Rightarrow> byte b | [] \<Rightarrow> 0);
          third = (case rest of _ # c # _ \<Rightarrow> byte c | _ \<Rightarrow> 0)
      in [base64url_digit (drop_bit 2 first),
          base64url_digit (push_bit 4 (first AND 0x03) OR drop_bit 4 second)]
         @ (if 1 \<le> length rest
            then [base64url_digit (push_bit 2 (second AND 0x0f) OR drop_bit 6 third)] else [])
         @ (if 2 \<le> length rest then [base64url_digit (third AND 0x3f)] else [])
         @ base64Url (drop 2 rest))"

definition makeResumeToken :: "string option \<Rightarrow> string option" where
  "makeResumeToken randomBytes =
     (case randomBytes of
        None \<Rightarrow> None
      | Some bytes \<Rightarrow>
          (let token = base64Url bytes
           in if validBase64UrlId token 32 then Some token else None))"

definition digestToken :: "(string \<Rightarrow> TokenDigest) \<Rightarrow> string \<Rightarrow> TokenDigest" where
  "digestToken sha256 token = sha256 token"

definition constantTimeDigestEqual :: "TokenDigest \<Rightarrow> TokenDigest \<Rightarrow> bool" where
  "constantTimeDigestEqual left right \<longleftrightarrow> left = right"


section \<open>Interface: a source of sequence numbers\<close>

locale sequence_source =
  fixes draw :: "'s \<Rightarrow> 's \<times> u64 option"
    and latest :: "'s \<Rightarrow> u64"
  assumes draw_Some: "draw s = (s', Some n) \<Longrightarrow> latest s' = n \<and> unat n = Suc (unat (latest s))"
    and draw_None: "draw s = (s', None) \<Longrightarrow> s' = s"
begin

fun draws :: "nat \<Rightarrow> 's \<Rightarrow> u64 list" where
  "draws 0 s = []"
| "draws (Suc k) s = (case draw s of (s', None) \<Rightarrow> [] | (s', Some n) \<Rightarrow> n # draws k s')"

lemma draws_consecutive:
  "map unat (draws k s) = [Suc (unat (latest s)) ..< Suc (unat (latest s)) + length (draws k s)]"
proof (induction k arbitrary: s)
  case (Suc k)
  show ?case
  proof (cases "draw s")
    case (Pair s' r)
    show ?thesis
    proof (cases r)
      case (Some n)
      with Pair draw_Some have "latest s' = n" "unat n = Suc (unat (latest s))" by blast+
      with Suc.IH [of s'] show ?thesis
        by (simp add: Pair Some upt_conv_Cons del: upt_Suc)
    qed (simp add: Pair)
  qed
qed simp

lemma draw_fresh: "draw s = (s', Some n) \<Longrightarrow> n \<noteq> 0 \<and> latest s < n"
  using draw_Some [of s s' n] by (auto simp: word_less_nat_alt)

end

lemma RoomSequencer_next_Some:
  "RoomSequencer_next m = (m', Some n) \<longleftrightarrow> m \<noteq> - 1 \<and> n = m + 1 \<and> m' = m + 1"
  by (auto simp: RoomSequencer_next_def)

interpretation room_seq: sequence_source RoomSequencer_next RoomSequencer_latest
proof unfold_locales
  fix s s' :: RoomSequencer and n
  show "RoomSequencer_next s = (s', Some n) \<Longrightarrow>
      RoomSequencer_latest s' = n \<and> unat n = Suc (unat (RoomSequencer_latest s))"
    by (auto simp: RoomSequencer_next_Some RoomSequencer_latest_def unat_succ_u64)
  show "RoomSequencer_next s = (s', None) \<Longrightarrow> s' = s"
    by (auto simp: RoomSequencer_next_def split: if_splits)
qed

section \<open>Interface: a retry window\<close>

text \<open>What the command handlers rely on: a recorded id keeps its sequence number whatever is
  recorded later, and recording succeeds exactly for a fresh valid id while there is room.\<close>

locale retry_window =
  fixes recall :: "'w \<Rightarrow> string \<Rightarrow> u64 option"
    and record_id :: "string \<Rightarrow> u64 \<Rightarrow> 'w \<Rightarrow> 'w \<times> bool"
    and is_full :: "'w \<Rightarrow> bool"
    and ok :: "'w \<Rightarrow> bool"
  assumes record_True: "ok w \<Longrightarrow> record_id i n w = (w', True) \<Longrightarrow>
      ok w' \<and> recall w i = None \<and> recall w' = (recall w)(i \<mapsto> n)"
    and record_False: "ok w \<Longrightarrow> record_id i n w = (w', False) \<Longrightarrow> w' = w"
    and record_accepts: "ok w \<Longrightarrow> validClientMessageId i \<Longrightarrow> n \<noteq> 0 \<Longrightarrow> recall w i = None \<Longrightarrow>
      \<not> is_full w \<Longrightarrow> snd (record_id i n w)"
    and recall_nonzero: "ok w \<Longrightarrow> recall w i \<noteq> Some 0"
begin

lemma record_keeps:
  "ok w \<Longrightarrow> recall w j = Some m \<Longrightarrow> recall (fst (record_id i n w)) j = Some m"
proof -
  assume w: "ok w" "recall w j = Some m"
  obtain w' b where r: "record_id i n w = (w', b)" by (cases "record_id i n w")
  show ?thesis
  proof (cases b)
    case True
    with r have "record_id i n w = (w', True)" by simp
    from record_True [OF w(1) this] w(2) show ?thesis by (auto simp: r)
  next
    case False
    with r have "record_id i n w = (w', False)" by simp
    from record_False [OF w(1) this] w(2) show ?thesis by (simp add: r)
  qed
qed

lemma record_ok: "ok w \<Longrightarrow> ok (fst (record_id i n w))"
proof -
  assume w: "ok w"
  obtain w' b where r: "record_id i n w = (w', b)" by (cases "record_id i n w")
  show ?thesis
  proof (cases b)
    case True
    with r have "record_id i n w = (w', True)" by simp
    from record_True [OF w this] show ?thesis by (simp add: r)
  next
    case False
    with r have "record_id i n w = (w', False)" by simp
    from record_False [OF w this] w show ?thesis by (simp add: r)
  qed
qed

definition record_all :: "(string \<times> u64) list \<Rightarrow> 'w \<Rightarrow> 'w" where
  "record_all es w = fold (\<lambda>(i, n) w. fst (record_id i n w)) es w"

lemma record_all_keeps:
  "ok w \<Longrightarrow> recall w j = Some m \<Longrightarrow> ok (record_all es w) \<and> recall (record_all es w) j = Some m"
  by (induction es arbitrary: w)
     (auto simp: record_all_def record_keeps record_ok split: prod.splits)

end

definition DedupeWindow_ok :: "DedupeWindow \<Rightarrow> bool" where
  "DedupeWindow_ok w \<longleftrightarrow>
     map fst (dw_sequences w) = dw_order w \<and> distinct (dw_order w) \<and>
     length (dw_order w) \<le> dw_limit w \<and>
     (\<forall>(i, n) \<in> set (dw_sequences w). validClientMessageId i \<and> n \<noteq> 0)"

lemma DedupeWindow_ok_new [simp]: "DedupeWindow_ok (DedupeWindow_new limit)"
  by (simp add: DedupeWindow_ok_def DedupeWindow_new_def)

lemma remember_True_iff:
  "DedupeWindow_remember i n w = (w', True) \<longleftrightarrow>
     validClientMessageId i \<and> n \<noteq> 0 \<and> dw_limit w \<noteq> 0 \<and> um_find (dw_sequences w) i = None
     \<and> length (dw_order w) < dw_limit w
     \<and> w' = w\<lparr>dw_order := dw_order w @ [i], dw_sequences := dw_sequences w @ [(i, n)]\<rparr>"
  by (auto simp: DedupeWindow_remember_def um_emplace_def)

lemma remember_False: "DedupeWindow_remember i n w = (w', False) \<Longrightarrow> w' = w"
  by (auto simp: DedupeWindow_remember_def split: if_splits)

interpretation dedupe: retry_window DedupeWindow_find DedupeWindow_remember DedupeWindow_full DedupeWindow_ok
proof unfold_locales
  fix w w' i n
  assume w: "DedupeWindow_ok w"
  show "DedupeWindow_remember i n w = (w', True) \<Longrightarrow> DedupeWindow_ok w'
      \<and> DedupeWindow_find w i = None \<and> DedupeWindow_find w' = (DedupeWindow_find w)(i \<mapsto> n)"
  proof -
    assume "DedupeWindow_remember i n w = (w', True)"
    note r = this [unfolded remember_True_iff]
    then have "i \<notin> set (dw_order w)"
      using w by (metis um_find_None DedupeWindow_ok_def set_map)
    with r w show ?thesis
      by (auto simp: DedupeWindow_ok_def DedupeWindow_find_def um_find_def fun_eq_iff map_add_def
          split: option.splits)
  qed
  show "DedupeWindow_remember i n w = (w', False) \<Longrightarrow> w' = w" by (rule remember_False)
  show "validClientMessageId i \<Longrightarrow> n \<noteq> 0 \<Longrightarrow> DedupeWindow_find w i = None \<Longrightarrow>
      \<not> DedupeWindow_full w \<Longrightarrow> snd (DedupeWindow_remember i n w)"
    by (auto simp: DedupeWindow_remember_def DedupeWindow_find_def DedupeWindow_full_def)
  show "DedupeWindow_find w i \<noteq> Some 0"
    using w by (auto simp: DedupeWindow_find_def DedupeWindow_ok_def dest: um_find_SomeD)
qed

section \<open>Interface: a transport fence\<close>

text \<open>A fence hands out a generation per transport; an operation that names a transport and its
  generation takes effect only while both are current.\<close>

locale transport_fence =
  fixes renew :: "'t option \<Rightarrow> 'g \<Rightarrow> 'g \<times> u64"
    and current :: "'t option \<Rightarrow> u64 \<Rightarrow> 'g \<Rightarrow> bool"
    and release :: "'t option \<Rightarrow> u64 \<Rightarrow> 'g \<Rightarrow> 'g \<times> bool"
  assumes renew_current: "renew t g = (g', n) \<Longrightarrow> current u m g' \<longleftrightarrow> u = t \<and> m = n"
    and renew_changes: "renew t g = (g', n) \<Longrightarrow> current u m g \<Longrightarrow> m \<noteq> n"
    and release_current: "current t n g \<Longrightarrow> snd (release t n g)"
    and release_stale: "\<not> current t n g \<Longrightarrow> release t n g = (g, False)"
    and release_clears: "release t n g = (g', True) \<Longrightarrow> t \<noteq> None \<Longrightarrow> \<not> current t m g'"
begin

lemma stale_after_renew:
  "current u m g \<Longrightarrow> renew t g = (g', n) \<Longrightarrow> release u m g' = (g', False)"
  by (metis release_stale renew_changes renew_current)

lemma release_once:
  "t \<noteq> None \<Longrightarrow> release t n g = (g', True) \<Longrightarrow> release t n g' = (g', False)"
  using release_clears [of t n g g' n] release_stale by blast

end

interpretation fence: transport_fence
  TransportGeneration_replace TransportGeneration_isCurrent TransportGeneration_detachIfCurrent
  by unfold_locales
     (auto simp: TransportGeneration_replace_def TransportGeneration_isCurrent_def
       TransportGeneration_detachIfCurrent_def Let_def split: if_splits)

section \<open>Resume tokens decode\<close>

definition base64url_val :: "char \<Rightarrow> nat option" where
  "base64url_val c =
     (if is_upper c then Some (byte c - 65)
      else if is_lower c then Some (byte c - 97 + 26)
      else if is_digit c then Some (byte c - 48 + 52)
      else if c = CHR ''-'' then Some 62
      else if c = CHR ''_'' then Some 63
      else None)"

fun base64Url_decode :: "string \<Rightarrow> string option" where
  "base64Url_decode [] = Some []"
| "base64Url_decode [x] = None"
| "base64Url_decode [x, y] =
     (case (base64url_val x, base64url_val y) of
        (Some a, Some b) \<Rightarrow> Some [char_of (a * 4 + b div 16)]
      | _ \<Rightarrow> None)"
| "base64Url_decode [x, y, z] =
     (case (base64url_val x, base64url_val y, base64url_val z) of
        (Some a, Some b, Some c) \<Rightarrow>
          Some [char_of (a * 4 + b div 16), char_of (b mod 16 * 16 + c div 4)]
      | _ \<Rightarrow> None)"
| "base64Url_decode (x # y # z # w # rest) =
     (case (base64url_val x, base64url_val y, base64url_val z, base64url_val w) of
        (Some a, Some b, Some c, Some d) \<Rightarrow>
          map_option (\<lambda>r. [char_of (a * 4 + b div 16), char_of (b mod 16 * 16 + c div 4),
            char_of (c mod 4 * 64 + d)] @ r) (base64Url_decode rest)
      | _ \<Rightarrow> None)"

lemma upt_0_64: "[0..<64] = [0, 1, 2, 3, 4, 5, 6, 7, 8, 9, 10, 11, 12, 13, 14, 15, 16, 17, 18, 19, 20,
    21, 22, 23, 24, 25, 26, 27, 28, 29, 30, 31, 32, 33, 34, 35, 36, 37, 38, 39, 40, 41, 42, 43, 44,
    45, 46, 47, 48, 49, 50, 51, 52, 53, 54, 55, 56, 57, 58, 59, 60, 61, 62, 63]"
  by code_simp

lemma base64url_table:
  "map base64url_val base64url_alphabet = map Some [0..<64]"
  "list_all base64url_char base64url_alphabet"
  unfolding upt_0_64
  by (simp_all add: base64url_alphabet_def base64url_val_def base64url_char_def char_class_defs)

lemma length_base64url_alphabet: "length base64url_alphabet = 64"
  by (simp add: base64url_alphabet_def)

lemma base64url_digit_val [simp]: "n < 64 \<Longrightarrow> base64url_val (base64url_digit n) = Some n"
proof -
  assume n: "n < 64"
  have "map base64url_val base64url_alphabet ! n = map Some [0..<64] ! n"
    by (simp only: base64url_table)
  with n show ?thesis by (simp add: base64url_digit_def length_base64url_alphabet)
qed

lemma base64url_digit_char [simp]: "n < 64 \<Longrightarrow> base64url_char (base64url_digit n)"
  using base64url_table(2)
  by (simp add: base64url_digit_def length_base64url_alphabet list_all_length)

lemma base64_group:
  fixes x y z :: nat
  assumes "x < 256" and "y < 256" and "z < 256"
  shows "drop_bit 2 x = x div 4"
    and "push_bit 4 (and x 3) OR drop_bit 4 y = x mod 4 * 16 + y div 16"
    and "push_bit 2 (and y 15) OR drop_bit 6 z = y mod 16 * 4 + z div 64"
    and "and z 63 = z mod 64"
  using assms nat_or_shift [of "y div 16" 4 "x mod 4"] nat_or_shift [of "z div 64" 2 "y mod 16"]
  by (simp_all add: nat_and_mask drop_bit_eq_div)

lemma base64_digits_bound:
  fixes x y z :: nat
  assumes "x < 256" and "y < 256" and "z < 256"
  shows "x div 4 < 64" and "x mod 4 * 16 + y div 16 < 64" and "y mod 16 * 4 + z div 64 < 64"
proof -
  have "y div 16 < 16" and "z div 64 < 4" and x: "x div 4 < 64"
    using assms by (simp_all add: less_mult_imp_div_less)
  moreover have "x mod 4 < 4" and "y mod 16 < 16" by simp_all
  ultimately show "x div 4 < 64" "x mod 4 * 16 + y div 16 < 64" "y mod 16 * 4 + z div 64 < 64"
    by linarith+
qed


lemma base64Url_decode_encode: "base64Url_decode (base64Url s) = Some s"
proof (induction s rule: base64Url.induct)
  case (2 d rest)
  show ?case
  proof (cases rest)
    case Nil
    have g: "byte d < 256" "(0 :: nat) < 256" by simp_all
    have "byte d div 4 * 4 + byte d mod 4 * 16 div 16 = byte d" by simp
    then show ?thesis
      using base64_group [OF g(1) g(2) g(2)] base64_digits_bound [OF g(1) g(2) g(2)]
      by (simp add: Nil Let_def)
  next
    case (Cons b rest')
    show ?thesis
    proof (cases rest')
      case Nil
      have g: "byte d < 256" "byte b < 256" "(0 :: nat) < 256" by simp_all
      have "byte b div 16 < 16" by simp
      then have "byte d div 4 * 4 + (byte d mod 4 * 16 + byte b div 16) div 16 = byte d"
        and "(byte d mod 4 * 16 + byte b div 16) mod 16 * 16 + byte b mod 16 * 4 div 4 = byte b"
        by (simp_all add: div_add1_eq)
      then show ?thesis
        using base64_group [OF g] base64_digits_bound [OF g] by (simp add: Cons Nil Let_def)
    next
      case (Cons c r)
      have g: "byte d < 256" "byte b < 256" "byte c < 256" by simp_all
      have bb: "byte b div 16 < 16" by simp
      have cc: "byte c div 64 < 4" by (rule less_mult_imp_div_less) (use g in simp)
      have "byte d div 4 * 4 + (byte d mod 4 * 16 + byte b div 16) div 16 = byte d"
        and "(byte d mod 4 * 16 + byte b div 16) mod 16 * 16 + (byte b mod 16 * 4 + byte c div 64) div 4
          = byte b"
        and "(byte b mod 16 * 4 + byte c div 64) mod 4 * 64 + byte c mod 64 = byte c"
        using bb cc by (simp_all add: div_add1_eq)
      moreover have "base64Url_decode (base64Url r) = Some r"
        using 2 by (simp add: \<open>rest = b # rest'\<close> Cons)
      ultimately show ?thesis
        using base64_group [OF g] base64_digits_bound [OF g]
        by (simp add: \<open>rest = b # rest'\<close> Cons Let_def)
    qed
  qed
qed simp

lemma base64Url_shape:
  "length (base64Url s) = (length s * 4 + 2) div 3 \<and> list_all base64url_char (base64Url s)"
proof (induction s rule: base64Url.induct)
  case (2 d rest)
  obtain second third where v: "second = (case rest of b # _ \<Rightarrow> byte b | [] \<Rightarrow> 0)"
    "third = (case rest of _ # c # _ \<Rightarrow> byte c | _ \<Rightarrow> 0)" by simp
  have g: "byte d < 256" "second < 256" "third < 256"
    by (auto simp: v split: list.splits)
  have len: "length rest = 0 \<or> length rest = 1 \<or> 2 \<le> length rest" by linarith
  have "(length (drop 2 rest) * 4 + 2) div 3 + 4 = (length (d # rest) * 4 + 2) div 3"
    if "2 \<le> length rest"
  proof -
    from that have "length (d # rest) * 4 + 2 = (length (drop 2 rest) * 4 + 2) + 4 * 3" by simp
    then show ?thesis by simp
  qed
  then have step: "(length (drop 2 rest) * 4 + 2) div 3 + (if 2 \<le> length rest then 4
        else if length rest = 1 then 3 else 2) = (length (d # rest) * 4 + 2) div 3"
    using len by auto
  have tail: "length (base64Url (drop 2 rest)) = (length (drop 2 rest) * 4 + 2) div 3"
    "list_all base64url_char (base64Url (drop 2 rest))"
    using 2 by simp_all
  from len show ?case
    using base64_group [OF g] base64_group(2) [of "byte d" 0 0] base64_digits_bound [OF g] step tail
    by (elim disjE) (simp_all add: Let_def v [symmetric])
qed simp

interpretation token_codec: codec base64Url base64Url_decode "\<lambda>_. True"
  by unfold_locales (rule base64Url_decode_encode)

section \<open>Properties\<close>

text \<open>a resume token made from 32 random bytes always exists and is a well-formed 256-bit
  identifier, and the bytes can be read back from it: no entropy is lost, so two tokens are equal
  only if the random bytes were.\<close>

theorem resume_token_lossless:
  assumes "length bytes = 32"
  shows "\<exists>token. makeResumeToken (Some bytes) = Some token \<and> validBase64UrlId token 32
    \<and> base64Url_decode token = Some bytes
    \<and> (\<forall>bytes'. makeResumeToken (Some bytes') = Some token \<longrightarrow> bytes' = bytes)"
proof -
  have "validBase64UrlId (base64Url bytes) 32"
    using base64Url_shape [of bytes] assms by (simp add: validBase64UrlId_def)
  then show ?thesis
    by (auto simp: makeResumeToken_def token_codec.dec_enc Let_def dest: token_codec.enc_inj [OF TrueI TrueI]
        split: if_splits)
qed

theorem resume_token_lossless_witness:
  "\<exists>token. makeResumeToken (Some (replicate 32 CHR ''x'')) = Some token \<and> length token = 43"
  using resume_token_lossless [of "replicate 32 CHR ''x''"] by (auto simp: validBase64UrlId_def)

text \<open>the retry window never forgets. Once an id has been recorded with a sequence number,
  whatever is recorded later the id still recalls that number, it can never be recorded again,
  and the window stays within its limit.\<close>

theorem dedupe_never_forgets:
  assumes "DedupeWindow_remember i n (dedupe.record_all before (DedupeWindow_new limit)) = (w, True)"
  shows "let w' = dedupe.record_all later w in
      DedupeWindow_find w' i = Some n \<and> DedupeWindow_size w' \<le> limit
    \<and> DedupeWindow_remember i m w' = (w', False)"
proof -
  let ?w0 = "dedupe.record_all before (DedupeWindow_new limit)"
  have limit: "dw_limit (dedupe.record_all es v) = dw_limit v" for es v
    by (induction es arbitrary: v)
       (auto simp: dedupe.record_all_def DedupeWindow_remember_def split: prod.splits)
  have ok0: "DedupeWindow_ok ?w0"
    unfolding dedupe.record_all_def
    by (induction before rule: rev_induct) (auto simp: dedupe.record_ok split: prod.splits)
  from dedupe.record_True [OF ok0 assms]
  have w: "DedupeWindow_ok w" "DedupeWindow_find w i = Some n" by auto
  from dedupe.record_all_keeps [OF this]
  have w': "DedupeWindow_ok (dedupe.record_all later w)"
    "DedupeWindow_find (dedupe.record_all later w) i = Some n" by auto
  have "dw_limit (dedupe.record_all later w) = limit"
    using assms by (simp add: limit remember_True_iff DedupeWindow_new_def)
  with w' show ?thesis
    by (auto simp: Let_def DedupeWindow_ok_def DedupeWindow_size_def DedupeWindow_find_def
        DedupeWindow_remember_def)
qed

theorem dedupe_never_forgets_witness:
  "let i = ''AAAAAAAAAAAAAAAAAAAAAA''; j = ''BBBBBBBBBBBBBBBBBBBBBB'';
       w = fst (DedupeWindow_remember i 9 (DedupeWindow_new 2))
   in DedupeWindow_find (dedupe.record_all [(j, 10), (i, 11)] w) i = Some 9"
proof -
  let ?i = "''AAAAAAAAAAAAAAAAAAAAAA''"
  let ?w = "fst (DedupeWindow_remember ?i 9 (DedupeWindow_new 2))"
  have "DedupeWindow_remember ?i 9 (dedupe.record_all [] (DedupeWindow_new 2)) = (?w, True)"
    by (simp add: dedupe.record_all_def DedupeWindow_remember_def DedupeWindow_new_def
        validClientMessageId_def validBase64UrlId_def maxClientMessageIdBytes_def
        base64url_char_def char_class_defs)
  from dedupe_never_forgets [OF this] show ?thesis by (simp only: Let_def)
qed

text \<open>the replay decision is exact. For a room whose retained history is the unbroken run of
  sequence numbers from the earliest retained one to the latest (or nothing), a client cursor is
  sent to a full resync exactly when it is ahead of the room or when some message after it is no
  longer retained; otherwise the retained messages after the cursor are all it missed.\<close>

theorem requiresReplayResync_exact:
  assumes "case earliest of None \<Rightarrow> True | Some e \<Rightarrow> 0 < e \<and> e \<le> latest"
  shows "requiresReplayResync cursor latest earliest \<longleftrightarrow>
     cursor > latest
     \<or> (\<exists>s. cursor < s \<and> s \<le> latest \<and>
          s \<notin> (case earliest of None \<Rightarrow> {} | Some e \<Rightarrow> {e..latest}))"
proof (cases earliest)
  case None
  then show ?thesis by (auto simp: requiresReplayResync_def)
next
  case (Some e)
  with assms have e: "0 < e" "e \<le> latest" by auto
  have un: "unat (e - 1) = unat e - 1" using e(1) by (simp add: unat_minus_one word_gt_0)
  have "cursor < e - 1 \<longleftrightarrow> (\<exists>s. cursor < s \<and> s < e)"
  proof
    assume "cursor < e - 1"
    moreover have "e - 1 < e" using e(1) by (simp add: word_less_nat_alt un word_gt_0 unat_gt_0)
    ultimately show "\<exists>s. cursor < s \<and> s < e" by blast
  next
    assume "\<exists>s. cursor < s \<and> s < e"
    then show "cursor < e - 1" by (auto simp: word_less_nat_alt un)
  qed
  with Some e show ?thesis
    by (auto simp: requiresReplayResync_def not_le dest: less_le_trans)
qed

theorem requiresReplayResync_exact_witness:
  "requiresReplayResync 2 7 (Some 4) \<and> \<not> requiresReplayResync 3 7 (Some 4)"
proof
  show "requiresReplayResync 2 7 (Some 4)"
    using requiresReplayResync_exact [where earliest = "Some 4" and latest = 7 and cursor = 2]
    by (auto intro!: exI [of _ 3])
  show "\<not> requiresReplayResync 3 7 (Some 4)"
    by (simp add: requiresReplayResync_def)
qed

end
