(* ===== verification/Heartbeats.thy ===== *)
theory Heartbeats
  imports Sessions
begin

text \<open>
  \<^verbatim>\<open>server/src/rooms/Heartbeat.hpp\<close>: the liveness clock of one transport (a probe every
  30 seconds, expiry after 120 seconds of silence) and the accounting of the one terminal close
  event. Callers supply the monotonic clock.
\<close>

datatype Tick = TICK_NONE | QUEUE_PING | EXPIRED

record Heartbeat =
  hb_lastInbound :: time
  hb_lastProbe :: time
  hb_generation :: u64
  hb_pingQueued :: bool
  hb_pingOutstanding :: bool

definition probeInterval :: time where "probeInterval = seconds 30"
definition heartbeat_deadline :: time where "heartbeat_deadline = seconds 120"

definition Heartbeat_new :: "time \<Rightarrow> u64 \<Rightarrow> Heartbeat" where
  "Heartbeat_new now generation = \<lparr>hb_lastInbound = now, hb_lastProbe = now,
     hb_generation = generation, hb_pingQueued = False, hb_pingOutstanding = False\<rparr>"

definition Heartbeat_activate :: "time \<Rightarrow> u64 \<Rightarrow> Heartbeat \<Rightarrow> Heartbeat" where
  "Heartbeat_activate now generation h = h\<lparr>hb_lastInbound := now, hb_lastProbe := now,
     hb_generation := generation, hb_pingQueued := False, hb_pingOutstanding := False\<rparr>"

definition Heartbeat_tick :: "time \<Rightarrow> Heartbeat \<Rightarrow> Heartbeat \<times> Tick" where
  "Heartbeat_tick now h =
     (if now - hb_lastInbound h \<ge> heartbeat_deadline then (h, EXPIRED)
      else if hb_pingQueued h \<or> hb_pingOutstanding h \<or> now - hb_lastProbe h < probeInterval
        then (h, TICK_NONE)
      else (h\<lparr>hb_pingQueued := True, hb_lastProbe := now\<rparr>, QUEUE_PING))"

definition Heartbeat_writeCompleted :: "u64 \<Rightarrow> bool \<Rightarrow> Heartbeat \<Rightarrow> Heartbeat \<times> bool" where
  "Heartbeat_writeCompleted generation success h =
     (if generation \<noteq> hb_generation h \<or> \<not> hb_pingQueued h then (h, False)
      else (h\<lparr>hb_pingQueued := False, hb_pingOutstanding := success\<rparr>, True))"

definition Heartbeat_inbound :: "time \<Rightarrow> u64 \<Rightarrow> Heartbeat \<Rightarrow> Heartbeat \<times> bool" where
  "Heartbeat_inbound now generation h =
     (if generation \<noteq> hb_generation h then (h, False)
      else (h\<lparr>hb_lastInbound := now, hb_pingQueued := False, hb_pingOutstanding := False\<rparr>, True))"

text \<open>\<^verbatim>\<open>duration_cast\<close> truncates towards zero.\<close>

definition Heartbeat_idleMilliseconds :: "time \<Rightarrow> Heartbeat \<Rightarrow> int" where
  "Heartbeat_idleMilliseconds now h =
     (let d = now - hb_lastInbound h in sgn d * (\<bar>d\<bar> div 1000000))"

type_synonym TerminalCloseAccounting = bool

definition TerminalCloseAccounting_new :: TerminalCloseAccounting where
  "TerminalCloseAccounting_new = False"

definition TerminalCloseAccounting_accountOnce ::
  "TerminalCloseAccounting \<Rightarrow> TerminalCloseAccounting \<times> bool" where
  "TerminalCloseAccounting_accountOnce accounted =
     (if accounted then (accounted, False) else (True, True))"

lemmas heartbeat_defs = Heartbeat_activate_def Heartbeat_tick_def Heartbeat_writeCompleted_def
  Heartbeat_inbound_def

section \<open>Runs of one heartbeat\<close>

datatype heartbeat_event =
    Ticked time
  | PingWritten u64 bool
  | Inbound time u64
  | Activated time u64

fun heartbeat_step :: "heartbeat_event \<Rightarrow> Heartbeat \<Rightarrow> Heartbeat" where
  "heartbeat_step (Ticked now) h = fst (Heartbeat_tick now h)"
| "heartbeat_step (PingWritten g b) h = fst (Heartbeat_writeCompleted g b h)"
| "heartbeat_step (Inbound now g) h = fst (Heartbeat_inbound now g h)"
| "heartbeat_step (Activated now g) h = Heartbeat_activate now g h"

definition heartbeat_run :: "heartbeat_event list \<Rightarrow> Heartbeat \<Rightarrow> Heartbeat" where
  "heartbeat_run es h = fold heartbeat_step es h"

text \<open>What an observer computes from the events alone: the current generation, the last moment the
  current transport was heard from, and the moments a ping was queued.\<close>

fun observed_generation :: "heartbeat_event list \<Rightarrow> u64 \<Rightarrow> u64" where
  "observed_generation [] g = g"
| "observed_generation (Activated now g' # es) g = observed_generation es g'"
| "observed_generation (_ # es) g = observed_generation es g"

fun last_contact :: "heartbeat_event list \<Rightarrow> u64 \<Rightarrow> time \<Rightarrow> time" where
  "last_contact [] g t = t"
| "last_contact (Inbound now g' # es) g t = last_contact es g (if g' = g then now else t)"
| "last_contact (Activated now g' # es) g t = last_contact es g' now"
| "last_contact (_ # es) g t = last_contact es g t"

fun pings :: "heartbeat_event list \<Rightarrow> Heartbeat \<Rightarrow> time list" where
  "pings [] h = []"
| "pings (e # es) h =
     (case e of
        Ticked now \<Rightarrow> (if snd (Heartbeat_tick now h) = QUEUE_PING then [now] else [])
      | _ \<Rightarrow> [])
     @ pings es (heartbeat_step e h)"

lemma run_Cons [simp]: "heartbeat_run (e # es) h = heartbeat_run es (heartbeat_step e h)"
  by (simp add: heartbeat_run_def)

lemma run_Nil [simp]: "heartbeat_run [] h = h"
  by (simp add: heartbeat_run_def)

lemma step_generation:
  "hb_generation (heartbeat_step e h)
     = (case e of Activated now g \<Rightarrow> g | _ \<Rightarrow> hb_generation h)"
  by (cases e) (auto simp: heartbeat_defs)

lemma step_lastInbound:
  "hb_lastInbound (heartbeat_step e h)
     = (case e of
          Activated now g \<Rightarrow> now
        | Inbound now g \<Rightarrow> (if g = hb_generation h then now else hb_lastInbound h)
        | _ \<Rightarrow> hb_lastInbound h)"
  by (cases e) (auto simp: heartbeat_defs)

lemma run_lastInbound:
  "hb_lastInbound (heartbeat_run es h) = last_contact es (hb_generation h) (hb_lastInbound h)"
proof (induction es arbitrary: h)
  case (Cons e es)
  show ?case
    by (cases e) (simp_all add: Cons step_generation step_lastInbound del: heartbeat_step.simps)
qed simp

lemma tick_expired_iff:
  "snd (Heartbeat_tick now h) = EXPIRED \<longleftrightarrow> now - hb_lastInbound h \<ge> heartbeat_deadline"
  by (auto simp: Heartbeat_tick_def)

text \<open>At most one ping is in flight: queued or outstanding, never both.\<close>

definition Heartbeat_ok :: "Heartbeat \<Rightarrow> bool" where
  "Heartbeat_ok h \<longleftrightarrow> \<not> (hb_pingQueued h \<and> hb_pingOutstanding h)"

lemma Heartbeat_ok_new [simp]: "Heartbeat_ok (Heartbeat_new now g)"
  by (simp add: Heartbeat_ok_def Heartbeat_new_def)

lemma Heartbeat_ok_step: "Heartbeat_ok h \<Longrightarrow> Heartbeat_ok (heartbeat_step e h)"
  by (cases e) (auto simp: Heartbeat_ok_def heartbeat_defs)

interpretation probes: machine "\<lambda>e h. Some (heartbeat_step e h)" "\<lambda>_. True" Heartbeat_ok
  by unfold_locales (use Heartbeat_ok_step in auto)

lemma Heartbeat_ok_run: "Heartbeat_ok h \<Longrightarrow> Heartbeat_ok (heartbeat_run es h)"
  using probes.run_inv [of h es] by (simp add: run_events_total heartbeat_run_def list_all_iff)

definition no_activation :: "heartbeat_event list \<Rightarrow> bool" where
  "no_activation es \<longleftrightarrow> list_all (\<lambda>e. case e of Activated _ _ \<Rightarrow> False | _ \<Rightarrow> True) es"

lemma pings_spaced_from:
  assumes "no_activation es"
  shows "sorted_wrt (\<lambda>a b. b - a \<ge> probeInterval) (hb_lastProbe h # pings es h)"
  using assms
proof (induction es arbitrary: h)
  case (Cons e es)
  have IH: "sorted_wrt (\<lambda>a b. b - a \<ge> probeInterval)
      (hb_lastProbe (heartbeat_step e h) # pings es (heartbeat_step e h))"
    using Cons by (simp add: no_activation_def)
  show ?case
  proof (cases e)
    case (Ticked now)
    show ?thesis
    proof (cases "snd (Heartbeat_tick now h) = QUEUE_PING")
      case True
      then have probe: "hb_lastProbe (heartbeat_step e h) = now"
        and gap: "now - hb_lastProbe h \<ge> probeInterval"
        by (auto simp: Ticked Heartbeat_tick_def split: if_splits)
      let ?rest = "pings es (heartbeat_step e h)"
      have "probeInterval \<le> x - hb_lastProbe h" if "x \<in> set ?rest" for x
      proof -
        have "probeInterval \<le> x - now" using IH that by (simp add: probe)
        moreover have "0 \<le> probeInterval" by (simp add: probeInterval_def seconds_def)
        ultimately show ?thesis using gap by linarith
      qed
      moreover have "pings (e # es) h = now # ?rest" using True by (simp add: Ticked)
      ultimately show ?thesis using IH gap by (simp add: probe)
    next
      case False
      then have "heartbeat_step e h = h" by (auto simp: Ticked Heartbeat_tick_def split: if_splits)
      with IH False show ?thesis by (simp add: Ticked)
    qed
  next
    case (PingWritten g b)
    then have "hb_lastProbe (heartbeat_step e h) = hb_lastProbe h"
      by (simp add: Heartbeat_writeCompleted_def)
    with IH PingWritten show ?thesis by simp
  next
    case (Inbound now g)
    then have "hb_lastProbe (heartbeat_step e h) = hb_lastProbe h"
      by (simp add: Heartbeat_inbound_def)
    with IH Inbound show ?thesis by simp
  next
    case (Activated now g)
    with Cons.prems show ?thesis by (simp add: no_activation_def)
  qed
qed simp

section \<open>Properties\<close>

text \<open>C22: liveness of the heartbeat. Whatever happened before (ticks, ping completions, frames of
  this or of stale transports, reactivations), a tick reports expiry exactly when the current
  transport has been silent for at least 120 seconds; stale frames and ping writes never postpone
  it.\<close>

theorem heartbeat_expires_exactly:
  "snd (Heartbeat_tick now (heartbeat_run es (Heartbeat_new start g))) = EXPIRED
     \<longleftrightarrow> now - last_contact es g start \<ge> seconds 120"
  by (simp add: tick_expired_iff run_lastInbound Heartbeat_new_def heartbeat_deadline_def)

text \<open>the probes of one transport are at least 30 seconds apart, the first one at least
  30 seconds after activation, and no tick queues a ping while another is queued or unanswered.\<close>

theorem heartbeat_probes_spaced:
  assumes "no_activation es"
  shows "sorted_wrt (\<lambda>a b. b - a \<ge> seconds 30) (start # pings es (Heartbeat_new start g))
    \<and> (let h = heartbeat_run es (Heartbeat_new start g) in
        \<not> (hb_pingQueued h \<and> hb_pingOutstanding h)
        \<and> (hb_pingQueued h \<or> hb_pingOutstanding h \<longrightarrow>
             (\<forall>now. snd (Heartbeat_tick now h) \<noteq> QUEUE_PING)))"
  using pings_spaced_from [OF assms, of "Heartbeat_new start g"]
    Heartbeat_ok_run [of "Heartbeat_new start g" es]
  by (auto simp: probeInterval_def Heartbeat_new_def Heartbeat_ok_def Let_def Heartbeat_tick_def)

theorem heartbeat_probes_spaced_witness:
  "sorted_wrt (\<lambda>a b. b - a \<ge> seconds 30)
     (0 # pings [Ticked (seconds 30), PingWritten 7 True, Ticked (seconds 60),
                 Inbound (seconds 61) 7, Ticked (seconds 62)] (Heartbeat_new 0 7))"
proof -
  have "no_activation [Ticked (seconds 30), PingWritten 7 True, Ticked (seconds 60),
      Inbound (seconds 61) 7, Ticked (seconds 62)]"
    by (simp add: no_activation_def)
  from heartbeat_probes_spaced [OF this, of 0 7] show ?thesis by (rule conjunct1)
qed

end
