(* ===== verification/Dtos.thy ===== *)
theory Dtos
  imports Sessions
begin

text \<open>
  \<^verbatim>\<open>server/src/dto/DTOs.hpp\<close>: the transfer objects of the chat protocol. A DTO field is
  nullable, so every field is an \<open>option\<close>. \<^verbatim>\<open>MessageDto::history\<close> is a list of messages; the
  other fields sit in the record \<open>MessageBody\<close>, so that updates read as the field assignments
  of the source. Elements of a client's \<^verbatim>\<open>files\<close> list may themselves be null.
\<close>

datatype MessageCodes =
    CODE_INFO
  | CODE_PEER_JOINED
  | CODE_PEER_LEFT
  | CODE_PEER_MESSAGE
  | CODE_PEER_MESSAGE_FILE
  | CODE_PEER_IS_TYPING
  | CODE_FILE_SHARE
  | CODE_FILE_REQUEST_CHUNK
  | CODE_FILE_CHUNK_DATA
  | CODE_API_ERROR
  | CODE_SESSION_HELLO
  | CODE_SESSION_READY
  | CODE_MESSAGE_ACK
  | CODE_PEER_CONNECTION_STATE

primrec message_code_number :: "MessageCodes \<Rightarrow> int" where
  "message_code_number CODE_INFO = 0"
| "message_code_number CODE_PEER_JOINED = 1"
| "message_code_number CODE_PEER_LEFT = 2"
| "message_code_number CODE_PEER_MESSAGE = 3"
| "message_code_number CODE_PEER_MESSAGE_FILE = 4"
| "message_code_number CODE_PEER_IS_TYPING = 5"
| "message_code_number CODE_FILE_SHARE = 6"
| "message_code_number CODE_FILE_REQUEST_CHUNK = 7"
| "message_code_number CODE_FILE_CHUNK_DATA = 8"
| "message_code_number CODE_API_ERROR = 9"
| "message_code_number CODE_SESSION_HELLO = 10"
| "message_code_number CODE_SESSION_READY = 11"
| "message_code_number CODE_MESSAGE_ACK = 12"
| "message_code_number CODE_PEER_CONNECTION_STATE = 13"

lemma message_code_number_inject [simp]:
  "message_code_number c = message_code_number d \<longleftrightarrow> c = d"
  by (cases c; cases d) simp_all

text \<open>Codes are ordered by their wire number.\<close>

instantiation MessageCodes :: linorder
begin

definition less_eq_MessageCodes :: "MessageCodes \<Rightarrow> MessageCodes \<Rightarrow> bool" where
  "less_eq_MessageCodes c d \<longleftrightarrow> message_code_number c \<le> message_code_number d"

definition less_MessageCodes :: "MessageCodes \<Rightarrow> MessageCodes \<Rightarrow> bool" where
  "less_MessageCodes c d \<longleftrightarrow> message_code_number c < message_code_number d"

instance
  by standard (auto simp: less_eq_MessageCodes_def less_MessageCodes_def)

end

record PeerDto =
  pd_peerId :: "int option"
  pd_peerName :: "string option"

record FileDto =
  fd_clientFileId :: "int option"
  fd_serverFileId :: "int option"
  fd_name :: "string option"
  fd_size :: "int option"
  fd_mediaType :: "string option"
  fd_chunkPosition :: "int option"
  fd_chunkSize :: "int option"
  fd_subscriberId :: "int option"
  fd_chunkRequestId :: "u64 option"
  fd_available :: "bool option"
  fd_data :: "string option"

definition FileDto_createShared :: FileDto where
  "FileDto_createShared = \<lparr>fd_clientFileId = None, fd_serverFileId = None, fd_name = None,
     fd_size = None, fd_mediaType = None, fd_chunkPosition = None, fd_chunkSize = None,
     fd_subscriberId = None, fd_chunkRequestId = None, fd_available = None, fd_data = None\<rparr>"

record MessageBody =
  mb_peerId :: "int option"
  mb_peerName :: "string option"
  mb_code :: "MessageCodes option"
  mb_message :: "string option"
  mb_timestamp :: "int option"
  mb_serverSeq :: "u64 option"
  mb_lastServerSeq :: "u64 option"
  mb_latestServerSeq :: "u64 option"
  mb_protocolVersion :: "int option"
  mb_resumeToken :: "string option"
  mb_fileCapabilityId :: "string option"
  mb_clientMessageId :: "string option"
  mb_resumed :: "bool option"
  mb_resyncRequired :: "bool option"
  mb_connected :: "bool option"
  mb_peers :: "PeerDto list option"
  mb_files :: "FileDto option list option"

datatype MessageDto = MessageDto (msg_body: MessageBody) (msg_history: "MessageDto list option")

definition MessageBody_empty :: MessageBody where
  "MessageBody_empty = \<lparr>mb_peerId = None, mb_peerName = None, mb_code = None, mb_message = None,
     mb_timestamp = None, mb_serverSeq = None, mb_lastServerSeq = None, mb_latestServerSeq = None,
     mb_protocolVersion = None, mb_resumeToken = None, mb_fileCapabilityId = None,
     mb_clientMessageId = None, mb_resumed = None, mb_resyncRequired = None, mb_connected = None,
     mb_peers = None, mb_files = None\<rparr>"

text \<open>A message built by the server: \<^verbatim>\<open>createShared()\<close>, then assignments to the given code and
  further fields.\<close>

definition message :: "MessageCodes \<Rightarrow> (MessageBody \<Rightarrow> MessageBody) \<Rightarrow> MessageDto" where
  "message code assign = MessageDto (assign (MessageBody_empty\<lparr>mb_code := Some code\<rparr>)) None"

abbreviation msg_code :: "MessageDto \<Rightarrow> MessageCodes option" where
  "msg_code m \<equiv> mb_code (msg_body m)"

abbreviation msg_serverSeq :: "MessageDto \<Rightarrow> u64 option" where
  "msg_serverSeq m \<equiv> mb_serverSeq (msg_body m)"

definition set_body :: "(MessageBody \<Rightarrow> MessageBody) \<Rightarrow> MessageDto \<Rightarrow> MessageDto" where
  "set_body f m = MessageDto (f (msg_body m)) (msg_history m)"

lemma set_body_sel [simp]:
  "msg_body (set_body f m) = f (msg_body m)" "msg_history (set_body f m) = msg_history m"
  by (simp_all add: set_body_def)

definition set_serverSeq :: "u64 \<Rightarrow> MessageDto \<Rightarrow> MessageDto" where
  "set_serverSeq n = set_body (\<lambda>b. b\<lparr>mb_serverSeq := Some n\<rparr>)"

lemma set_serverSeq_sel [simp]:
  "msg_serverSeq (set_serverSeq n m) = Some n"
  "msg_code (set_serverSeq n m) = msg_code m"
  "mb_files (msg_body (set_serverSeq n m)) = mb_files (msg_body m)"
  by (simp_all add: set_serverSeq_def)

end
