(* ===== verification/Effects.thy ===== *)
theory Effects
  imports Dtos
begin

text \<open>
  What the room components share: references to heap objects, the statistics counters
  (\<^verbatim>\<open>server/src/utils/Statistics.hpp\<close>), the exceptions the code throws, and the effects an
  operation has outside the objects it updates. An operation returns its effects as a list, in
  program order.

  A \<^verbatim>\<open>std::shared_ptr\<close> is a reference: a natural number that addresses one object. The
  payload of an outbound frame is the message object itself; its serialised size is a parameter
  \<open>jsonBytes\<close> of the operations that measure it, because the JSON mapper belongs to oatpp.
\<close>

type_synonym socket_ref = nat
type_synonym peer_ref = nat
type_synonym room_ref = nat
type_synonym file_ref = nat
type_synonym subscriber_ref = nat

datatype Counter =
    EVENT_FRONT_PAGE_LOADED
  | EVENT_PEER_CONNECTED
  | EVENT_PEER_DISCONNECTED
  | EVENT_PEER_ZOMBIE_DROPPED
  | EVENT_PEER_TRANSPORT_CLOSED
  | EVENT_PEER_RESUMED
  | EVENT_SESSION_EXPIRED
  | EVENT_PEER_SEND_MESSAGE
  | EVENT_PEER_SHARE_FILE
  | EVENT_ROOM_CREATED
  | EVENT_ROOM_DELETED
  | FILE_SERVED_BYTES

type_synonym Counters = "Counter \<Rightarrow> u64"

definition Counters_new :: Counters where
  "Counters_new = (\<lambda>_. 0)"

definition counter_add :: "Counter \<Rightarrow> u64 \<Rightarrow> Counters \<Rightarrow> Counters" where
  "counter_add c n m = m(c := m c + n)"

text \<open>The exception classes the code distinguishes: \<^verbatim>\<open>std::overflow_error\<close> is a
  \<^verbatim>\<open>std::runtime_error\<close>, \<^verbatim>\<open>std::logic_error\<close> is not.\<close>

datatype exn = runtime_error string | overflow_error string | logic_error string

definition is_runtime_error :: "exn \<Rightarrow> bool" where
  "is_runtime_error e = (case e of logic_error _ \<Rightarrow> False | _ \<Rightarrow> True)"

datatype Effect =
    Invalidate socket_ref
  | WriteText socket_ref MessageDto
  | WriteClose socket_ref
  | WritePing socket_ref
  | WritePong socket_ref string
  | Count Counter

text \<open>The coroutine a listener callback hands back to the executor: nothing, a pong, or an error
  message followed by a close frame and an error that ends the connection. (Sending on a null socket
  would be undefined; handlers only run while the transport they were called for is current.)\<close>

datatype Starter =
    NoAction
  | SendPong socket_ref string
  | SendErrorThenClose "socket_ref option" MessageDto

definition starter_effects :: "Starter \<Rightarrow> Effect list" where
  "starter_effects s =
     (case s of
        NoAction \<Rightarrow> []
      | SendPong k m \<Rightarrow> [WritePong k m]
      | SendErrorThenClose (Some k) m \<Rightarrow> [WriteText k m, WriteClose k]
      | SendErrorThenClose None m \<Rightarrow> [])"

fun apply_effect :: "Effect \<Rightarrow> Counters \<Rightarrow> Counters" where
  "apply_effect (Count c) m = counter_add c 1 m"
| "apply_effect _ m = m"

definition count_of :: "Counter \<Rightarrow> Effect list \<Rightarrow> nat" where
  "count_of c es = length (filter (\<lambda>e. e = Count c) es)"

lemma count_of_simps [simp]:
  "count_of c [] = 0"
  "count_of c (e # es) = (if e = Count c then Suc (count_of c es) else count_of c es)"
  "count_of c (es @ fs) = count_of c es + count_of c fs"
  by (simp_all add: count_of_def)

end
