(* ===== verification/PeerTransport.thy ===== *)
theory PeerTransport
  imports Heartbeats Effects
begin

text \<open>
  The transport half of \<^verbatim>\<open>server/src/rooms/Peer.cpp\<close> and \<^verbatim>\<open>Peer.hpp\<close>: the state of a
  peer, its outbound queue and drain coroutine, the heartbeat probe, the binding of a peer to one
  transport generation, and the callbacks for control frames. Each operation is a function on one
  \<open>Peer\<close> that returns the updated peer and the effects on sockets and counters; the commands a
  peer handles are in \<open>PeerCommands\<close>.

  Coroutines that run on the executor are part of the state: \<open>p_drains\<close> holds one entry per
  live drain coroutine (\<open>None\<close> until its first action, then the frame it is writing) and
  \<open>p_pings\<close> the transport and generation of each ping being written. A step of one of them is
  an operation below, so that any interleaving is a list of operations. Log lines are not modelled.
\<close>

section \<open>State\<close>

datatype CloseReason =
    REASON_NONE | HEARTBEAT_TIMEOUT | WRITE_ERROR | PROTOCOL_ERROR | SERVER_SHUTDOWN | REMOTE_CLOSE

record OutboundFrame =
  of_socket :: socket_ref
  of_generation :: u64
  of_payload :: MessageDto

record Peer =
  p_messageBuffer :: string
  p_socket :: "socket_ref option"
  p_room :: room_ref
  p_nickname :: string
  p_peerId :: int
  p_heartbeat :: Heartbeat
  p_transportGeneration :: "socket_ref TransportGeneration"
  p_socketGeneration :: u64
  p_closeReason :: CloseReason
  p_closeAccounting :: TerminalCloseAccounting
  p_closeCode :: u16
  p_closeDetail :: string
  p_files :: "file_ref list"
  p_fileCapabilityId :: string
  p_dedupe :: DedupeWindow
  p_outboundFrames :: "OutboundFrame list"
  p_outboundBytes :: u64
  p_outboundDrainActive :: bool
  p_drains :: "OutboundFrame option list"
  p_pings :: "(socket_ref \<times> u64) list"

definition Peer_new :: "socket_ref \<Rightarrow> room_ref \<Rightarrow> string \<Rightarrow> int \<Rightarrow> time \<Rightarrow> Peer" where
  "Peer_new socket room nickname peerId now =
     (let (tg, generation) = TransportGeneration_replace (Some socket) TransportGeneration_new
      in \<lparr>p_messageBuffer = [], p_socket = Some socket, p_room = room, p_nickname = nickname,
          p_peerId = peerId, p_heartbeat = Heartbeat_new now 1, p_transportGeneration = tg,
          p_socketGeneration = generation, p_closeReason = REASON_NONE,
          p_closeAccounting = TerminalCloseAccounting_new, p_closeCode = 0, p_closeDetail = [],
          p_files = [], p_fileCapabilityId = [], p_dedupe = DedupeWindow_new maxDedupeEntries,
          p_outboundFrames = [], p_outboundBytes = 0, p_outboundDrainActive = False,
          p_drains = [], p_pings = []\<rparr>)"

section \<open>Close detail\<close>

definition utf8_length :: "nat \<Rightarrow> nat" where
  "utf8_length lead =
     (if lead < 0x80 then 1 else if lead \<ge> 0xc2 \<and> lead \<le> 0xdf then 2
      else if lead \<ge> 0xe0 \<and> lead \<le> 0xef then 3 else if lead \<ge> 0xf0 \<and> lead \<le> 0xf4 then 4 else 0)"

definition utf8_continuation :: "char \<Rightarrow> bool" where
  "utf8_continuation c \<longleftrightarrow> byte c AND 0xc0 = 0x80"

text \<open>One character at the head of the rest of the detail: its length when it is complete and its
  continuation bytes are in place.\<close>

definition utf8_valid_head :: "string \<Rightarrow> bool" where
  "utf8_valid_head rest =
     (case rest of
        [] \<Rightarrow> False
      | c # cs \<Rightarrow>
          (let len = utf8_length (byte c)
           in len \<noteq> 0 \<and> len \<le> length rest \<and> list_all utf8_continuation (take (len - 1) cs)))"

function boundedCloseDetail_loop :: "string \<Rightarrow> string \<Rightarrow> string" where
  "boundedCloseDetail_loop rest safe =
     (case rest of
        [] \<Rightarrow> safe
      | c # cs \<Rightarrow>
          if \<not> length safe < 120 then safe
          else
            let len = utf8_length (byte c)
            in if \<not> utf8_valid_head rest \<or> length safe + len > 120
               then boundedCloseDetail_loop cs (safe @ ''?'')
               else boundedCloseDetail_loop (drop len rest) (safe @ take len rest))"
  by pat_completeness auto
termination
  by (relation "measure (\<lambda>(rest, safe). length rest)") (auto simp: utf8_valid_head_def Let_def)

declare boundedCloseDetail_loop.simps [simp del]

definition boundedCloseDetail :: "string option \<Rightarrow> string" where
  "boundedCloseDetail detail =
     (case detail of None \<Rightarrow> [] | Some value \<Rightarrow> boundedCloseDetail_loop value [])"

section \<open>Closing a transport\<close>

definition Peer_selectCloseReasonLocked :: "CloseReason \<Rightarrow> Peer \<Rightarrow> Peer \<times> bool" where
  "Peer_selectCloseReasonLocked reason p =
     (let p = (if p_closeReason p = REASON_NONE then p\<lparr>p_closeReason := reason\<rparr> else p);
          (acc, first) = TerminalCloseAccounting_accountOnce (p_closeAccounting p)
      in (p\<lparr>p_closeAccounting := acc\<rparr>, first))"

definition Peer_recordProtocolError :: "Peer \<Rightarrow> Peer \<times> Effect list" where
  "Peer_recordProtocolError p =
     (let (p, accountClose) = Peer_selectCloseReasonLocked PROTOCOL_ERROR p
      in (p, if accountClose then [Count EVENT_PEER_TRANSPORT_CLOSED] else []))"

definition close_effects :: "socket_ref option \<Rightarrow> bool \<Rightarrow> Effect list" where
  "close_effects socket accountClose =
     (case socket of
        None \<Rightarrow> []
      | Some s \<Rightarrow>
          (if accountClose then [Count EVENT_PEER_TRANSPORT_CLOSED] else []) @ [Invalidate s])"

definition Peer_invalidateSocket :: "CloseReason \<Rightarrow> Peer \<Rightarrow> Peer \<times> Effect list" where
  "Peer_invalidateSocket reason p =
     (let (p, accountClose) = Peer_selectCloseReasonLocked reason p
      in (p, close_effects (p_socket p) accountClose))"

definition Peer_invalidateSocketIfCurrent ::
  "u64 \<Rightarrow> CloseReason \<Rightarrow> Peer \<Rightarrow> Peer \<times> Effect list \<times> bool" where
  "Peer_invalidateSocketIfCurrent generation reason p =
     (if generation \<noteq> p_socketGeneration p then (p, [], False)
      else
        let (p, accountClose) = Peer_selectCloseReasonLocked reason p
        in (p, close_effects (p_socket p) accountClose, p_socket p \<noteq> None))"

definition Peer_replaceSocket ::
  "socket_ref option \<Rightarrow> time \<Rightarrow> Peer \<Rightarrow> Peer \<times> socket_ref option" where
  "Peer_replaceSocket socket now p =
     (case socket of
        None \<Rightarrow> (p, None)
      | Some s \<Rightarrow>
          (let previous = p_socket p;
               (tg, generation) = TransportGeneration_replace (Some s) (p_transportGeneration p)
           in (p\<lparr>p_transportGeneration := tg, p_socketGeneration := generation,
                 p_socket := Some s, p_messageBuffer := [], p_closeReason := REASON_NONE,
                 p_closeAccounting := TerminalCloseAccounting_new,
                 p_heartbeat := Heartbeat_activate now generation (p_heartbeat p)\<rparr>, previous)))"

definition Peer_detachIfCurrent_at ::
  "socket_ref option \<Rightarrow> u64 \<Rightarrow> Peer \<Rightarrow> Peer \<times> bool" where
  "Peer_detachIfCurrent_at socket generation p =
     (if \<not> TransportGeneration_isCurrent socket generation (p_transportGeneration p)
         \<or> socket \<noteq> p_socket p then (p, False)
      else (p\<lparr>p_socket := None,
              p_transportGeneration := fst (TransportGeneration_detachIfCurrent socket generation
                                              (p_transportGeneration p))\<rparr>, True))"

definition Peer_detachIfCurrent :: "socket_ref option \<Rightarrow> Peer \<Rightarrow> Peer \<times> bool" where
  "Peer_detachIfCurrent socket p = Peer_detachIfCurrent_at socket (p_socketGeneration p) p"

section \<open>Outbound queue\<close>

definition maxOutboundFrames :: nat where "maxOutboundFrames = 256"
definition maxOutboundBytes :: u64 where "maxOutboundBytes = 2 * 1024 * 1024"

text \<open>\<^verbatim>\<open>startOutboundDrain\<close> hands a new drain coroutine to the executor.\<close>

definition Peer_startOutboundDrain :: "Peer \<Rightarrow> Peer" where
  "Peer_startOutboundDrain p = p\<lparr>p_drains := p_drains p @ [None]\<rparr>"

definition Peer_outboundOverflow :: "u64 \<Rightarrow> Peer \<Rightarrow> bool" where
  "Peer_outboundOverflow payloadBytes p \<longleftrightarrow>
     length (p_outboundFrames p) \<ge> maxOutboundFrames
     \<or> payloadBytes > maxOutboundBytes - min (p_outboundBytes p) maxOutboundBytes"

definition Peer_sendMessageAsync ::
  "(MessageDto \<Rightarrow> u64) \<Rightarrow> MessageDto \<Rightarrow> Peer \<Rightarrow> Peer \<times> Effect list" where
  "Peer_sendMessageAsync jsonBytes msg p =
     (case p_socket p of
        None \<Rightarrow> (p, [])
      | Some socket \<Rightarrow>
          let generation = p_socketGeneration p;
              payloadBytes = jsonBytes msg
          in if Peer_outboundOverflow payloadBytes p
             then
               let (p, es, b) = Peer_invalidateSocketIfCurrent generation WRITE_ERROR p in (p, es)
             else
               let frame = \<lparr>of_socket = socket, of_generation = generation, of_payload = msg\<rparr>;
                   startDrain = (\<not> p_outboundDrainActive p);
                   p = p\<lparr>p_outboundFrames := p_outboundFrames p @ [frame],
                         p_outboundBytes := p_outboundBytes p + payloadBytes,
                         p_outboundDrainActive := True\<rparr>
               in (if startDrain then Peer_startOutboundDrain p else p, []))"

definition Peer_takeOutboundFrame ::
  "(MessageDto \<Rightarrow> u64) \<Rightarrow> Peer \<Rightarrow> Peer \<times> OutboundFrame option" where
  "Peer_takeOutboundFrame jsonBytes p =
     (case p_outboundFrames p of
        [] \<Rightarrow> (p\<lparr>p_outboundDrainActive := False\<rparr>, None)
      | frame # rest \<Rightarrow>
          (p\<lparr>p_outboundFrames := rest,
             p_outboundBytes := p_outboundBytes p - jsonBytes (of_payload frame)\<rparr>, Some frame))"

definition Peer_isCurrentBinding :: "OutboundFrame \<Rightarrow> Peer \<Rightarrow> bool" where
  "Peer_isCurrentBinding frame p \<longleftrightarrow>
     Some (of_socket frame) = p_socket p \<and> of_generation frame = p_socketGeneration p"

text \<open>The loop of \<^verbatim>\<open>nextFrame\<close>: frames bound to another transport are skipped.\<close>

function Peer_nextFrame :: "(MessageDto \<Rightarrow> u64) \<Rightarrow> Peer \<Rightarrow> Peer \<times> OutboundFrame option" where
  "Peer_nextFrame jsonBytes p =
     (case Peer_takeOutboundFrame jsonBytes p of
        (p', None) \<Rightarrow> (p', None)
      | (p', Some frame) \<Rightarrow>
          if \<not> Peer_isCurrentBinding frame p' then Peer_nextFrame jsonBytes p'
          else (p', Some frame))"
  by pat_completeness auto
termination
  by (relation "measure (\<lambda>(j, p). length (p_outboundFrames p))")
     (auto simp: Peer_takeOutboundFrame_def split: list.splits)

declare Peer_nextFrame.simps [simp del]

definition remove_nth :: "nat \<Rightarrow> 'a list \<Rightarrow> 'a list" where
  "remove_nth i xs = take i xs @ drop (Suc i) xs"

text \<open>Drain coroutine \<open>i\<close> runs \<^verbatim>\<open>act\<close> or \<^verbatim>\<open>sent\<close>; both are \<^verbatim>\<open>nextFrame\<close>. It starts the
  write of the frame it found, or finishes.\<close>

definition Peer_drainStep :: "(MessageDto \<Rightarrow> u64) \<Rightarrow> nat \<Rightarrow> Peer \<Rightarrow> Peer \<times> Effect list" where
  "Peer_drainStep jsonBytes i p =
     (if i \<ge> length (p_drains p) then (p, [])
      else case Peer_nextFrame jsonBytes p of
        (p', None) \<Rightarrow> (p'\<lparr>p_drains := remove_nth i (p_drains p')\<rparr>, [])
      | (p', Some frame) \<Rightarrow>
          (p'\<lparr>p_drains := (p_drains p')[i := Some frame]\<rparr>,
           [WriteText (of_socket frame) (of_payload frame)]))"

text \<open>The write of drain coroutine \<open>i\<close> failed.\<close>

definition Peer_drainError :: "(MessageDto \<Rightarrow> u64) \<Rightarrow> nat \<Rightarrow> Peer \<Rightarrow> Peer \<times> Effect list" where
  "Peer_drainError jsonBytes i p =
     (if i \<ge> length (p_drains p) then (p, [])
      else case p_drains p ! i of
        None \<Rightarrow> (p, [])
      | Some frame \<Rightarrow>
          let (p, es, b) = Peer_invalidateSocketIfCurrent (of_generation frame) WRITE_ERROR p;
              (p, fs) = Peer_drainStep jsonBytes i p
          in (p, es @ fs))"

section \<open>Heartbeat probe\<close>

definition Peer_sendPingAsync :: "time \<Rightarrow> Peer \<Rightarrow> Peer \<times> Effect list \<times> Tick" where
  "Peer_sendPingAsync now p =
     (let (hb, tick) = Heartbeat_tick now (p_heartbeat p); p = p\<lparr>p_heartbeat := hb\<rparr>
      in if tick \<noteq> QUEUE_PING then (p, [], tick)
         else case p_socket p of
           Some socket \<Rightarrow>
             (p\<lparr>p_pings := p_pings p @ [(socket, p_socketGeneration p)]\<rparr>,
              [WritePing socket], QUEUE_PING)
         | None \<Rightarrow> (p, [], TICK_NONE))"

definition Peer_pingWriteCompleted :: "u64 \<Rightarrow> bool \<Rightarrow> Peer \<Rightarrow> Peer \<times> bool" where
  "Peer_pingWriteCompleted generation success p =
     (let (hb, r) = Heartbeat_writeCompleted generation success (p_heartbeat p)
      in (p\<lparr>p_heartbeat := hb\<rparr>, r))"

text \<open>Ping coroutine \<open>i\<close> ends: \<^verbatim>\<open>written\<close>, or \<^verbatim>\<open>handleError\<close>.\<close>

definition Peer_pingDone :: "nat \<Rightarrow> bool \<Rightarrow> Peer \<Rightarrow> Peer \<times> Effect list" where
  "Peer_pingDone i success p =
     (if i \<ge> length (p_pings p) then (p, [])
      else
        let generation = snd (p_pings p ! i);
            p = p\<lparr>p_pings := remove_nth i (p_pings p)\<rparr>;
            (p, completed) = Peer_pingWriteCompleted generation success p
        in if \<not> success \<and> completed
           then let (p, es, b) = Peer_invalidateSocketIfCurrent generation WRITE_ERROR p in (p, es)
           else (p, []))"

section \<open>Control frames\<close>

definition Peer_inbound :: "time \<Rightarrow> Peer \<Rightarrow> Peer" where
  "Peer_inbound now p =
     p\<lparr>p_heartbeat := fst (Heartbeat_inbound now (p_socketGeneration p) (p_heartbeat p))\<rparr>"

definition Peer_onPing :: "socket_ref \<Rightarrow> string \<Rightarrow> time \<Rightarrow> Peer \<Rightarrow> Peer \<times> Starter" where
  "Peer_onPing socket msg now p =
     (if Some socket \<noteq> p_socket p then (p, NoAction)
      else (Peer_inbound now p, SendPong socket msg))"

definition Peer_onPong :: "socket_ref \<Rightarrow> time \<Rightarrow> Peer \<Rightarrow> Peer \<times> Starter" where
  "Peer_onPong socket now p =
     (if Some socket = p_socket p then Peer_inbound now p else p, NoAction)"

definition Peer_onClose ::
  "socket_ref \<Rightarrow> u16 \<Rightarrow> string option \<Rightarrow> Peer \<Rightarrow> Peer \<times> Effect list" where
  "Peer_onClose socket code detail p =
     (if Some socket = p_socket p then
        let (p, accountClose) = Peer_selectCloseReasonLocked REMOTE_CLOSE p
        in (p\<lparr>p_closeCode := code, p_closeDetail := boundedCloseDetail detail\<rparr>,
            if accountClose then [Count EVENT_PEER_TRANSPORT_CLOSED] else [])
      else (p, []))"

section \<open>Shared files and page capability\<close>

definition Peer_addFiles :: "file_ref list \<Rightarrow> Peer \<Rightarrow> Peer" where
  "Peer_addFiles files p = p\<lparr>p_files := p_files p @ files\<rparr>"

definition Peer_getFilesSnapshot :: "Peer \<Rightarrow> file_ref list" where
  "Peer_getFilesSnapshot p = p_files p"

definition Peer_takeFilesSnapshot :: "Peer \<Rightarrow> Peer \<times> file_ref list" where
  "Peer_takeFilesSnapshot p = (p\<lparr>p_files := []\<rparr>, p_files p)"

definition Peer_setFileCapability :: "string option \<Rightarrow> Peer \<Rightarrow> Peer \<times> bool" where
  "Peer_setFileCapability capabilityId p =
     (let next = (case capabilityId of Some c \<Rightarrow> c | None \<Rightarrow> []);
          changed = (p_fileCapabilityId p \<noteq> [] \<and> p_fileCapabilityId p \<noteq> next)
      in (p\<lparr>p_fileCapabilityId := next\<rparr>, changed))"

section \<open>Runs of one peer\<close>

datatype peer_event =
    PeerSend MessageDto
  | PeerDrain nat
  | PeerDrainError nat
  | PeerTick time
  | PeerPingDone nat bool
  | PeerReplace socket_ref time
  | PeerDetach socket_ref
  | PeerInvalidate CloseReason
  | PeerInvalidateIf u64 CloseReason
  | PeerProtocolError
  | PeerOnPing socket_ref string time
  | PeerOnPong socket_ref time
  | PeerOnClose socket_ref u16 "string option"

fun Peer_step :: "(MessageDto \<Rightarrow> u64) \<Rightarrow> peer_event \<Rightarrow> Peer \<Rightarrow> Peer \<times> Effect list" where
  "Peer_step jb (PeerSend m) p = Peer_sendMessageAsync jb m p"
| "Peer_step jb (PeerDrain i) p = Peer_drainStep jb i p"
| "Peer_step jb (PeerDrainError i) p = Peer_drainError jb i p"
| "Peer_step jb (PeerTick now) p = (let (p, es, t) = Peer_sendPingAsync now p in (p, es))"
| "Peer_step jb (PeerPingDone i b) p = Peer_pingDone i b p"
| "Peer_step jb (PeerReplace s now) p = (fst (Peer_replaceSocket (Some s) now p), [])"
| "Peer_step jb (PeerDetach s) p = (fst (Peer_detachIfCurrent (Some s) p), [])"
| "Peer_step jb (PeerInvalidate r) p = Peer_invalidateSocket r p"
| "Peer_step jb (PeerInvalidateIf g r) p =
     (let (p, es, b) = Peer_invalidateSocketIfCurrent g r p in (p, es))"
| "Peer_step jb PeerProtocolError p = Peer_recordProtocolError p"
| "Peer_step jb (PeerOnPing s m now) p = (let (p, a) = Peer_onPing s m now p in (p, starter_effects a))"
| "Peer_step jb (PeerOnPong s now) p = (let (p, a) = Peer_onPong s now p in (p, starter_effects a))"
| "Peer_step jb (PeerOnClose s c d) p = Peer_onClose s c d p"

fun Peer_run :: "(MessageDto \<Rightarrow> u64) \<Rightarrow> peer_event list \<Rightarrow> Peer \<Rightarrow> Peer \<times> Effect list" where
  "Peer_run jb [] p = (p, [])"
| "Peer_run jb (e # evs) p =
     (let (p, es) = Peer_step jb e p; (p, fs) = Peer_run jb evs p in (p, es @ fs))"

lemma Peer_run_Cons:
  "Peer_run jb (e # evs) p =
     (fst (Peer_run jb evs (fst (Peer_step jb e p))),
      snd (Peer_step jb e p) @ snd (Peer_run jb evs (fst (Peer_step jb e p))))"
  by (simp split: prod.splits)

declare Peer_run.simps(2) [simp del]
declare Peer_run_Cons [simp]

section \<open>The drain loop in closed form\<close>

definition frames_bytes :: "(MessageDto \<Rightarrow> u64) \<Rightarrow> OutboundFrame list \<Rightarrow> u64" where
  "frames_bytes jb fs = sum_list (map (\<lambda>f. jb (of_payload f)) fs)"

definition frames_size :: "(MessageDto \<Rightarrow> u64) \<Rightarrow> OutboundFrame list \<Rightarrow> nat" where
  "frames_size jb fs = sum_list (map (\<lambda>f. unat (jb (of_payload f))) fs)"

lemma frames_simps [simp]:
  "frames_bytes jb [] = 0" "frames_size jb [] = 0"
  "frames_bytes jb (f # fs) = jb (of_payload f) + frames_bytes jb fs"
  "frames_size jb (f # fs) = unat (jb (of_payload f)) + frames_size jb fs"
  "frames_bytes jb (fs @ gs) = frames_bytes jb fs + frames_bytes jb gs"
  "frames_size jb (fs @ gs) = frames_size jb fs + frames_size jb gs"
  by (simp_all add: frames_bytes_def frames_size_def)

lemma unat_frames_bytes: "frames_size jb fs < 2 ^ 64 \<Longrightarrow> unat (frames_bytes jb fs) = frames_size jb fs"
  by (induction fs) (simp_all add: unat_word_ariths)

abbreviation stale_in :: "Peer \<Rightarrow> OutboundFrame \<Rightarrow> bool" where
  "stale_in p \<equiv> \<lambda>f. \<not> Peer_isCurrentBinding f p"

definition drain_result ::
  "(MessageDto \<Rightarrow> u64) \<Rightarrow> Peer \<Rightarrow> OutboundFrame list \<Rightarrow> Peer \<times> OutboundFrame option" where
  "drain_result jb p fresh =
     (case fresh of
        [] \<Rightarrow> (p\<lparr>p_outboundFrames := [],
                p_outboundBytes := p_outboundBytes p - frames_bytes jb (p_outboundFrames p),
                p_outboundDrainActive := False\<rparr>, None)
      | f # fs \<Rightarrow> (p\<lparr>p_outboundFrames := fs,
                p_outboundBytes := p_outboundBytes p
                  - (frames_bytes jb (p_outboundFrames p) - frames_bytes jb fs)\<rparr>, Some f))"

lemma nextFrame_closed:
  "Peer_nextFrame jb p = drain_result jb p (dropWhile (stale_in p) (p_outboundFrames p))"
proof (induction jb p rule: Peer_nextFrame.induct)
  case (1 jb p)
  show ?case
  proof (cases "p_outboundFrames p")
    case Nil
    then show ?thesis
      by (subst Peer_nextFrame.simps) (simp add: Peer_takeOutboundFrame_def drain_result_def)
  next
    case (Cons f fs)
    let ?q = "p\<lparr>p_outboundFrames := fs, p_outboundBytes := p_outboundBytes p - jb (of_payload f)\<rparr>"
    have take: "Peer_takeOutboundFrame jb p = (?q, Some f)"
      by (simp add: Peer_takeOutboundFrame_def Cons)
    have cur: "Peer_isCurrentBinding g ?q = Peer_isCurrentBinding g p" for g
      by (simp add: Peer_isCurrentBinding_def)
    show ?thesis
    proof (cases "Peer_isCurrentBinding f p")
      case True
      then show ?thesis
        by (subst Peer_nextFrame.simps) (simp add: take cur Cons drain_result_def)
    next
      case False
      then have "Peer_nextFrame jb p = Peer_nextFrame jb ?q"
        by (subst Peer_nextFrame.simps) (simp add: take cur)
      also have "\<dots> = drain_result jb ?q (dropWhile (stale_in p) fs)"
        using 1 [OF take [symmetric] refl] False by (simp add: cur)
      also have "\<dots> = drain_result jb p (dropWhile (stale_in p) fs)"
        unfolding drain_result_def
        by (rule list.case_cong [OF refl]) (simp_all add: Cons algebra_simps)
      finally show ?thesis
        using False by (simp add: Cons)
    qed
  qed
qed

section \<open>Invariant of the outbound queue\<close>

definition bytes_ok :: "(MessageDto \<Rightarrow> u64) \<Rightarrow> Peer \<Rightarrow> bool" where
  "bytes_ok jb p \<longleftrightarrow>
     length (p_outboundFrames p) \<le> maxOutboundFrames
   \<and> p_outboundBytes p = frames_bytes jb (p_outboundFrames p)
   \<and> frames_size jb (p_outboundFrames p) \<le> unat maxOutboundBytes"

definition drain_ok :: "Peer \<Rightarrow> bool" where
  "drain_ok p \<longleftrightarrow>
     length (p_drains p) = (if p_outboundDrainActive p then 1 else 0)
   \<and> (\<not> p_outboundDrainActive p \<longrightarrow> p_outboundFrames p = [])"

definition binding_ok :: "Peer \<Rightarrow> bool" where
  "binding_ok p \<longleftrightarrow>
     tg_current (p_transportGeneration p) = p_socket p
   \<and> tg_generation (p_transportGeneration p) = p_socketGeneration p
   \<and> hb_generation (p_heartbeat p) = p_socketGeneration p"

lemma max_bytes: "unat maxOutboundBytes = 2 * 1024 * 1024"
  by (simp add: maxOutboundBytes_def)

lemma enqueue_fits:
  assumes "bytes_ok jb p" and "\<not> Peer_outboundOverflow n p"
  shows "length (p_outboundFrames p) < maxOutboundFrames"
    and "frames_size jb (p_outboundFrames p) + unat n \<le> unat maxOutboundBytes"
proof -
  let ?b = "p_outboundBytes p"
  have b: "unat ?b = frames_size jb (p_outboundFrames p)" "unat ?b \<le> unat maxOutboundBytes"
    using assms(1) by (auto simp: bytes_ok_def unat_frames_bytes max_bytes)
  then have "?b \<le> maxOutboundBytes" by (simp add: word_le_nat_alt)
  then have "unat (maxOutboundBytes - min ?b maxOutboundBytes) = unat maxOutboundBytes - unat ?b"
    by (simp add: min_absorb1 unat_sub)
  moreover have "n \<le> maxOutboundBytes - min ?b maxOutboundBytes"
    using assms(2) by (auto simp: Peer_outboundOverflow_def)
  ultimately show "frames_size jb (p_outboundFrames p) + unat n \<le> unat maxOutboundBytes"
    using b by (simp add: word_le_nat_alt)
  show "length (p_outboundFrames p) < maxOutboundFrames"
    using assms(2) by (simp add: Peer_outboundOverflow_def)
qed

lemma length_remove_nth: "i < length xs \<Longrightarrow> length (remove_nth i xs) = length xs - 1"
  by (simp add: remove_nth_def)

lemma nextFrame_cases:
  assumes "Peer_nextFrame jb p = (q, r)"
  obtains (finished) "r = None" "list_all (stale_in p) (p_outboundFrames p)"
      "q = fst (drain_result jb p [])"
  | (found) f fs stale where "r = Some f" "Peer_isCurrentBinding f p"
      "p_outboundFrames p = stale @ f # fs" "list_all (stale_in p) stale"
      "q = fst (drain_result jb p (f # fs))"
proof -
  obtain ds where ds: "dropWhile (stale_in p) (p_outboundFrames p) = ds" by blast
  obtain st where st: "takeWhile (stale_in p) (p_outboundFrames p) = st" by blast
  have split: "p_outboundFrames p = st @ ds"
    using takeWhile_dropWhile_id [of "stale_in p" "p_outboundFrames p"] ds st by simp
  have stale: "list_all (stale_in p) st"
    using st by (auto simp: list_all_iff dest: set_takeWhileD)
  have q: "(q, r) = drain_result jb p ds" using assms ds by (simp add: nextFrame_closed)
  show ?thesis
  proof (cases ds)
    case Nil
    with q split stale show ?thesis by (intro finished) (simp_all add: drain_result_def)
  next
    case (Cons f fs)
    with ds have "\<not> stale_in p f" using hd_dropWhile [of "stale_in p" "p_outboundFrames p"] by simp
    with q split stale Cons show ?thesis by (intro found [of f st fs]) (simp_all add: drain_result_def)
  qed
qed

lemma nextFrame_bytes_ok:
  assumes "bytes_ok jb p" and "Peer_nextFrame jb p = (q, r)"
  shows "bytes_ok jb q"
  using assms(2)
proof (cases rule: nextFrame_cases)
  case finished
  with assms(1) show ?thesis by (simp add: bytes_ok_def drain_result_def)
next
  case (found f fs stale)
  with assms(1) show ?thesis by (simp add: bytes_ok_def drain_result_def)
qed

text \<open>The peer after a close has been classified.\<close>

definition closing :: "CloseReason \<Rightarrow> Peer \<Rightarrow> Peer" where
  "closing reason p =
     p\<lparr>p_closeReason := (if p_closeReason p = REASON_NONE then reason else p_closeReason p),
       p_closeAccounting := True\<rparr>"

lemma closing_sel [simp]:
  "p_outboundFrames (closing r p) = p_outboundFrames p"
  "p_outboundBytes (closing r p) = p_outboundBytes p"
  "p_outboundDrainActive (closing r p) = p_outboundDrainActive p"
  "p_drains (closing r p) = p_drains p" "p_pings (closing r p) = p_pings p"
  "p_socket (closing r p) = p_socket p" "p_socketGeneration (closing r p) = p_socketGeneration p"
  "p_transportGeneration (closing r p) = p_transportGeneration p"
  "p_heartbeat (closing r p) = p_heartbeat p" "p_closeAccounting (closing r p)"
  "p_files (closing r p) = p_files p" "p_dedupe (closing r p) = p_dedupe p"
  "p_room (closing r p) = p_room p" "p_peerId (closing r p) = p_peerId p"
  "p_nickname (closing r p) = p_nickname p" "p_messageBuffer (closing r p) = p_messageBuffer p"
  "p_fileCapabilityId (closing r p) = p_fileCapabilityId p"
  "p_closeReason (closing r p) = (if p_closeReason p = REASON_NONE then r else p_closeReason p)"
  by (simp_all add: closing_def)

lemma select_pair:
  "Peer_selectCloseReasonLocked reason p = (closing reason p, \<not> p_closeAccounting p)"
  by (auto simp: Peer_selectCloseReasonLocked_def TerminalCloseAccounting_accountOnce_def Let_def
      closing_def split: prod.splits if_splits)

lemma invalidateIf_pair:
  "Peer_invalidateSocketIfCurrent g reason p =
     (if g \<noteq> p_socketGeneration p then (p, [], False)
      else (closing reason p, close_effects (p_socket p) (\<not> p_closeAccounting p), p_socket p \<noteq> None))"
  by (simp add: Peer_invalidateSocketIfCurrent_def select_pair)

lemmas peer_transport_defs = Peer_invalidateSocket_def select_pair invalidateIf_pair
  Peer_recordProtocolError_def Peer_replaceSocket_def Peer_detachIfCurrent_def
  Peer_detachIfCurrent_at_def Peer_sendPingAsync_def Peer_pingDone_def
  Peer_pingWriteCompleted_def Peer_onPing_def Peer_onPong_def Peer_onClose_def Peer_inbound_def
  TransportGeneration_replace_def TransportGeneration_isCurrent_def
  TransportGeneration_detachIfCurrent_def

text \<open>The operations that leave the outbound queue alone.\<close>

fun queue_event :: "peer_event \<Rightarrow> bool" where
  "queue_event (PeerSend _) = True"
| "queue_event (PeerDrain _) = True"
| "queue_event (PeerDrainError _) = True"
| "queue_event _ = False"

lemma quiet_step:
  assumes "\<not> queue_event e" and "Peer_step jb e p = (q, es)"
  shows "p_outboundFrames q = p_outboundFrames p \<and> p_outboundBytes q = p_outboundBytes p
    \<and> p_outboundDrainActive q = p_outboundDrainActive p \<and> p_drains q = p_drains p"
  using assms
  by (cases e) (auto simp: peer_transport_defs Let_def split: prod.splits option.splits if_splits)

lemma drainStep_ok:
  assumes "bytes_ok jb p" and "drain_ok p" and "Peer_drainStep jb i p = (q, es)"
  shows "bytes_ok jb q \<and> drain_ok q"
proof (cases "i < length (p_drains p)")
  case False
  with assms show ?thesis by (simp add: Peer_drainStep_def)
next
  case True
  with assms(2) have one: "length (p_drains p) = 1" "i = 0" "p_outboundDrainActive p"
    by (auto simp: drain_ok_def split: if_splits)
  obtain p' r where nf: "Peer_nextFrame jb p = (p', r)" by (cases "Peer_nextFrame jb p")
  have ok: "bytes_ok jb p'" by (rule nextFrame_bytes_ok [OF assms(1) nf])
  from nf show ?thesis
  proof (cases rule: nextFrame_cases)
    case finished
    with assms(3) nf True have "q = p'\<lparr>p_drains := remove_nth i (p_drains p')\<rparr>"
      by (simp add: Peer_drainStep_def)
    with ok finished one show ?thesis
      by (simp add: bytes_ok_def drain_ok_def drain_result_def remove_nth_def)
  next
    case (found f fs stale)
    with assms(3) nf True have "q = p'\<lparr>p_drains := (p_drains p')[i := Some f]\<rparr>"
      by (simp add: Peer_drainStep_def)
    with ok found one show ?thesis
      by (simp add: bytes_ok_def drain_ok_def drain_result_def)
  qed
qed

lemma closing_ok [simp]:
  "bytes_ok jb (closing r p) = bytes_ok jb p" "drain_ok (closing r p) = drain_ok p"
  "binding_ok (closing r p) = binding_ok p"
  by (simp_all add: bytes_ok_def drain_ok_def binding_ok_def)

lemma send_ok:
  assumes "bytes_ok jb p" and "drain_ok p" and "Peer_sendMessageAsync jb m p = (q, es)"
  shows "bytes_ok jb q \<and> drain_ok q"
proof (cases "p_socket p = None \<or> Peer_outboundOverflow (jb m) p")
  case True
  with assms show ?thesis
    by (auto simp: Peer_sendMessageAsync_def Let_def invalidateIf_pair split: option.splits)
next
  case False
  then obtain s where s: "p_socket p = Some s" and room: "\<not> Peer_outboundOverflow (jb m) p" by auto
  from enqueue_fits [OF assms(1) room] assms s room show ?thesis
    by (auto simp: Peer_sendMessageAsync_def Let_def Peer_startOutboundDrain_def bytes_ok_def
        drain_ok_def split: if_splits)
qed

lemma drainError_cases:
  assumes "Peer_drainError jb i p = (q, es)"
  obtains (skipped) "q = p" "es = []"
  | (stale) f where "Peer_drainStep jb i p = (q, es)"
      "of_generation f \<noteq> p_socketGeneration p" "i < length (p_drains p)" "p_drains p ! i = Some f"
  | (current) f fs where
      "Peer_drainStep jb i (closing WRITE_ERROR p) = (q, fs)"
      "es = close_effects (p_socket p) (\<not> p_closeAccounting p) @ fs"
      "of_generation f = p_socketGeneration p" "i < length (p_drains p)" "p_drains p ! i = Some f"
proof (cases "i < length (p_drains p)")
  case False
  with assms show ?thesis by (intro skipped) (simp_all add: Peer_drainError_def)
next
  case True
  show ?thesis
  proof (cases "p_drains p ! i")
    case None
    with assms True show ?thesis by (intro skipped) (simp_all add: Peer_drainError_def)
  next
    case (Some f)
    show ?thesis
    proof (cases "of_generation f = p_socketGeneration p")
      case False
      with assms True Some show ?thesis
        by (intro stale [of f]) (simp_all add: Peer_drainError_def invalidateIf_pair split: prod.splits)
    next
      case cur: True
      with assms True Some show ?thesis
        by (intro current [of "snd (Peer_drainStep jb i (closing WRITE_ERROR p))" f])
          (auto simp: Peer_drainError_def invalidateIf_pair split: prod.splits)
    qed
  qed
qed

lemma Peer_step_queue_ok:
  assumes "bytes_ok jb p" and "drain_ok p" and "Peer_step jb e p = (q, es)"
  shows "bytes_ok jb q \<and> drain_ok q"
proof (cases "queue_event e")
  case False
  from quiet_step [OF this assms(3)] assms(1,2) show ?thesis
    by (simp add: bytes_ok_def drain_ok_def)
next
  case True
  then consider m where "e = PeerSend m" | i where "e = PeerDrain i" | i where "e = PeerDrainError i"
    by (cases e) auto
  then show ?thesis
  proof cases
    case 1
    with assms(3) have "Peer_sendMessageAsync jb m p = (q, es)" by simp
    then show ?thesis by (rule send_ok [OF assms(1,2)])
  next
    case 2
    with assms(3) have "Peer_drainStep jb i p = (q, es)" by simp
    then show ?thesis by (rule drainStep_ok [OF assms(1,2)])
  next
    case 3
    with assms(3) have "Peer_drainError jb i p = (q, es)" by simp
    then show ?thesis
    proof (cases rule: drainError_cases)
      case skipped
      with assms show ?thesis by simp
    next
      case (stale f)
      show ?thesis by (rule drainStep_ok [OF assms(1,2) stale(1)])
    next
      case (current f fs)
      with drainStep_ok [OF _ _ current(1)] assms(1,2) show ?thesis by simp
    qed
  qed
qed

lemma Peer_run_queue_ok:
  "bytes_ok jb p \<Longrightarrow> drain_ok p \<Longrightarrow> bytes_ok jb (fst (Peer_run jb evs p)) \<and> drain_ok (fst (Peer_run jb evs p))"
proof (induction evs arbitrary: p)
  case (Cons e evs)
  obtain q es where step: "Peer_step jb e p = (q, es)" by (cases "Peer_step jb e p")
  from Peer_step_queue_ok [OF Cons.prems step] Cons.IH [of q] show ?case
    by (simp add: step)
qed simp

lemma Peer_new_ok [simp]:
  "bytes_ok jb (Peer_new s r n i now)" "drain_ok (Peer_new s r n i now)" "binding_ok (Peer_new s r n i now)"
  by (simp_all add: Peer_new_def bytes_ok_def drain_ok_def binding_ok_def Let_def
      TransportGeneration_replace_def TransportGeneration_new_def Heartbeat_new_def)

section \<open>Invariant of the transport binding\<close>

lemma heartbeat_generation [simp]:
  "hb_generation (fst (Heartbeat_tick now h)) = hb_generation h"
  "hb_generation (fst (Heartbeat_writeCompleted g b h)) = hb_generation h"
  "hb_generation (fst (Heartbeat_inbound now g h)) = hb_generation h"
  "hb_generation (Heartbeat_activate now g h) = g"
  by (simp_all add: heartbeat_defs)

lemma heartbeat_generation_of:
  "Heartbeat_tick now h = (h', t) \<Longrightarrow> hb_generation h' = hb_generation h"
  "Heartbeat_writeCompleted g b h = (h', c) \<Longrightarrow> hb_generation h' = hb_generation h"
  "Heartbeat_inbound now g h = (h', c) \<Longrightarrow> hb_generation h' = hb_generation h"
  using heartbeat_generation by (metis fst_conv)+

lemma nextFrame_binding:
  "Peer_nextFrame jb p = (q, r) \<Longrightarrow>
     p_socket q = p_socket p \<and> p_socketGeneration q = p_socketGeneration p
   \<and> p_transportGeneration q = p_transportGeneration p \<and> p_heartbeat q = p_heartbeat p
   \<and> p_closeReason q = p_closeReason p \<and> p_closeAccounting q = p_closeAccounting p"
  by (auto simp: nextFrame_closed drain_result_def split: list.splits)

lemma drainStep_binding:
  assumes "Peer_drainStep jb i p = (q, es)"
  shows "p_socket q = p_socket p \<and> p_socketGeneration q = p_socketGeneration p
   \<and> p_transportGeneration q = p_transportGeneration p \<and> p_heartbeat q = p_heartbeat p
   \<and> p_closeReason q = p_closeReason p \<and> p_closeAccounting q = p_closeAccounting p"
  using assms nextFrame_binding [of jb p]
  by (fastforce simp: Peer_drainStep_def split: if_splits prod.splits option.splits)

lemma Peer_step_binding_ok:
  assumes "binding_ok p" and "Peer_step jb e p = (q, es)"
  shows "binding_ok q"
proof (cases "queue_event e")
  case False
  with assms show ?thesis
    by (cases e) (auto simp: binding_ok_def peer_transport_defs Let_def
        split: prod.splits option.splits if_splits dest!: heartbeat_generation_of)
next
  case True
  then consider m where "e = PeerSend m" | i where "e = PeerDrain i" | i where "e = PeerDrainError i"
    by (cases e) auto
  then show ?thesis
  proof cases
    case (1 m)
    with assms show ?thesis
      by (auto simp: Peer_sendMessageAsync_def Let_def invalidateIf_pair binding_ok_def
          Peer_startOutboundDrain_def split: option.splits if_splits)
  next
    case (2 i)
    with assms(2) have "Peer_drainStep jb i p = (q, es)" by simp
    from drainStep_binding [OF this] assms(1) show ?thesis by (simp add: binding_ok_def)
  next
    case (3 i)
    with assms(2) have "Peer_drainError jb i p = (q, es)" by simp
    then show ?thesis
    proof (cases rule: drainError_cases)
      case skipped
      with assms show ?thesis by simp
    next
      case (stale f)
      from drainStep_binding [OF this(1)] assms(1) show ?thesis by (simp add: binding_ok_def)
    next
      case (current f fs)
      from drainStep_binding [OF this(1)] assms(1) show ?thesis by (simp add: binding_ok_def)
    qed
  qed
qed

lemma Peer_run_binding_ok: "binding_ok p \<Longrightarrow> binding_ok (fst (Peer_run jb evs p))"
proof (induction evs arbitrary: p)
  case (Cons e evs)
  obtain q es where step: "Peer_step jb e p = (q, es)" by (cases "Peer_step jb e p")
  from Peer_step_binding_ok [OF Cons.prems step] Cons.IH [of q] show ?case by (simp add: step)
qed simp

section \<open>Exact delivery\<close>

fun rebinds :: "peer_event \<Rightarrow> bool" where
  "rebinds (PeerReplace _ _) = True"
| "rebinds (PeerDetach _) = True"
| "rebinds _ = False"

text \<open>The text frames among some effects, the messages queued for the current transport, and the
  messages a run accepted for sending.\<close>

fun texts :: "Effect list \<Rightarrow> (socket_ref \<times> MessageDto) list" where
  "texts [] = []"
| "texts (WriteText s m # es) = (s, m) # texts es"
| "texts (_ # es) = texts es"

lemma texts_append [simp]: "texts (es @ fs) = texts es @ texts fs"
  by (induction es rule: texts.induct) simp_all

lemma texts_close [simp]: "texts (close_effects s b) = []"
  by (simp add: close_effects_def split: option.split)

definition queued :: "Peer \<Rightarrow> MessageDto list" where
  "queued p = map of_payload (filter (\<lambda>f. Peer_isCurrentBinding f p) (p_outboundFrames p))"

fun accepted_now :: "(MessageDto \<Rightarrow> u64) \<Rightarrow> peer_event \<Rightarrow> Peer \<Rightarrow> MessageDto list" where
  "accepted_now jb (PeerSend m) p =
     (if p_socket p \<noteq> None \<and> \<not> Peer_outboundOverflow (jb m) p then [m] else [])"
| "accepted_now jb _ p = []"

fun accepted :: "(MessageDto \<Rightarrow> u64) \<Rightarrow> peer_event list \<Rightarrow> Peer \<Rightarrow> MessageDto list" where
  "accepted jb [] p = []"
| "accepted jb (e # evs) p = accepted_now jb e p @ accepted jb evs (fst (Peer_step jb e p))"

lemma binding_cong:
  "p_socket q = p_socket p \<Longrightarrow> p_socketGeneration q = p_socketGeneration p \<Longrightarrow>
     Peer_isCurrentBinding f q = Peer_isCurrentBinding f p"
  by (simp add: Peer_isCurrentBinding_def)

lemma queued_cong:
  "p_socket q = p_socket p \<Longrightarrow> p_socketGeneration q = p_socketGeneration p \<Longrightarrow>
     p_outboundFrames q = p_outboundFrames p \<Longrightarrow> queued q = queued p"
  by (simp add: queued_def Peer_isCurrentBinding_def)

lemma queued_closing [simp]: "queued (closing r p) = queued p"
  by (rule queued_cong) simp_all

lemma drainStep_texts:
  assumes "Peer_drainStep jb i p = (q, es)" and "p_socket p = Some s"
  shows "map (Pair s) (queued p) = texts es @ map (Pair s) (queued q)"
proof (cases "i < length (p_drains p)")
  case False
  with assms show ?thesis by (simp add: Peer_drainStep_def)
next
  case True
  obtain p' r where nf: "Peer_nextFrame jb p = (p', r)" by (cases "Peer_nextFrame jb p")
  note same = nextFrame_binding [OF nf]
  from nf show ?thesis
  proof (cases rule: nextFrame_cases)
    case finished
    then have "queued p = []" by (auto simp: queued_def list_all_iff filter_empty_conv)
    moreover have "q = p'\<lparr>p_drains := remove_nth i (p_drains p')\<rparr>" "es = []"
      using assms(1) nf True finished by (simp_all add: Peer_drainStep_def)
    moreover have "p_outboundFrames p' = []" using finished by (simp add: drain_result_def)
    ultimately show ?thesis by (simp add: queued_def)
  next
    case (found f fs stale)
    have q: "q = p'\<lparr>p_drains := (p_drains p')[i := Some f]\<rparr>"
      and es: "es = [WriteText (of_socket f) (of_payload f)]"
      using assms(1) nf True found by (simp_all add: Peer_drainStep_def)
    have "of_socket f = s" using found(2) assms(2) by (simp add: Peer_isCurrentBinding_def)
    moreover have "queued p = of_payload f # map of_payload (filter (\<lambda>f. Peer_isCurrentBinding f p) fs)"
      using found by (auto simp: queued_def list_all_iff filter_empty_conv)
    moreover have "queued q = map of_payload (filter (\<lambda>f. Peer_isCurrentBinding f p) fs)"
      using found(5) same by (simp add: q queued_def drain_result_def Peer_isCurrentBinding_def)
    ultimately show ?thesis by (simp add: es)
  qed
qed

lemma quiet_texts:
  assumes "\<not> queue_event e" and "\<not> rebinds e" and "Peer_step jb e p = (q, es)"
  shows "texts es = [] \<and> p_socket q = p_socket p \<and> p_socketGeneration q = p_socketGeneration p"
  using assms
  by (cases e) (auto simp: peer_transport_defs Let_def starter_effects_def
      split: prod.splits option.splits if_splits)

lemma Peer_step_texts:
  assumes "\<not> rebinds e" and "Peer_step jb e p = (q, es)" and "p_socket p = Some s"
  shows "map (Pair s) (queued p @ accepted_now jb e p) = texts es @ map (Pair s) (queued q)
    \<and> p_socket q = Some s"
proof (cases "queue_event e")
  case False
  note quiet = quiet_texts [OF False assms(1,2)] quiet_step [OF False assms(2)]
  then have "queued q = queued p" by (intro queued_cong) auto
  moreover have "accepted_now jb e p = []" using False by (cases e) simp_all
  ultimately show ?thesis using quiet assms(3) by simp
next
  case True
  then consider m where "e = PeerSend m" | i where "e = PeerDrain i" | i where "e = PeerDrainError i"
    by (cases e) auto
  then show ?thesis
  proof cases
    case (1 m)
    show ?thesis
    proof (cases "Peer_outboundOverflow (jb m) p")
      case True
      with assms 1 show ?thesis
        by (simp add: Peer_sendMessageAsync_def Let_def invalidateIf_pair split: prod.splits)
          (metis append_Nil queued_closing closing_sel(6) texts_close)
    next
      case False
      let ?f = "\<lparr>of_socket = s, of_generation = p_socketGeneration p, of_payload = m\<rparr>"
      have q: "p_outboundFrames q = p_outboundFrames p @ [?f]" "p_socket q = p_socket p"
        "p_socketGeneration q = p_socketGeneration p" "es = []"
        using assms 1 False
        by (auto simp: Peer_sendMessageAsync_def Let_def Peer_startOutboundDrain_def split: if_splits)
      then have "queued q = queued p @ [m]"
        using assms(3) by (simp add: queued_def Peer_isCurrentBinding_def)
      with q assms(3) 1 False show ?thesis by simp
    qed
  next
    case (2 i)
    with assms(2) have d: "Peer_drainStep jb i p = (q, es)" by simp
    from drainStep_texts [OF d assms(3)] drainStep_binding [OF d] assms(3) 2 show ?thesis by simp
  next
    case (3 i)
    with assms(2) have "Peer_drainError jb i p = (q, es)" by simp
    then show ?thesis
    proof (cases rule: drainError_cases)
      case skipped
      with assms 3 show ?thesis by simp
    next
      case (stale f)
      from drainStep_texts [OF stale(1) assms(3)] drainStep_binding [OF stale(1)] assms(3) 3
      show ?thesis by simp
    next
      case (current f fs)
      from drainStep_texts [OF current(1)] drainStep_binding [OF current(1)] assms(3) 3 current(2)
      show ?thesis by simp
    qed
  qed
qed

lemma Peer_run_texts:
  assumes "list_all (\<lambda>e. \<not> rebinds e) evs" and "p_socket p = Some s"
  shows "map (Pair s) (queued p @ accepted jb evs p)
      = texts (snd (Peer_run jb evs p)) @ map (Pair s) (queued (fst (Peer_run jb evs p)))"
  using assms
proof (induction evs arbitrary: p)
  case (Cons e evs)
  obtain q es where step: "Peer_step jb e p = (q, es)" by (cases "Peer_step jb e p")
  have e: "\<not> rebinds e" using Cons.prems by simp
  note one = Peer_step_texts [OF e step Cons.prems(2)]
  have "map (Pair s) (queued q @ accepted jb evs q)
      = texts (snd (Peer_run jb evs q)) @ map (Pair s) (queued (fst (Peer_run jb evs q)))"
    using Cons.IH [of q] Cons.prems one by simp
  with one show ?case by (simp add: step) (metis append_assoc map_append)
qed simp

section \<open>Close accounting\<close>

definition is_replace :: "peer_event \<Rightarrow> bool" where
  "is_replace e = (case e of PeerReplace _ _ \<Rightarrow> True | _ \<Rightarrow> False)"

definition accounted :: "Peer \<Rightarrow> nat" where
  "accounted p = (if p_closeAccounting p then 1 else 0)"

lemma count_close [simp]:
  "count_of EVENT_PEER_TRANSPORT_CLOSED (close_effects s b) = (if s \<noteq> None \<and> b then 1 else 0)"
  by (simp add: close_effects_def split: option.split)

lemma drainStep_count:
  "Peer_drainStep jb i p = (q, es) \<Longrightarrow> count_of c es = 0"
  by (auto simp: Peer_drainStep_def split: if_splits prod.splits option.splits)

lemma Peer_step_accounting:
  assumes "Peer_step jb e p = (q, es)"
  shows "count_of EVENT_PEER_TRANSPORT_CLOSED es + accounted p
      \<le> accounted q + (if is_replace e then 1 else 0)
    \<and> (\<not> is_replace e \<longrightarrow> p_closeReason p \<noteq> REASON_NONE \<longrightarrow> p_closeReason q = p_closeReason p)"
proof -
  consider m where "e = PeerSend m" | i where "e = PeerDrain i" | i where "e = PeerDrainError i"
    | "\<not> queue_event e" by (cases e) auto
  then show ?thesis
  proof cases
    case (1 m)
    with assms show ?thesis
      by (auto simp: Peer_sendMessageAsync_def Let_def invalidateIf_pair accounted_def
          Peer_startOutboundDrain_def split: option.splits if_splits)
  next
    case (2 i)
    with assms have "Peer_drainStep jb i p = (q, es)" by simp
    from drainStep_binding [OF this] drainStep_count [OF this] 2 show ?thesis
      by (simp add: accounted_def)
  next
    case (3 i)
    with assms have "Peer_drainError jb i p = (q, es)" by simp
    then show ?thesis
    proof (cases rule: drainError_cases)
      case skipped
      then show ?thesis by simp
    next
      case (stale f)
      from drainStep_binding [OF stale(1)] drainStep_count [OF stale(1)] 3 show ?thesis
        by (simp add: accounted_def)
    next
      case (current f fs)
      from drainStep_binding [OF current(1)] drainStep_count [OF current(1)] 3 current(2)
      show ?thesis by (simp add: accounted_def)
    qed
  next
    case 4
    with assms show ?thesis
      by (cases e) (auto simp: peer_transport_defs Let_def starter_effects_def accounted_def
          is_replace_def split: prod.splits option.splits if_splits)
  qed
qed

lemma Peer_run_accounting:
  "count_of EVENT_PEER_TRANSPORT_CLOSED (snd (Peer_run jb evs p)) + accounted p
     \<le> accounted (fst (Peer_run jb evs p)) + length (filter is_replace evs)"
proof (induction evs arbitrary: p)
  case (Cons e evs)
  obtain q es where step: "Peer_step jb e p = (q, es)" by (cases "Peer_step jb e p")
  from Peer_step_accounting [OF step] Cons.IH [of q] show ?case by (auto simp: step)
qed simp

lemma Peer_run_first_reason:
  "list_all (\<lambda>e. \<not> is_replace e) evs \<Longrightarrow> p_closeReason p \<noteq> REASON_NONE \<Longrightarrow>
     p_closeReason (fst (Peer_run jb evs p)) = p_closeReason p"
proof (induction evs arbitrary: p)
  case (Cons e evs)
  obtain q es where step: "Peer_step jb e p = (q, es)" by (cases "Peer_step jb e p")
  from Peer_step_accounting [OF step] Cons.IH [of q] Cons.prems show ?case by (simp add: step)
qed simp

section \<open>Well-formed close details\<close>

text \<open>Texts made of complete sequences, as the lead byte announces them.\<close>

function utf8_text :: "string \<Rightarrow> bool" where
  "utf8_text s =
     (case s of [] \<Rightarrow> True
      | c # cs \<Rightarrow> utf8_valid_head s \<and> utf8_text (drop (utf8_length (byte c) - 1) cs))"
  by pat_completeness auto
termination
  by (relation "measure length") auto

declare utf8_text.simps [simp del]

lemma utf8_Nil [simp]: "utf8_text []"
  by (simp add: utf8_text.simps)

lemma utf8_head_append: "utf8_valid_head s \<Longrightarrow> utf8_valid_head (s @ t)"
  by (auto simp: utf8_valid_head_def Let_def split: list.splits)

lemma utf8_append: "utf8_text s \<Longrightarrow> utf8_text t \<Longrightarrow> utf8_text (s @ t)"
proof (induction s rule: utf8_text.induct)
  case (1 s)
  show ?case
  proof (cases s)
    case (Cons c cs)
    have head: "utf8_valid_head s" and tl: "utf8_text (drop (utf8_length (byte c) - 1) cs)"
      using "1.prems"(1) utf8_text.simps [of s] by (simp_all add: Cons)
    have "utf8_length (byte c) - 1 \<le> length cs"
      using head by (auto simp: Cons utf8_valid_head_def Let_def)
    moreover have "utf8_text (drop (utf8_length (byte c) - 1) cs @ t)"
      using "1.IH" [OF Cons tl "1.prems"(2)] .
    ultimately show ?thesis
      using utf8_head_append [OF head, of t] by (subst utf8_text.simps) (simp add: Cons)
  qed (use "1.prems" in simp)
qed

lemma utf8_take_head:
  assumes "utf8_valid_head (c # cs)"
  shows "utf8_text (take (utf8_length (byte c)) (c # cs))"
proof -
  let ?n = "utf8_length (byte c)"
  from assms have n: "0 < ?n" "?n - 1 \<le> length cs" "list_all utf8_continuation (take (?n - 1) cs)"
    by (auto simp: utf8_valid_head_def Let_def)
  then have "take ?n (c # cs) = c # take (?n - 1) cs" by (cases ?n) simp_all
  moreover have "utf8_valid_head (c # take (?n - 1) cs)"
    using n by (auto simp: utf8_valid_head_def Let_def min_def)
  ultimately show ?thesis by (subst utf8_text.simps) simp
qed

lemma utf8_question: "utf8_text ''?''"
  by (simp add: utf8_text.simps utf8_valid_head_def utf8_length_def byte_def)

lemma close_detail_loop:
  "utf8_text safe \<Longrightarrow> length safe \<le> 120 \<Longrightarrow>
     utf8_text (boundedCloseDetail_loop rest safe) \<and> length (boundedCloseDetail_loop rest safe) \<le> 120
   \<and> (utf8_text rest \<longrightarrow> length safe + length rest \<le> 120 \<longrightarrow> boundedCloseDetail_loop rest safe = safe @ rest)"
proof (induction rest safe rule: boundedCloseDetail_loop.induct)
  case (1 rest safe)
  show ?case
  proof (cases rest)
    case Nil
    with "1.prems" show ?thesis by (subst (1 2 3) boundedCloseDetail_loop.simps) simp
  next
    case (Cons c cs)
    let ?n = "utf8_length (byte c)"
    show ?thesis
    proof (cases "length safe < 120")
      case False
      then have "boundedCloseDetail_loop rest safe = safe"
        by (subst boundedCloseDetail_loop.simps) (simp add: Cons)
      with "1.prems" False Cons show ?thesis by simp
    next
      case room: True
      show ?thesis
      proof (cases "\<not> utf8_valid_head rest \<or> length safe + ?n > 120")
        case True
        then have eq: "boundedCloseDetail_loop rest safe = boundedCloseDetail_loop cs (safe @ ''?'')"
          using room by (subst boundedCloseDetail_loop.simps) (simp add: Cons)
        have "utf8_text rest \<longrightarrow> \<not> length safe + length rest \<le> 120"
        proof
          assume "utf8_text rest"
          then have "utf8_valid_head rest" using utf8_text.simps [of rest] by (simp add: Cons)
          moreover from this have "?n \<le> length rest" by (auto simp: Cons utf8_valid_head_def Let_def)
          ultimately show "\<not> length safe + length rest \<le> 120" using True by simp
        qed
        moreover have "utf8_text (safe @ ''?'')" "length (safe @ ''?'') \<le> 120"
          using "1.prems" room by (simp_all add: utf8_append utf8_question)
        ultimately show ?thesis
          using "1.IH"(1) [OF Cons _ refl] room True by (simp add: eq)
      next
        case False
        then have head: "utf8_valid_head rest" and fits: "length safe + ?n \<le> 120" by simp_all
        have eq: "boundedCloseDetail_loop rest safe
            = boundedCloseDetail_loop (drop ?n rest) (safe @ take ?n rest)"
          using room False by (subst boundedCloseDetail_loop.simps) (simp add: Cons Let_def)
        have n: "0 < ?n" "?n \<le> length rest"
          using head by (auto simp: Cons utf8_valid_head_def Let_def)
        have "utf8_text (safe @ take ?n rest)"
          using "1.prems"(1) utf8_take_head [of c cs] head by (simp add: Cons utf8_append)
        moreover have "length (safe @ take ?n rest) \<le> 120" using fits n by simp
        moreover have "utf8_text rest \<Longrightarrow> utf8_text (drop ?n rest)"
          using utf8_text.simps [of rest] n by (cases ?n) (simp_all add: Cons)
        ultimately show ?thesis
          using "1.IH"(2) [OF Cons _ refl] room False n by (simp add: eq Cons [symmetric])
      qed
    qed
  qed
qed

section \<open>Properties\<close>

text \<open>the outbound queue is bounded and has a single writer. In every state a peer can reach,
  by any interleaving of sends, drain steps, write errors, pings, closes and transport handoffs,
  at most 256 frames are queued, their serialised sizes add up to at most 2 MiB, the byte counter
  equals that sum (it never wraps below zero), and exactly one drain coroutine is alive when the
  drain flag is set and none otherwise, in which case nothing is queued.\<close>

theorem outbound_queue_bounded:
  "let p = fst (Peer_run jsonBytes evs (Peer_new socket room nickname peerId now)) in
     length (p_outboundFrames p) \<le> 256
   \<and> unat (p_outboundBytes p) = frames_size jsonBytes (p_outboundFrames p)
   \<and> frames_size jsonBytes (p_outboundFrames p) \<le> 2 * 1024 * 1024
   \<and> length (p_drains p) = (if p_outboundDrainActive p then 1 else 0)
   \<and> (p_drains p = [] \<longrightarrow> p_outboundFrames p = [])"
proof -
  let ?p = "fst (Peer_run jsonBytes evs (Peer_new socket room nickname peerId now))"
  have "bytes_ok jsonBytes ?p" "drain_ok ?p"
    using Peer_run_queue_ok [of jsonBytes "Peer_new socket room nickname peerId now" evs] by simp_all
  then show ?thesis
    by (auto simp: Let_def bytes_ok_def drain_ok_def max_bytes maxOutboundFrames_def
        unat_frames_bytes split: if_splits)
qed

theorem outbound_queue_bounded_witness:
  "length (p_outboundFrames (fst (Peer_run (\<lambda>_. 1000)
     [PeerSend (message CODE_INFO id), PeerDrain 0] (Peer_new 7 0 ''n'' 1 0)))) \<le> 256"
  using outbound_queue_bounded [of "\<lambda>_. 1000" "[PeerSend (message CODE_INFO id), PeerDrain 0]" 7 0 "''n''" 1 0]
  by (simp add: Let_def)

text \<open>C9: delivery to a live transport is exact. While a peer stays bound to one transport, the
  text frames written to it are, in order, the messages queued for it at the start followed by the
  messages accepted for sending since then, less the ones still queued: nothing is lost,
  duplicated, reordered or written to another socket, whatever other events interleave.\<close>

theorem outbound_delivery_exact:
  assumes "p_socket p = Some s" and "list_all (\<lambda>e. \<not> rebinds e) evs"
  shows "map (Pair s) (queued p @ accepted jsonBytes evs p)
    = texts (snd (Peer_run jsonBytes evs p)) @ map (Pair s) (queued (fst (Peer_run jsonBytes evs p)))"
  using assms by (intro Peer_run_texts)

theorem outbound_delivery_exact_witness:
  "let m = message CODE_INFO id; k = message CODE_PEER_LEFT id;
       evs = [PeerSend m, PeerSend k, PeerDrain 0, PeerDrain 0]
   in texts (snd (Peer_run (\<lambda>_. 10) evs (Peer_new 7 0 ''n'' 1 0)))
        @ map (Pair 7) (queued (fst (Peer_run (\<lambda>_. 10) evs (Peer_new 7 0 ''n'' 1 0))))
      = map (Pair 7) (queued (Peer_new 7 0 ''n'' 1 0)
          @ accepted (\<lambda>_. 10) evs (Peer_new 7 0 ''n'' 1 0))"
proof -
  have "p_socket (Peer_new 7 0 ''n'' 1 0) = Some 7"
    by (simp add: Peer_new_def TransportGeneration_replace_def Let_def)
  moreover have "list_all (\<lambda>e. \<not> rebinds e) [PeerSend m, PeerSend k, PeerDrain 0, PeerDrain 0]"
    for m k by simp
  ultimately show ?thesis
    unfolding Let_def by (intro outbound_delivery_exact [symmetric])
qed

text \<open>a transport close is accounted at most once, and its first reason sticks. Over any run the
  closed-transport counter grows by at most one per transport the peer has had; between two
  handoffs, once a reason has been recorded no later one replaces it.\<close>

theorem transport_close_accounted_once:
  "count_of EVENT_PEER_TRANSPORT_CLOSED
       (snd (Peer_run jsonBytes evs (Peer_new socket room nickname peerId now)))
     \<le> 1 + length (filter is_replace evs)
   \<and> (\<forall>p later. list_all (\<lambda>e. \<not> is_replace e) later \<longrightarrow> p_closeReason p \<noteq> REASON_NONE \<longrightarrow>
        p_closeReason (fst (Peer_run jsonBytes later p)) = p_closeReason p
      \<and> count_of EVENT_PEER_TRANSPORT_CLOSED (snd (Peer_run jsonBytes later p)) \<le> 1)"
proof -
  have acc: "accounted p \<le> 1" for p by (simp add: accounted_def)
  have "count_of EVENT_PEER_TRANSPORT_CLOSED (snd (Peer_run jsonBytes es p))
      \<le> 1 + length (filter is_replace es)" for es p
    using Peer_run_accounting [of jsonBytes es p] acc [of "fst (Peer_run jsonBytes es p)"] by linarith
  moreover have "list_all (\<lambda>e. \<not> is_replace e) es \<Longrightarrow> filter is_replace es = []" for es
    by (auto simp: list_all_iff filter_empty_conv)
  ultimately show ?thesis using Peer_run_first_reason by (metis add.right_neutral list.size(3))
qed

theorem transport_close_accounted_once_witness:
  "count_of EVENT_PEER_TRANSPORT_CLOSED (snd (Peer_run (\<lambda>_. 10)
     [PeerInvalidate HEARTBEAT_TIMEOUT, PeerOnClose 7 1000 None, PeerProtocolError]
     (Peer_new 7 0 ''n'' 1 0))) \<le> 1"
  using transport_close_accounted_once [THEN conjunct1, of "\<lambda>_. 10"
      "[PeerInvalidate HEARTBEAT_TIMEOUT, PeerOnClose 7 1000 None, PeerProtocolError]" 7 0 "''n''" 1 0]
  by (simp add: is_replace_def del: Peer_run_Cons)



text \<open>a remote close detail is stored bounded and well formed. Whatever bytes a client puts into
  its close frame, the stored detail has at most 120 bytes and consists of complete UTF-8
  sequences; a detail that already is so is stored unchanged.\<close>

theorem close_detail_bounded_utf8:
  "utf8_text (boundedCloseDetail detail) \<and> length (boundedCloseDetail detail) \<le> 120
   \<and> (\<forall>value. detail = Some value \<longrightarrow> utf8_text value \<longrightarrow> length value \<le> 120 \<longrightarrow>
        boundedCloseDetail detail = value)"
  using close_detail_loop [of "[]"] by (cases detail) (simp_all add: boundedCloseDetail_def)

theorem close_detail_bounded_utf8_witness:
  "boundedCloseDetail (Some ''bye'') = ''bye''"
proof -
  have "utf8_text ''bye''"
    by (simp add: utf8_text.simps utf8_valid_head_def utf8_length_def byte_def)
  with close_detail_bounded_utf8 [of "Some ''bye''"] show ?thesis by simp
qed

end
