(* ===== verification/Files.thy ===== *)
theory Files
  imports Effects
begin

text \<open>
  \<^verbatim>\<open>server/src/rooms/File.cpp\<close> and \<^verbatim>\<open>File.hpp\<close>: a shared file and the subscribers that download
  it through its host. A subscriber asks the host for one chunk at a time, buffers the chunk it
  accepts until the reader takes it, and parks the reader on a wait list meanwhile.

  The operations of one subscriber are functions on the record \<open>Subscriber\<close>; those that message
  the host return the message (the caller sends it) and take \<open>hostAlive\<close>, the outcome of
  \<^verbatim>\<open>m_file->m_host.lock()\<close>. The operations of a file that touch its subscribers need the heap and
  are completed in \<open>Store\<close>.
\<close>

section \<open>State\<close>

record File =
  f_host :: peer_ref
  f_clientFileId :: int
  f_serverFileId :: int
  f_fileName :: string
  f_fileSize :: int
  f_mediaType :: "string option"
  f_subscriberIdCounter :: int
  f_available :: bool
  f_subscribers :: "(int, subscriber_ref) umap"

definition File_new ::
  "peer_ref \<Rightarrow> int \<Rightarrow> int \<Rightarrow> string \<Rightarrow> int \<Rightarrow> string option \<Rightarrow> File" where
  "File_new host clientFileId serverFileId fileName fileSize mediaType =
     \<lparr>f_host = host, f_clientFileId = clientFileId, f_serverFileId = serverFileId,
      f_fileName = fileName, f_fileSize = fileSize,
      f_mediaType = (case mediaType of
          Some m \<Rightarrow> if validImageMediaType m then Some m else None
        | None \<Rightarrow> None),
      f_subscriberIdCounter = 1, f_available = True, f_subscribers = []\<rparr>"

text \<open>Where the reader of a subscriber is: not waiting; about to run the \<^verbatim>\<open>act\<close> of its
  \<^verbatim>\<open>WaitCoroutine\<close>; handed to the wait list but not yet in it; parked in the list.\<close>

datatype WaitState = Idle | Checking | Registering | Parked

record Subscriber =
  s_id :: int
  s_file :: file_ref
  s_valid :: bool
  s_progress :: int
  s_request :: ChunkRequest
  s_chunk :: "string option"
  s_wait :: WaitState

definition Subscriber_new :: "int \<Rightarrow> file_ref \<Rightarrow> Subscriber" where
  "Subscriber_new sid file = \<lparr>s_id = sid, s_file = file, s_valid = True, s_progress = 0,
     s_request = ChunkRequest_new, s_chunk = None, s_wait = Idle\<rparr>"

section \<open>Subscriber\<close>

text \<open>\<^verbatim>\<open>m_waitList.notifyAll()\<close> resumes a parked reader.\<close>

definition Subscriber_notifyAll :: "Subscriber \<Rightarrow> Subscriber" where
  "Subscriber_notifyAll s = (if s_wait s = Parked then s\<lparr>s_wait := Checking\<rparr> else s)"

definition Subscriber_provideFileChunk ::
  "u64 \<Rightarrow> int \<Rightarrow> int \<Rightarrow> string option \<Rightarrow> Subscriber \<Rightarrow> Subscriber \<times> ChunkResult" where
  "Subscriber_provideFileChunk requestId position sz data s =
     (let received = (case data of Some d \<Rightarrow> length d | None \<Rightarrow> 0);
          (request, result) = ChunkRequest_accept requestId position sz received (s_request s);
          s = s\<lparr>s_request := request\<rparr>
      in if result \<noteq> ACCEPTED then (s, result)
         else if s_chunk s \<noteq> None then (s, INVALID)
         else (Subscriber_notifyAll (s\<lparr>s_chunk := data\<rparr>), result))"

definition requestChunk_message :: "File \<Rightarrow> Subscriber \<Rightarrow> int \<Rightarrow> u64 \<Rightarrow> MessageDto" where
  "requestChunk_message f s sz requestId =
     message CODE_FILE_REQUEST_CHUNK (\<lambda>b. b\<lparr>mb_files := Some [Some
       (FileDto_createShared\<lparr>fd_clientFileId := Some (f_clientFileId f),
          fd_serverFileId := Some (f_serverFileId f), fd_subscriberId := Some (s_id s),
          fd_chunkPosition := Some (s_progress s), fd_chunkSize := Some sz,
          fd_chunkRequestId := Some requestId\<rparr>)]\<rparr>)"

definition Subscriber_requestChunk ::
  "File \<Rightarrow> bool \<Rightarrow> int \<Rightarrow> Subscriber \<Rightarrow> Subscriber \<times> MessageDto option" where
  "Subscriber_requestChunk f hostAlive sz s =
     (if \<not> s_valid s then (s, None)
      else
        let (request, requestId) = ChunkRequest_begin (s_progress s) sz (s_request s);
            s = s\<lparr>s_request := request\<rparr>
        in if hostAlive then (s, Some (requestChunk_message f s sz requestId))
           else (Subscriber_notifyAll
                   (s\<lparr>s_valid := False, s_request := ChunkRequest_cancel request\<rparr>), None))"

definition Subscriber_reissueOutstandingRequest ::
  "File \<Rightarrow> bool \<Rightarrow> Subscriber \<Rightarrow> Subscriber \<times> MessageDto option" where
  "Subscriber_reissueOutstandingRequest f hostAlive s =
     (if \<not> s_valid s \<or> \<not> cr_outstanding (s_request s) then (s, None)
      else Subscriber_requestChunk f hostAlive (cr_size (s_request s)) s)"

definition Subscriber_ready :: "Subscriber \<Rightarrow> bool" where
  "Subscriber_ready s \<longleftrightarrow> s_chunk s \<noteq> None \<or> \<not> s_valid s"

text \<open>\<^verbatim>\<open>WaitCoroutine::act\<close>, and the listener called once the reader is in the wait list.\<close>

definition Subscriber_waitAct :: "Subscriber \<Rightarrow> Subscriber" where
  "Subscriber_waitAct s =
     (if s_wait s \<noteq> Checking then s
      else if Subscriber_ready s then s\<lparr>s_wait := Idle\<rparr> else s\<lparr>s_wait := Registering\<rparr>)"

definition Subscriber_onNewItem :: "Subscriber \<Rightarrow> Subscriber" where
  "Subscriber_onNewItem s =
     (if s_wait s \<noteq> Registering then s
      else
        let s = s\<lparr>s_wait := Parked\<rparr>
        in if Subscriber_ready s then Subscriber_notifyAll s else s)"

definition Subscriber_waitForChunkAsync :: "Subscriber \<Rightarrow> Subscriber" where
  "Subscriber_waitForChunkAsync s = s\<lparr>s_wait := Checking\<rparr>"

datatype ReadResult = ReadThrow exn | ReadBytes string | RETRY_READ | ReadEnd

definition Subscriber_readChunk ::
  "File \<Rightarrow> bool \<Rightarrow> int \<Rightarrow> Subscriber \<Rightarrow> Subscriber \<times> MessageDto option \<times> ReadResult" where
  "Subscriber_readChunk f hostAlive cnt s =
     (if \<not> s_valid s then (s, None, ReadThrow (runtime_error ''File is not valid any more.''))
      else if s_progress s < f_fileSize f then
        (case s_chunk s of
           Some chunk \<Rightarrow>
             (let chunkSize = int (length chunk)
              in if chunkSize > cnt then (s, None, ReadThrow (runtime_error ''Invalid chunk size''))
                 else (s\<lparr>s_progress := s_progress s + chunkSize, s_chunk := None\<rparr>, None,
                       ReadBytes chunk))
         | None \<Rightarrow>
             (let remaining = f_fileSize f - s_progress s;
                  boundedCount = min cnt (int Limits_chunkBytes);
                  requestSize = min boundedCount remaining;
                  (s, msg) = Subscriber_requestChunk f hostAlive requestSize s
              in (Subscriber_waitForChunkAsync s, msg, RETRY_READ)))
      else (s, None, ReadEnd))"

definition Subscriber_invalidate :: "Subscriber \<Rightarrow> Subscriber" where
  "Subscriber_invalidate s =
     Subscriber_notifyAll (s\<lparr>s_valid := False, s_request := ChunkRequest_cancel (s_request s)\<rparr>)"

section \<open>Subscriptions of a file\<close>

definition File_unsubscribe :: "int \<Rightarrow> File \<Rightarrow> File" where
  "File_unsubscribe sid f = f\<lparr>f_subscribers := um_erase sid (f_subscribers f)\<rparr>"

text \<open>\<open>self\<close> is the file and \<open>ref\<close> the address of the subscriber about to be allocated.\<close>

definition File_subscribe ::
  "file_ref \<Rightarrow> subscriber_ref \<Rightarrow> File \<Rightarrow> File \<times> Subscriber option" where
  "File_subscribe self ref f =
     (if \<not> f_available f then (f, None)
      else if \<not> hasCapacity (length (f_subscribers f)) Limits_subscribersPerFile then (f, None)
      else
        let s = Subscriber_new (f_subscriberIdCounter f) self
        in (f\<lparr>f_subscriberIdCounter := i64_succ (f_subscriberIdCounter f),
              f_subscribers := um_assign (s_id s) ref (f_subscribers f)\<rparr>, Some s))"

section \<open>Runs of one subscriber\<close>

datatype subscriber_event =
    SubRead int bool
  | SubProvide u64 int int "string option"
  | SubReissue bool
  | SubInvalidate
  | SubWaitAct
  | SubNewItem

fun Subscriber_step :: "File \<Rightarrow> subscriber_event \<Rightarrow> Subscriber \<Rightarrow> Subscriber" where
  "Subscriber_step f (SubRead cnt alive) s = fst (Subscriber_readChunk f alive cnt s)"
| "Subscriber_step f (SubProvide i p n d) s = fst (Subscriber_provideFileChunk i p n d s)"
| "Subscriber_step f (SubReissue alive) s = fst (Subscriber_reissueOutstandingRequest f alive s)"
| "Subscriber_step f SubInvalidate s = Subscriber_invalidate s"
| "Subscriber_step f SubWaitAct s = Subscriber_waitAct s"
| "Subscriber_step f SubNewItem s = Subscriber_onNewItem s"

definition Subscriber_run :: "File \<Rightarrow> subscriber_event list \<Rightarrow> Subscriber \<Rightarrow> Subscriber" where
  "Subscriber_run f evs s = fold (Subscriber_step f) evs s"

text \<open>What the reader received, and the chunks accepted from the host with their positions.\<close>

fun bytes_read :: "File \<Rightarrow> subscriber_event list \<Rightarrow> Subscriber \<Rightarrow> string" where
  "bytes_read f [] s = []"
| "bytes_read f (e # evs) s =
     (case e of
        SubRead cnt alive \<Rightarrow>
          (case snd (snd (Subscriber_readChunk f alive cnt s)) of ReadBytes d \<Rightarrow> d | _ \<Rightarrow> [])
      | _ \<Rightarrow> [])
     @ bytes_read f evs (Subscriber_step f e s)"

fun chunks_accepted :: "File \<Rightarrow> subscriber_event list \<Rightarrow> Subscriber \<Rightarrow> (int \<times> string) list" where
  "chunks_accepted f [] s = []"
| "chunks_accepted f (e # evs) s =
     (case e of
        SubProvide i p n d \<Rightarrow>
          (if snd (Subscriber_provideFileChunk i p n d s) = ACCEPTED
           then [(p, case d of Some d \<Rightarrow> d | None \<Rightarrow> [])] else [])
      | _ \<Rightarrow> [])
     @ chunks_accepted f evs (Subscriber_step f e s)"

definition buffered :: "Subscriber \<Rightarrow> string" where
  "buffered s = (case s_chunk s of None \<Rightarrow> [] | Some d \<Rightarrow> d)"

text \<open>The positions are the running total of the lengths, from a given offset.\<close>

fun contiguous :: "int \<Rightarrow> (int \<times> string) list \<Rightarrow> bool" where
  "contiguous from [] \<longleftrightarrow> True"
| "contiguous from ((position, d) # rest) \<longleftrightarrow>
     position = from \<and> contiguous (from + int (length d)) rest"

lemma contiguous_append:
  "contiguous from (xs @ ys) \<longleftrightarrow>
     contiguous from xs \<and> contiguous (from + int (length (concat (map snd xs)))) ys"
  by (induction xs arbitrary: "from") (auto simp: add.assoc)

section \<open>Invariant of a subscriber\<close>

definition Subscriber_ok :: "File \<Rightarrow> Subscriber \<Rightarrow> bool" where
  "Subscriber_ok f s \<longleftrightarrow>
     0 \<le> s_progress s
   \<and> s_progress s + int (length (buffered s)) \<le> max 0 (f_fileSize f)
   \<and> (cr_outstanding (s_request s) \<longrightarrow>
        s_chunk s = None \<and> cr_position (s_request s) = s_progress s
      \<and> cr_size (s_request s) \<le> int Limits_chunkBytes
      \<and> s_progress s + cr_size (s_request s) \<le> f_fileSize f)"

lemma Subscriber_ok_new [simp]: "Subscriber_ok f (Subscriber_new sid file)"
  by (simp add: Subscriber_ok_def Subscriber_new_def buffered_def ChunkRequest_new_def)

lemma notify_sel [simp]:
  "s_id (Subscriber_notifyAll s) = s_id s" "s_file (Subscriber_notifyAll s) = s_file s"
  "s_valid (Subscriber_notifyAll s) = s_valid s" "s_progress (Subscriber_notifyAll s) = s_progress s"
  "s_request (Subscriber_notifyAll s) = s_request s" "s_chunk (Subscriber_notifyAll s) = s_chunk s"
  "buffered (Subscriber_notifyAll s) = buffered s" "s_wait (Subscriber_notifyAll s) \<noteq> Parked"
  by (simp_all add: Subscriber_notifyAll_def buffered_def)

lemma accept_cases:
  assumes "ChunkRequest_accept i p n k r = (r', result)"
  obtains (accepted) "result = ACCEPTED" "cr_outstanding r" "\<not> cr_outstanding r'"
      "p = cr_position r" "n = cr_size r" "0 \<le> n" "unat (u64_of_i64 n) = k"
  | (refused) "result \<noteq> ACCEPTED" "r' = r"
  using assms by (auto simp: ChunkRequest_accept_def split: if_splits)

lemma provide_cases:
  assumes "Subscriber_ok f s" and "Subscriber_provideFileChunk i p n d s = (s', result)"
  obtains (accepted) "result = ACCEPTED" "s_chunk s = None" "p = s_progress s"
      "s_progress s + int (case d of Some d \<Rightarrow> length d | None \<Rightarrow> 0) \<le> f_fileSize f"
      "s_progress s' = s_progress s" "s_chunk s' = d" "\<not> cr_outstanding (s_request s')"
      "s_valid s' = s_valid s" "s_wait s' \<noteq> Parked"
  | (refused) "result \<noteq> ACCEPTED" "s' = s"
proof -
  let ?k = "case d of Some d \<Rightarrow> length d | None \<Rightarrow> 0"
  obtain r' res where acc: "ChunkRequest_accept i p n ?k (s_request s) = (r', res)"
    by (cases "ChunkRequest_accept i p n ?k (s_request s)")
  from acc show ?thesis
  proof (cases rule: accept_cases)
    case acc': accepted
    from assms(1) acc' have ok: "s_chunk s = None" "p = s_progress s" "0 \<le> n" "n \<le> int Limits_chunkBytes"
      "s_progress s + n \<le> f_fileSize f" by (auto simp: Subscriber_ok_def)
    from ok(3,4) have "in_i64 n" by (simp add: in_i64_def Limits_chunkBytes_def)
    with ok(3) acc'(7) have "int ?k = n" using uint_u64_of_i64 [of n] by (simp add: uint_nat)
    with ok acc' acc assms(2) show ?thesis
      by (intro accepted) (auto simp: Subscriber_provideFileChunk_def)
  next
    case ref': refused
    with acc assms(2) have "result \<noteq> ACCEPTED" "s' = s\<lparr>s_request := s_request s\<rparr>"
      by (auto simp: Subscriber_provideFileChunk_def)
    then show ?thesis by (intro refused) simp_all
  qed
qed

lemma begin_cases:
  assumes "ChunkRequest_begin p n r = (r', i)"
  obtains (repeated) "cr_outstanding r" "r' = r"
  | (fresh) "\<not> cr_outstanding r" "cr_outstanding r'" "cr_position r' = p" "cr_size r' = n"
  using assms by (auto simp: ChunkRequest_begin_def Let_def split: if_splits)

lemma requestChunk_cases:
  assumes "Subscriber_requestChunk f alive n s = (s', m)"
  obtains (invalid) "\<not> s_valid s" "s' = s" "m = None"
  | (sent) r' i where "s_valid s" "alive" "ChunkRequest_begin (s_progress s) n (s_request s) = (r', i)"
      "s' = s\<lparr>s_request := r'\<rparr>" "m = Some (requestChunk_message f s' n i)"
  | (hostless) t where "s_valid s" "\<not> alive" "\<not> cr_outstanding (s_request t)" "\<not> s_valid t"
      "s_progress t = s_progress s" "s_chunk t = s_chunk s" "s_wait t = s_wait s"
      "s' = Subscriber_notifyAll t" "m = None"
proof (cases "s_valid s")
  case False
  with assms show ?thesis by (intro invalid) (auto simp: Subscriber_requestChunk_def)
next
  case True
  obtain r' i where bg: "ChunkRequest_begin (s_progress s) n (s_request s) = (r', i)"
    by (cases "ChunkRequest_begin (s_progress s) n (s_request s)")
  show ?thesis
  proof (cases alive)
    case yes: True
    with True bg assms show ?thesis
      by (intro sent [of r' i]) (auto simp: Subscriber_requestChunk_def Let_def)
  next
    case False
    with True bg assms show ?thesis
      by (intro hostless [of "s\<lparr>s_valid := False, s_request := ChunkRequest_cancel r'\<rparr>"])
         (auto simp: Subscriber_requestChunk_def Let_def ChunkRequest_cancel_def)
  qed
qed

lemma requestChunk_ok:
  assumes "Subscriber_ok f s" and "s_chunk s = None"
    and "\<not> cr_outstanding (s_request s) \<longrightarrow> n \<le> int Limits_chunkBytes \<and> s_progress s + n \<le> f_fileSize f"
    and "Subscriber_requestChunk f alive n s = (s', m)"
  shows "Subscriber_ok f s' \<and> s_progress s' = s_progress s \<and> s_chunk s' = None"
  using assms(4)
proof (cases rule: requestChunk_cases)
  case (sent r' i)
  from sent(3) show ?thesis
  proof (cases rule: begin_cases)
    case repeated
    with sent assms(1,2) show ?thesis by simp
  next
    case fresh
    with sent assms(1-3) show ?thesis by (simp add: Subscriber_ok_def buffered_def)
  qed
qed (use assms in \<open>auto simp: Subscriber_ok_def buffered_def\<close>)

lemma readChunk_cases:
  assumes "Subscriber_readChunk f alive cnt s = (s', m, r)"
  obtains (unchanged) "s' = s" "m = None" "(\<exists>e. r = ReadThrow e) \<or> r = ReadEnd \<and> f_fileSize f \<le> s_progress s"
  | (data) d where "s_chunk s = Some d" "s' = s\<lparr>s_progress := s_progress s + int (length d), s_chunk := None\<rparr>"
      "m = None" "r = ReadBytes d"
  | (asked) t where "s_chunk s = None" "s_progress s < f_fileSize f" "r = RETRY_READ"
      "Subscriber_requestChunk f alive (min (min cnt (int Limits_chunkBytes)) (f_fileSize f - s_progress s)) s = (t, m)"
      "s' = Subscriber_waitForChunkAsync t"
proof (cases "s_valid s \<and> s_progress s < f_fileSize f")
  case False
  with assms show ?thesis
    using unchanged by (auto simp: Subscriber_readChunk_def split: if_splits)
next
  case True
  show ?thesis
  proof (cases "s_chunk s")
    case None
    with True assms show ?thesis
      by (cases "Subscriber_requestChunk f alive (min (min cnt (int Limits_chunkBytes)) (f_fileSize f - s_progress s)) s")
         (use asked in \<open>auto simp: Subscriber_readChunk_def Let_def\<close>)
  next
    case (Some d)
    show ?thesis
    proof (cases "int (length d) > cnt")
      case big: True
      with True Some assms show ?thesis
        using unchanged by (auto simp: Subscriber_readChunk_def Let_def)
    next
      case False
      with True Some assms show ?thesis
        using data by (auto simp: Subscriber_readChunk_def Let_def)
    qed
  qed
qed

text \<open>One step: what arrives from the host either reaches the reader or stays buffered.\<close>

definition read_now :: "File \<Rightarrow> subscriber_event \<Rightarrow> Subscriber \<Rightarrow> string" where
  "read_now f e s = bytes_read f [e] s"

definition accepted_chunk :: "File \<Rightarrow> subscriber_event \<Rightarrow> Subscriber \<Rightarrow> (int \<times> string) list" where
  "accepted_chunk f e s = chunks_accepted f [e] s"

definition step_sound :: "File \<Rightarrow> subscriber_event \<Rightarrow> Subscriber \<Rightarrow> bool" where
  "step_sound f e s \<longleftrightarrow>
     (let s' = Subscriber_step f e s
      in Subscriber_ok f s'
       \<and> buffered s @ concat (map snd (accepted_chunk f e s)) = read_now f e s @ buffered s'
       \<and> s_progress s' = s_progress s + int (length (read_now f e s))
       \<and> contiguous (s_progress s + int (length (buffered s))) (accepted_chunk f e s))"

lemma step_sound_same:
  assumes "Subscriber_ok f s" and "Subscriber_step f e s = t" and "s_progress t = s_progress s"
    and "s_chunk t = s_chunk s" and "cr_outstanding (s_request t) \<longrightarrow> s_request t = s_request s"
    and "read_now f e s = []" and "accepted_chunk f e s = []"
  shows "step_sound f e s"
  using assms by (auto simp: step_sound_def Subscriber_ok_def buffered_def)

lemma Subscriber_step_sound:
  assumes "Subscriber_ok f s"
  shows "step_sound f e s"
proof (cases e)
  case (SubRead cnt alive)
  obtain s' m r where read: "Subscriber_readChunk f alive cnt s = (s', m, r)"
    by (cases "Subscriber_readChunk f alive cnt s") auto
  from read show ?thesis
  proof (cases rule: readChunk_cases)
    case unchanged
    then have "read_now f e s = []"
      using SubRead read by (auto simp: read_now_def)
    with unchanged read SubRead show ?thesis
      by (intro step_sound_same [OF assms, where t = s]) (simp_all add: accepted_chunk_def)
  next
    case (data d)
    with SubRead read assms show ?thesis
      by (simp add: step_sound_def read_now_def accepted_chunk_def Subscriber_ok_def buffered_def Let_def)
  next
    case (asked t)
    have fits: "min (min cnt (int Limits_chunkBytes)) (f_fileSize f - s_progress s) \<le> int Limits_chunkBytes
        \<and> s_progress s + min (min cnt (int Limits_chunkBytes)) (f_fileSize f - s_progress s) \<le> f_fileSize f"
      by auto
    from requestChunk_ok [OF assms asked(1) impI [OF fits] asked(4)]
    have "Subscriber_ok f t" "s_progress t = s_progress s" "s_chunk t = None" by auto
    with SubRead read asked show ?thesis
      by (simp add: step_sound_def read_now_def accepted_chunk_def Subscriber_waitForChunkAsync_def
          Subscriber_ok_def buffered_def)
  qed
next
  case (SubProvide i p n d)
  obtain s' result where provide: "Subscriber_provideFileChunk i p n d s = (s', result)"
    by (cases "Subscriber_provideFileChunk i p n d s")
  from assms provide show ?thesis
  proof (cases rule: provide_cases)
    case accepted
    with SubProvide provide assms show ?thesis
      by (auto simp: step_sound_def read_now_def accepted_chunk_def Subscriber_ok_def buffered_def Let_def
          split: option.splits)
  next
    case refused
    with SubProvide provide show ?thesis
      by (intro step_sound_same [OF assms, where t = s]) (simp_all add: read_now_def accepted_chunk_def)
  qed
next
  case (SubReissue alive)
  let ?n = "cr_size (s_request s)"
  have none: "read_now f e s = []" "accepted_chunk f e s = []"
    using SubReissue by (simp_all add: read_now_def accepted_chunk_def)
  show ?thesis
  proof (cases "s_valid s \<and> cr_outstanding (s_request s)")
    case False
    with none SubReissue show ?thesis
      by (intro step_sound_same [OF assms, where t = s])
         (auto simp: Subscriber_reissueOutstandingRequest_def)
  next
    case True
    obtain s' m where req: "Subscriber_requestChunk f alive ?n s = (s', m)"
      by (cases "Subscriber_requestChunk f alive ?n s")
    have "s_chunk s = None" using True assms by (simp add: Subscriber_ok_def)
    with requestChunk_ok [OF assms this _ req] True none req SubReissue show ?thesis
      by (simp add: step_sound_def Subscriber_reissueOutstandingRequest_def buffered_def)
  qed
next
  case SubInvalidate
  then show ?thesis
    by (intro step_sound_same [OF assms, where t = "Subscriber_invalidate s"])
       (simp_all add: read_now_def accepted_chunk_def Subscriber_invalidate_def ChunkRequest_cancel_def)
next
  case SubWaitAct
  then show ?thesis
    by (intro step_sound_same [OF assms, where t = "Subscriber_waitAct s"])
       (auto simp: read_now_def accepted_chunk_def Subscriber_waitAct_def)
next
  case SubNewItem
  then show ?thesis
    by (intro step_sound_same [OF assms, where t = "Subscriber_onNewItem s"])
       (auto simp: read_now_def accepted_chunk_def Subscriber_onNewItem_def Let_def Subscriber_notifyAll_def)
qed

lemma run_log_Cons:
  "bytes_read f (e # evs) s = read_now f e s @ bytes_read f evs (Subscriber_step f e s)"
  "chunks_accepted f (e # evs) s = accepted_chunk f e s @ chunks_accepted f evs (Subscriber_step f e s)"
  by (simp_all add: read_now_def accepted_chunk_def)

lemma Subscriber_run_Cons [simp]:
  "Subscriber_run f (e # evs) s = Subscriber_run f evs (Subscriber_step f e s)"
  "Subscriber_run f [] s = s"
  by (simp_all add: Subscriber_run_def)

lemma Subscriber_run_sound:
  assumes "Subscriber_ok f s"
  shows "Subscriber_ok f (Subscriber_run f evs s)
    \<and> buffered s @ concat (map snd (chunks_accepted f evs s))
        = bytes_read f evs s @ buffered (Subscriber_run f evs s)
    \<and> s_progress (Subscriber_run f evs s) = s_progress s + int (length (bytes_read f evs s))
    \<and> contiguous (s_progress s + int (length (buffered s))) (chunks_accepted f evs s)"
  using assms
proof (induction evs arbitrary: s)
  case (Cons e evs)
  let ?t = "Subscriber_step f e s"
  note step = Subscriber_step_sound [OF Cons.prems, of e, unfolded step_sound_def Let_def]
  then have ok: "Subscriber_ok f ?t"
    and split: "buffered s @ concat (map snd (accepted_chunk f e s)) = read_now f e s @ buffered ?t"
    and progress: "s_progress ?t = s_progress s + int (length (read_now f e s))"
    and pos: "contiguous (s_progress s + int (length (buffered s))) (accepted_chunk f e s)" by auto
  note IH = Cons.IH [OF ok]
  have "length (buffered s) + length (concat (map snd (accepted_chunk f e s)))
      = length (read_now f e s) + length (buffered ?t)"
    using arg_cong [OF split, of length] by simp
  then have "s_progress s + int (length (buffered s)) + int (length (concat (map snd (accepted_chunk f e s))))
      = s_progress ?t + int (length (buffered ?t))"
    using progress by linarith
  with IH pos have "contiguous (s_progress s + int (length (buffered s))) (chunks_accepted f (e # evs) s)"
    by (simp only: run_log_Cons contiguous_append simp_thms)
  moreover have "buffered s @ concat (map snd (chunks_accepted f (e # evs) s))
      = bytes_read f (e # evs) s @ buffered (Subscriber_run f (e # evs) s)"
    using IH split by (simp add: run_log_Cons del: bytes_read.simps chunks_accepted.simps)
      (metis append_assoc)
  ultimately show ?case
    using IH progress by (simp add: run_log_Cons del: bytes_read.simps chunks_accepted.simps)
qed (simp add: buffered_def)

section \<open>No lost wake-up\<close>

lemma parked_step:
  assumes "s_wait s = Parked \<longrightarrow> \<not> Subscriber_ready s"
  shows "s_wait (Subscriber_step f e s) = Parked \<longrightarrow> \<not> Subscriber_ready (Subscriber_step f e s)"
proof (cases e)
  case (SubRead cnt alive)
  obtain s' m r where read: "Subscriber_readChunk f alive cnt s = (s', m, r)"
    by (cases "Subscriber_readChunk f alive cnt s") auto
  from read show ?thesis
    by (cases rule: readChunk_cases)
       (use assms SubRead read in \<open>auto simp: Subscriber_ready_def Subscriber_waitForChunkAsync_def\<close>)
next
  case (SubProvide i p n d)
  then show ?thesis
    using assms
    by (auto simp: Subscriber_provideFileChunk_def Subscriber_ready_def Let_def split: prod.splits)
next
  case (SubReissue alive)
  obtain s' m where req: "Subscriber_requestChunk f alive (cr_size (s_request s)) s = (s', m)"
    by (cases "Subscriber_requestChunk f alive (cr_size (s_request s)) s")
  from req have "s_wait s' = Parked \<longrightarrow> \<not> Subscriber_ready s'"
    by (cases rule: requestChunk_cases) (use assms in \<open>auto simp: Subscriber_ready_def\<close>)
  with req SubReissue assms show ?thesis by (simp add: Subscriber_reissueOutstandingRequest_def)
next
  case SubInvalidate
  then show ?thesis by (simp add: Subscriber_invalidate_def)
next
  case SubWaitAct
  then show ?thesis using assms by (auto simp: Subscriber_waitAct_def)
next
  case SubNewItem
  then show ?thesis using assms by (auto simp: Subscriber_onNewItem_def Let_def)
qed

lemma parked_run:
  "(s_wait s = Parked \<longrightarrow> \<not> Subscriber_ready s) \<Longrightarrow>
     s_wait (Subscriber_run f evs s) = Parked \<longrightarrow> \<not> Subscriber_ready (Subscriber_run f evs s)"
proof (induction evs arbitrary: s)
  case (Cons e evs)
  show ?case using Cons.IH [OF parked_step [OF Cons.prems]] by simp
qed simp

section \<open>An honest host\<close>

lemma contiguous_content:
  assumes "contiguous from A" and "0 \<le> from"
    and "\<forall>(p, d) \<in> set A. d = substr content (nat p) (length d)"
  shows "concat (map snd A) = substr content (nat from) (length (concat (map snd A)))"
  using assms
proof (induction A arbitrary: "from")
  case (Cons e A)
  obtain p d where e: "e = (p, d)" by (cases e)
  with Cons.prems have p: "p = from" "contiguous (from + int (length d)) A"
    and d: "d = substr content (nat from) (length d)" by auto
  have n: "nat (from + int (length d)) = length d + nat from"
    using Cons.prems(2) by (simp add: nat_add_distrib)
  have IH: "concat (map snd A) = substr content (length d + nat from) (length (concat (map snd A)))"
    using Cons.IH [OF p(2)] Cons.prems(2,3) by (simp add: n)
  show ?case
    using d IH by (simp add: e substr_def take_add)
qed (simp add: substr_def)

section \<open>Properties\<close>

lemma Subscriber_run_new:
  fixes sid :: int and fl :: file_ref
  defines "init \<equiv> Subscriber_new sid fl"
  shows "Subscriber_ok f (Subscriber_run f evs init)"
    and "concat (map snd (chunks_accepted f evs init))
          = bytes_read f evs init @ buffered (Subscriber_run f evs init)"
    and "s_progress (Subscriber_run f evs init) = int (length (bytes_read f evs init))"
    and "contiguous 0 (chunks_accepted f evs init)"
proof -
  have new: "s_progress init = 0" "buffered init = []" "Subscriber_ok f init"
    by (simp_all add: init_def Subscriber_new_def buffered_def)
      (simp add: Subscriber_ok_def ChunkRequest_new_def buffered_def)
  from Subscriber_run_sound [OF new(3), of evs] new(1,2)
  show "Subscriber_ok f (Subscriber_run f evs init)"
    and "concat (map snd (chunks_accepted f evs init))
          = bytes_read f evs init @ buffered (Subscriber_run f evs init)"
    and "s_progress (Subscriber_run f evs init) = int (length (bytes_read f evs init))"
    and "contiguous 0 (chunks_accepted f evs init)" by simp_all
qed

lemmas subscriber_exec = Subscriber_run_def Subscriber_new_def Subscriber_readChunk_def
  Subscriber_provideFileChunk_def Subscriber_requestChunk_def Subscriber_waitForChunkAsync_def
  Subscriber_waitAct_def Subscriber_onNewItem_def Subscriber_ready_def Subscriber_notifyAll_def
  ChunkRequest_begin_def ChunkRequest_accept_def ChunkRequest_new_def File_new_def
  Limits_chunkBytes_def u64_of_i64_def

text \<open>A download is exact. Whatever the host, other peers and the reader do, in any order, the
  chunks accepted for one subscriber are contiguous from position 0, what the reader received is
  the accepted bytes in order less at most one buffered chunk, the download position equals the
  number of bytes received, and no more than the announced file size is ever accepted.\<close>

theorem download_exact:
  "let s = Subscriber_run f evs (Subscriber_new sid file);
       chunks = chunks_accepted f evs (Subscriber_new sid file);
       got = bytes_read f evs (Subscriber_new sid file)
   in contiguous 0 chunks \<and> concat (map snd chunks) = got @ buffered s
    \<and> s_progress s = int (length got)
    \<and> int (length (concat (map snd chunks))) \<le> max 0 (f_fileSize f)"
  using Subscriber_run_new [of f evs sid "file"] by (auto simp: Let_def Subscriber_ok_def)

text \<open>C7: a download from an honest host is the file. If every chunk the host supplied is the
  requested part of a content of the announced size, the reader has received a prefix of that
  content, and all of it when it is told that the file ended.\<close>

theorem download_honest_host:
  assumes "int (length content) = f_fileSize f"
    and "\<forall>(p, d) \<in> set (chunks_accepted f evs (Subscriber_new sid file)).
           d = substr content (nat p) (length d)"
  shows "prefix (bytes_read f evs (Subscriber_new sid file)) content
    \<and> (snd (snd (Subscriber_readChunk f alive cnt (Subscriber_run f evs (Subscriber_new sid file))))
          = ReadEnd
       \<longrightarrow> bytes_read f evs (Subscriber_new sid file) = content)"
proof -
  let ?init = "Subscriber_new sid file"
  let ?s = "Subscriber_run f evs ?init" and ?got = "bytes_read f evs ?init"
  let ?all = "concat (map snd (chunks_accepted f evs ?init))"
  note run = Subscriber_run_new [of f evs sid "file"]
  have "?all = take (length ?all) content"
    using contiguous_content [OF run(4) _ assms(2)] by (simp add: substr_def)
  then have "prefix ?all content" by (metis take_is_prefix)
  then have pre: "prefix ?got content" by (metis run(2) append_prefixD)
  moreover have "?got = content"
    if "snd (snd (Subscriber_readChunk f alive cnt ?s)) = ReadEnd"
  proof -
    have "f_fileSize f \<le> s_progress ?s"
      using that by (auto simp: Subscriber_readChunk_def Let_def split: if_splits option.splits prod.splits)
    then have "length content \<le> length ?got" using run(3) assms(1) by linarith
    with pre show ?thesis by (metis append_eq_conv_conj prefix_def take_all)
  qed
  ultimately show ?thesis by blast
qed

theorem download_honest_host_witness:
  "let f = File_new 1 5 9 ''n'' 3 None;
       evs = [SubRead 100 True, SubProvide 1 0 3 (Some ''abc''), SubRead 100 True]
   in bytes_read f evs (Subscriber_new 1 0) = ''abc''"
proof -
  let ?f = "File_new 1 5 9 ''n'' 3 None"
  let ?evs = "[SubRead 100 True, SubProvide 1 0 3 (Some ''abc''), SubRead 100 True]"
  have size: "int (length ''abc'') = f_fileSize ?f" by (simp add: File_new_def)
  have honest: "\<forall>(p, d) \<in> set (chunks_accepted ?f ?evs (Subscriber_new 1 0)).
      d = substr ''abc'' (nat p) (length d)"
    and ended: "snd (snd (Subscriber_readChunk ?f True 100
      (Subscriber_run ?f ?evs (Subscriber_new 1 0)))) = ReadEnd"
    by (simp_all add: subscriber_exec Let_def substr_def)
  from download_honest_host [OF size honest] ended show ?thesis by (simp only: Let_def)
qed

text \<open>C20: the reader of a download never sleeps through an event. In every interleaving of the wait
  coroutine (its check, its registration in the wait list) with chunks arriving, invalidation and
  reissued requests, a parked reader has neither a chunk to take nor an invalidated file to
  report; and a chunk accepted or an invalidation while it is parked wakes it.\<close>

theorem reader_never_sleeps_on_data:
  "let s = Subscriber_run f evs (Subscriber_new sid file) in
     s_wait s = Parked \<longrightarrow>
       s_chunk s = None \<and> s_valid s
     \<and> s_wait (Subscriber_invalidate s) = Checking
     \<and> (snd (Subscriber_provideFileChunk i p n (Some d) s) = ACCEPTED \<longrightarrow>
          s_wait (fst (Subscriber_provideFileChunk i p n (Some d) s)) = Checking)"
proof -
  let ?s = "Subscriber_run f evs (Subscriber_new sid file)"
  have "s_wait ?s = Parked \<longrightarrow> \<not> Subscriber_ready ?s"
    by (rule parked_run) (simp add: Subscriber_new_def)
  then show ?thesis
    by (auto simp: Let_def Subscriber_ready_def Subscriber_invalidate_def Subscriber_notifyAll_def
        Subscriber_provideFileChunk_def split: prod.splits if_splits)
qed

theorem reader_never_sleeps_on_data_witness:
  "let s = Subscriber_run (File_new 1 5 9 ''n'' 3 None) [SubRead 100 True, SubWaitAct, SubNewItem]
             (Subscriber_new 1 0)
   in s_wait s = Parked \<and> s_wait (Subscriber_invalidate s) = Checking"
proof -
  let ?f = "File_new 1 5 9 ''n'' 3 None"
  let ?evs = "[SubRead 100 True, SubWaitAct, SubNewItem]"
  have "s_wait (Subscriber_run ?f ?evs (Subscriber_new 1 0)) = Parked"
    by (simp add: subscriber_exec Let_def)
  with reader_never_sleeps_on_data [of ?f ?evs 1 0] show ?thesis by (simp add: Let_def)
qed

end
