(* ===== verification/Store.thy ===== *)
theory Store
  imports PeerTransport Files
begin

text \<open>
  The heap of the room components: peers, rooms, files and subscribers by reference, with the
  statistics counters and the log of effects on sockets. Operations that touch several objects are
  state transformers on this record; the lobby extends it with its registries. A weak pointer
  is a reference together with the \<open>alive\<close> flag of its target; strong pointers are plain references.

  \<open>Env\<close> holds what the operations take from outside the repository or from the configuration:
  the serialised size of a message and the JSON reader (oatpp's mapper), the Base64 decoder, SHA-256
  and the two configured bounds. This theory also completes the file operations of
  \<^verbatim>\<open>server/src/rooms/File.cpp\<close> that reach other objects.
\<close>

section \<open>State\<close>

record Room =
  rm_name :: string
  rm_fileIdCounter :: int
  rm_fileById :: "(int, file_ref) umap"
  rm_peerById :: "(int, peer_ref) umap"
  rm_history :: "MessageDto list"
  rm_sequencer :: RoomSequencer

definition Room_new :: "string \<Rightarrow> Room" where
  "Room_new name = \<lparr>rm_name = name, rm_fileIdCounter = 1, rm_fileById = [], rm_peerById = [],
     rm_history = [], rm_sequencer = RoomSequencer_new\<rparr>"

record Heap =
  st_peers :: "peer_ref \<Rightarrow> Peer"
  st_peerAlive :: "peer_ref \<Rightarrow> bool"
  st_rooms :: "room_ref \<Rightarrow> Room"
  st_files :: "file_ref \<Rightarrow> File"
  st_subscribers :: "subscriber_ref \<Rightarrow> Subscriber"
  st_subscriberAlive :: "subscriber_ref \<Rightarrow> bool"
  st_next :: nat
  st_counters :: Counters
  st_effects :: "Effect list"

record Env =
  env_jsonBytes :: "MessageDto \<Rightarrow> u64"
  env_readFromString :: "string \<Rightarrow> exn + MessageDto option"
  env_base64Decode :: "string \<Rightarrow> exn + string option"
  env_sha256 :: "string \<Rightarrow> TokenDigest"
  env_maxMessageSizeBytes :: u64
  env_maxRoomHistoryMessages :: "u32 option"

text \<open>The empty heap. No reference below \<open>st_next\<close> exists, so the objects shown are never read.\<close>

definition Heap_new :: Heap where
  "Heap_new = \<lparr>st_peers = (\<lambda>_. Peer_new 0 0 [] 0 0), st_peerAlive = (\<lambda>_. False),
     st_rooms = (\<lambda>_. Room_new []), st_files = (\<lambda>_. File_new 0 0 0 [] 0 None),
     st_subscribers = (\<lambda>_. Subscriber_new 0 0), st_subscriberAlive = (\<lambda>_. False), st_next = 0,
     st_counters = Counters_new, st_effects = []\<rparr>"

section \<open>Access\<close>

definition emit :: "Effect list \<Rightarrow> 'z Heap_scheme \<Rightarrow> 'z Heap_scheme" where
  "emit es st = st\<lparr>st_counters := fold apply_effect es (st_counters st),
                  st_effects := st_effects st @ es\<rparr>"

definition upd_peer :: "peer_ref \<Rightarrow> Peer \<Rightarrow> 'z Heap_scheme \<Rightarrow> 'z Heap_scheme" where
  "upd_peer r p st = st\<lparr>st_peers := (st_peers st)(r := p)\<rparr>"

definition upd_room :: "room_ref \<Rightarrow> Room \<Rightarrow> 'z Heap_scheme \<Rightarrow> 'z Heap_scheme" where
  "upd_room r rm st = st\<lparr>st_rooms := (st_rooms st)(r := rm)\<rparr>"

definition upd_file :: "file_ref \<Rightarrow> File \<Rightarrow> 'z Heap_scheme \<Rightarrow> 'z Heap_scheme" where
  "upd_file r f st = st\<lparr>st_files := (st_files st)(r := f)\<rparr>"

definition upd_subscriber ::
  "subscriber_ref \<Rightarrow> Subscriber \<Rightarrow> 'z Heap_scheme \<Rightarrow> 'z Heap_scheme" where
  "upd_subscriber r s st = st\<lparr>st_subscribers := (st_subscribers st)(r := s)\<rparr>"

text \<open>Run an operation of one peer and carry out its effects.\<close>

definition peer_do ::
  "peer_ref \<Rightarrow> (Peer \<Rightarrow> Peer \<times> Effect list) \<Rightarrow> 'z Heap_scheme \<Rightarrow> 'z Heap_scheme" where
  "peer_do r f st = (let (p, es) = f (st_peers st r) in emit es (upd_peer r p st))"

definition peer_send ::
  "Env \<Rightarrow> peer_ref \<Rightarrow> MessageDto \<Rightarrow> 'z Heap_scheme \<Rightarrow> 'z Heap_scheme" where
  "peer_send env r m st = peer_do r (Peer_sendMessageAsync (env_jsonBytes env) m) st"

definition peer_send_opt ::
  "Env \<Rightarrow> peer_ref \<Rightarrow> MessageDto option \<Rightarrow> 'z Heap_scheme \<Rightarrow> 'z Heap_scheme" where
  "peer_send_opt env r m st = (case m of None \<Rightarrow> st | Some m \<Rightarrow> peer_send env r m st)"

lemmas store_defs = emit_def upd_peer_def upd_room_def upd_file_def upd_subscriber_def
  peer_do_def peer_send_def peer_send_opt_def

section \<open>Subscribers reaching their host\<close>

definition host_alive :: "'z Heap_scheme \<Rightarrow> File \<Rightarrow> bool" where
  "host_alive st f = st_peerAlive st (f_host f)"

definition Subscriber_readChunk_at ::
  "Env \<Rightarrow> subscriber_ref \<Rightarrow> int \<Rightarrow> 'z Heap_scheme \<Rightarrow> 'z Heap_scheme \<times> ReadResult" where
  "Subscriber_readChunk_at env r cnt st =
     (let s = st_subscribers st r; f = st_files st (s_file s);
          (s, msg, result) = Subscriber_readChunk f (host_alive st f) cnt s
      in (peer_send_opt env (f_host f) msg (upd_subscriber r s st), result))"

definition Subscriber_reissue_at ::
  "Env \<Rightarrow> subscriber_ref \<Rightarrow> 'z Heap_scheme \<Rightarrow> 'z Heap_scheme" where
  "Subscriber_reissue_at env r st =
     (let s = st_subscribers st r; f = st_files st (s_file s);
          (s, msg) = Subscriber_reissueOutstandingRequest f (host_alive st f) s
      in peer_send_opt env (f_host f) msg (upd_subscriber r s st))"

definition Subscriber_invalidate_at :: "subscriber_ref \<Rightarrow> 'z Heap_scheme \<Rightarrow> 'z Heap_scheme" where
  "Subscriber_invalidate_at r st = upd_subscriber r (Subscriber_invalidate (st_subscribers st r)) st"

text \<open>The destructor of a subscriber, run when the download that owns it ends.\<close>

definition Subscriber_destroy :: "subscriber_ref \<Rightarrow> 'z Heap_scheme \<Rightarrow> 'z Heap_scheme" where
  "Subscriber_destroy r st =
     (let s = st_subscribers st r
      in upd_file (s_file s) (File_unsubscribe (s_id s) (st_files st (s_file s)))
           (st\<lparr>st_subscriberAlive := (st_subscriberAlive st)(r := False)\<rparr>))"

section \<open>Files reaching their subscribers\<close>

definition File_subscribe_at ::
  "file_ref \<Rightarrow> 'z Heap_scheme \<Rightarrow> 'z Heap_scheme \<times> subscriber_ref option" where
  "File_subscribe_at fr st =
     (let r = st_next st
      in case File_subscribe fr r (st_files st fr) of
           (f, None) \<Rightarrow> (upd_file fr f st, None)
         | (f, Some s) \<Rightarrow>
             ((upd_file fr f (upd_subscriber r s st))
                \<lparr>st_subscriberAlive := (st_subscriberAlive st)(r := True), st_next := Suc r\<rparr>, Some r))"

definition File_provideFileChunk ::
  "file_ref \<Rightarrow> int \<Rightarrow> u64 \<Rightarrow> int \<Rightarrow> int \<Rightarrow> string option \<Rightarrow> 'z Heap_scheme \<Rightarrow>
     'z Heap_scheme \<times> ChunkResult" where
  "File_provideFileChunk fr subscriberId requestId position sz data st =
     (let f = st_files st fr
      in case um_find (f_subscribers f) subscriberId of
           None \<Rightarrow> (st, INVALID)
         | Some r \<Rightarrow>
             if \<not> st_subscriberAlive st r
             then (upd_file fr (f\<lparr>f_subscribers := um_erase subscriberId (f_subscribers f)\<rparr>) st, INVALID)
             else
               let (s, result) =
                 Subscriber_provideFileChunk requestId position sz data (st_subscribers st r)
               in (upd_subscriber r s st, result))"

definition live_subscribers :: "'z Heap_scheme \<Rightarrow> File \<Rightarrow> subscriber_ref list" where
  "live_subscribers st f = filter (st_subscriberAlive st) (map snd (f_subscribers f))"

definition File_clearSubscribers :: "file_ref \<Rightarrow> 'z Heap_scheme \<Rightarrow> 'z Heap_scheme" where
  "File_clearSubscribers fr st =
     (let f = st_files st fr;
          subscribers = live_subscribers st f;
          st = upd_file fr (f\<lparr>f_available := False, f_subscribers := []\<rparr>) st
      in fold Subscriber_invalidate_at subscribers st)"

definition File_reissueOutstandingRequests ::
  "Env \<Rightarrow> file_ref \<Rightarrow> 'z Heap_scheme \<Rightarrow> 'z Heap_scheme" where
  "File_reissueOutstandingRequests env fr st =
     (let f = st_files st fr;
          subscribers = live_subscribers st f;
          st = upd_file fr (f\<lparr>f_subscribers :=
                 filter (\<lambda>e. st_subscriberAlive st (snd e)) (f_subscribers f)\<rparr>) st
      in fold (Subscriber_reissue_at env) subscribers st)"

definition Peer_reissueOutstandingFileRequests ::
  "Env \<Rightarrow> peer_ref \<Rightarrow> 'z Heap_scheme \<Rightarrow> 'z Heap_scheme" where
  "Peer_reissueOutstandingFileRequests env pr st =
     fold (File_reissueOutstandingRequests env) (Peer_getFilesSnapshot (st_peers st pr)) st"

section \<open>Frames\<close>

text \<open>What each group of operations leaves alone.\<close>

lemma upd_sel [simp]:
  "st_peers (upd_peer r p st) = (st_peers st)(r := p)"
  "st_rooms (upd_peer r p st) = st_rooms st" "st_files (upd_peer r p st) = st_files st"
  "st_subscribers (upd_peer r p st) = st_subscribers st"
  "st_peerAlive (upd_peer r p st) = st_peerAlive st"
  "st_subscriberAlive (upd_peer r p st) = st_subscriberAlive st"
  "st_next (upd_peer r p st) = st_next st" "st_counters (upd_peer r p st) = st_counters st"
  "st_effects (upd_peer r p st) = st_effects st"
  "st_rooms (upd_room r rm st) = (st_rooms st)(r := rm)"
  "st_peers (upd_room r rm st) = st_peers st" "st_files (upd_room r rm st) = st_files st"
  "st_subscribers (upd_room r rm st) = st_subscribers st"
  "st_peerAlive (upd_room r rm st) = st_peerAlive st"
  "st_subscriberAlive (upd_room r rm st) = st_subscriberAlive st"
  "st_next (upd_room r rm st) = st_next st" "st_counters (upd_room r rm st) = st_counters st"
  "st_effects (upd_room r rm st) = st_effects st"
  "st_files (upd_file r f st) = (st_files st)(r := f)"
  "st_rooms (upd_file r f st) = st_rooms st" "st_peers (upd_file r f st) = st_peers st"
  "st_subscribers (upd_file r f st) = st_subscribers st"
  "st_peerAlive (upd_file r f st) = st_peerAlive st"
  "st_subscriberAlive (upd_file r f st) = st_subscriberAlive st"
  "st_next (upd_file r f st) = st_next st" "st_counters (upd_file r f st) = st_counters st"
  "st_effects (upd_file r f st) = st_effects st"
  "st_subscribers (upd_subscriber r s st) = (st_subscribers st)(r := s)"
  "st_rooms (upd_subscriber r s st) = st_rooms st" "st_files (upd_subscriber r s st) = st_files st"
  "st_peers (upd_subscriber r s st) = st_peers st"
  "st_peerAlive (upd_subscriber r s st) = st_peerAlive st"
  "st_subscriberAlive (upd_subscriber r s st) = st_subscriberAlive st"
  "st_next (upd_subscriber r s st) = st_next st"
  "st_counters (upd_subscriber r s st) = st_counters st"
  "st_effects (upd_subscriber r s st) = st_effects st"
  by (simp_all add: store_defs)

lemma upd_more [simp]:
  "Heap.more (upd_peer r p st) = Heap.more st" "Heap.more (upd_room r rm st) = Heap.more st"
  "Heap.more (upd_file r f st) = Heap.more st" "Heap.more (upd_subscriber r s st) = Heap.more st"
  "Heap.more (emit es st) = Heap.more st"
  by (simp_all add: store_defs)

lemma emit_sel [simp]:
  "st_peers (emit es st) = st_peers st" "st_rooms (emit es st) = st_rooms st"
  "st_files (emit es st) = st_files st" "st_subscribers (emit es st) = st_subscribers st"
  "st_peerAlive (emit es st) = st_peerAlive st" "st_subscriberAlive (emit es st) = st_subscriberAlive st"
  "st_next (emit es st) = st_next st" "st_effects (emit es st) = st_effects st @ es"
  by (simp_all add: store_defs)

lemma peer_do_sel [simp]:
  "st_peers (peer_do r f st) = (st_peers st)(r := fst (f (st_peers st r)))"
  "st_rooms (peer_do r f st) = st_rooms st" "st_files (peer_do r f st) = st_files st"
  "st_subscribers (peer_do r f st) = st_subscribers st"
  "st_peerAlive (peer_do r f st) = st_peerAlive st"
  "st_subscriberAlive (peer_do r f st) = st_subscriberAlive st"
  "st_next (peer_do r f st) = st_next st" "Heap.more (peer_do r f st) = Heap.more st"
  by (simp_all add: peer_do_def split: prod.splits)

end
