(* ===== verification/Rooms.thy ===== *)
theory Rooms
  imports Store
begin

text \<open>
  \<^verbatim>\<open>server/src/rooms/Room.cpp\<close>: membership, the durable publication of messages (one sequence
  number, one history entry, one broadcast), replay of the history, the files peers share in a room
  and the heartbeat sweep. An operation that can throw returns \<open>Inl\<close> the exception together with
  the state at the throw; nothing is rolled back.
\<close>

section \<open>Membership\<close>

definition Room_getName :: "room_ref \<Rightarrow> 'z Heap_scheme \<Rightarrow> string" where
  "Room_getName rr st = rm_name (st_rooms st rr)"

definition Room_addPeer ::
  "room_ref \<Rightarrow> peer_ref \<Rightarrow> 'z Heap_scheme \<Rightarrow> 'z Heap_scheme \<times> bool" where
  "Room_addPeer rr pr st =
     (let rm = st_rooms st rr
      in if \<not> hasCapacity (length (rm_peerById rm)) Limits_peersPerRoom then (st, False)
         else (upd_room rr (rm\<lparr>rm_peerById :=
                 um_assign (p_peerId (st_peers st pr)) pr (rm_peerById rm)\<rparr>) st, True))"

definition Room_hasPeerCapacity :: "room_ref \<Rightarrow> 'z Heap_scheme \<Rightarrow> bool" where
  "Room_hasPeerCapacity rr st =
     hasCapacity (length (rm_peerById (st_rooms st rr))) Limits_peersPerRoom"

definition room_peers :: "room_ref \<Rightarrow> 'z Heap_scheme \<Rightarrow> peer_ref list" where
  "room_peers rr st = map snd (rm_peerById (st_rooms st rr))"

definition Room_getPeers :: "room_ref \<Rightarrow> 'z Heap_scheme \<Rightarrow> PeerDto list" where
  "Room_getPeers rr st =
     map (\<lambda>pr. \<lparr>pd_peerId = Some (p_peerId (st_peers st pr)),
               pd_peerName = Some (p_nickname (st_peers st pr))\<rparr>) (room_peers rr st)"

definition Room_getPeerById :: "room_ref \<Rightarrow> int \<Rightarrow> 'z Heap_scheme \<Rightarrow> peer_ref option" where
  "Room_getPeerById rr peerId st = findById (rm_peerById (st_rooms st rr)) peerId"

definition Room_getFileById :: "room_ref \<Rightarrow> int \<Rightarrow> 'z Heap_scheme \<Rightarrow> file_ref option" where
  "Room_getFileById rr fileId st = findById (rm_fileById (st_rooms st rr)) fileId"

definition Room_isEmpty :: "room_ref \<Rightarrow> 'z Heap_scheme \<Rightarrow> bool" where
  "Room_isEmpty rr st \<longleftrightarrow> rm_peerById (st_rooms st rr) = []"

section \<open>Broadcast\<close>

definition Room_sendMessageAsync ::
  "Env \<Rightarrow> room_ref \<Rightarrow> MessageDto \<Rightarrow> peer_ref option \<Rightarrow> 'z Heap_scheme \<Rightarrow> 'z Heap_scheme" where
  "Room_sendMessageAsync env rr msg excluded st =
     fold (\<lambda>pr st. if Some pr \<noteq> excluded then peer_send env pr msg st else st) (room_peers rr st) st"

definition Room_publishConnectionState ::
  "Env \<Rightarrow> room_ref \<Rightarrow> peer_ref \<Rightarrow> bool \<Rightarrow> 'z Heap_scheme \<Rightarrow> 'z Heap_scheme" where
  "Room_publishConnectionState env rr pr connected st =
     Room_sendMessageAsync env rr
       (message CODE_PEER_CONNECTION_STATE
          (\<lambda>b. b\<lparr>mb_peerId := Some (p_peerId (st_peers st pr)), mb_connected := Some connected\<rparr>))
       None st"

section \<open>Durable history\<close>

definition history_limit :: "Env \<Rightarrow> nat" where
  "history_limit env = (case env_maxRoomHistoryMessages env of None \<Rightarrow> 0 | Some n \<Rightarrow> unat n)"

definition Room_addHistoryMessage ::
  "Env \<Rightarrow> room_ref \<Rightarrow> MessageDto \<Rightarrow> 'z Heap_scheme \<Rightarrow> 'z Heap_scheme \<times> (exn + MessageDto)" where
  "Room_addHistoryMessage env rr msg st =
     (let rm = st_rooms st rr
      in case RoomSequencer_next (rm_sequencer rm) of
           (sq, None) \<Rightarrow> (st, Inl (overflow_error ''room server sequence exhausted''))
         | (sq, Some sequence) \<Rightarrow>
             let msg = set_serverSeq sequence msg;
                 rm = rm\<lparr>rm_sequencer := sq\<rparr>
             in if history_limit env = 0 then (upd_room rr rm st, Inr msg)
                else (upd_room rr
                        (rm\<lparr>rm_history := retainLast (rm_history rm @ [msg]) (history_limit env)\<rparr>) st,
                      Inr msg))"

text \<open>\<open>beforeBroadcast\<close> receives the sequence number and may throw.\<close>

definition Room_publishDurable ::
  "Env \<Rightarrow> room_ref \<Rightarrow> MessageDto \<Rightarrow> peer_ref option \<Rightarrow>
     (u64 \<Rightarrow> 'z Heap_scheme \<Rightarrow> 'z Heap_scheme \<times> exn option) \<Rightarrow> 'z Heap_scheme \<Rightarrow>
     'z Heap_scheme \<times> (exn + MessageDto)" where
  "Room_publishDurable env rr msg excluded beforeBroadcast st =
     (case Room_addHistoryMessage env rr msg st of
        (st, Inl e) \<Rightarrow> (st, Inl e)
      | (st, Inr msg) \<Rightarrow>
          (case beforeBroadcast (case msg_serverSeq msg of Some n \<Rightarrow> n | None \<Rightarrow> 0) st of
             (st, Some e) \<Rightarrow> (st, Inl e)
           | (st, None) \<Rightarrow> (Room_sendMessageAsync env rr msg excluded st, Inr msg)))"

definition no_callback :: "u64 \<Rightarrow> 'z Heap_scheme \<Rightarrow> 'z Heap_scheme \<times> exn option" where
  "no_callback n st = (st, None)"

definition Room_welcomePeer ::
  "Env \<Rightarrow> room_ref \<Rightarrow> peer_ref \<Rightarrow> 'z Heap_scheme \<Rightarrow> 'z Heap_scheme \<times> exn option" where
  "Room_welcomePeer env rr pr st =
     (let p = st_peers st pr;
          msg = message CODE_PEER_JOINED (\<lambda>b. b\<lparr>mb_peerId := Some (p_peerId p),
            mb_peerName := Some (p_nickname p),
            mb_message := Some (p_nickname p @ '' - joined room'')\<rparr>)
      in case Room_publishDurable env rr msg (Some pr) no_callback st of
           (st, Inl e) \<Rightarrow> (st, Some e) | (st, Inr m) \<Rightarrow> (st, None))"

definition Room_goodbyePeer ::
  "Env \<Rightarrow> room_ref \<Rightarrow> peer_ref \<Rightarrow> 'z Heap_scheme \<Rightarrow> 'z Heap_scheme \<times> exn option" where
  "Room_goodbyePeer env rr pr st =
     (let p = st_peers st pr;
          msg = message CODE_PEER_LEFT (\<lambda>b. b\<lparr>mb_peerId := Some (p_peerId p),
            mb_message := Some (p_nickname p @ '' - left room'')\<rparr>)
      in case Room_publishDurable env rr msg None no_callback st of
           (st, Inl e) \<Rightarrow> (st, Some e) | (st, Inr m) \<Rightarrow> (st, None))"

definition Room_latestServerSeq :: "room_ref \<Rightarrow> 'z Heap_scheme \<Rightarrow> u64" where
  "Room_latestServerSeq rr st = RoomSequencer_latest (rm_sequencer (st_rooms st rr))"

definition Room_getHistoryAfter ::
  "room_ref \<Rightarrow> u64 \<Rightarrow> 'z Heap_scheme \<Rightarrow> MessageDto list \<times> bool" where
  "Room_getHistoryAfter rr cursor st =
     (let rm = st_rooms st rr;
          earliest = (case rm_history rm of [] \<Rightarrow> None | m # _ \<Rightarrow> msg_serverSeq m);
          resyncRequired = requiresReplayResync cursor (RoomSequencer_latest (rm_sequencer rm)) earliest
      in (filter (\<lambda>m. resyncRequired \<or>
                     (case msg_serverSeq m of Some n \<Rightarrow> n > cursor | None \<Rightarrow> False)) (rm_history rm),
          resyncRequired))"

definition Room_getHistory :: "Env \<Rightarrow> room_ref \<Rightarrow> 'z Heap_scheme \<Rightarrow> MessageDto list option" where
  "Room_getHistory env rr st =
     (if history_limit env = 0 then None else Some (rm_history (st_rooms st rr)))"

definition Room_onboardPeer ::
  "Env \<Rightarrow> room_ref \<Rightarrow> peer_ref \<Rightarrow> 'z Heap_scheme \<Rightarrow> 'z Heap_scheme" where
  "Room_onboardPeer env rr pr st =
     (let p = st_peers st pr;
          info = message CODE_INFO (\<lambda>b. b\<lparr>mb_peerId := Some (p_peerId p),
            mb_peerName := Some (p_nickname p), mb_peers := Some (Room_getPeers rr st)\<rparr>)
      in peer_send env pr (MessageDto (msg_body info) (Room_getHistory env rr st)) st)"

section \<open>Files\<close>

definition Room_eraseFiles :: "room_ref \<Rightarrow> file_ref list \<Rightarrow> 'z Heap_scheme \<Rightarrow> 'z Heap_scheme" where
  "Room_eraseFiles rr files st =
     (let rm = st_rooms st rr
      in upd_room rr (rm\<lparr>rm_fileById :=
           fold (\<lambda>fr m. um_erase (f_serverFileId (st_files st fr)) m) files (rm_fileById rm)\<rparr>) st)"

definition Room_takeFiles ::
  "room_ref \<Rightarrow> peer_ref \<Rightarrow> 'z Heap_scheme \<Rightarrow> 'z Heap_scheme \<times> file_ref list" where
  "Room_takeFiles rr pr st =
     (let (p, files) = Peer_takeFilesSnapshot (st_peers st pr)
      in (Room_eraseFiles rr files (upd_peer pr p st), files))"

definition Room_removePeerById :: "room_ref \<Rightarrow> int \<Rightarrow> 'z Heap_scheme \<Rightarrow> 'z Heap_scheme" where
  "Room_removePeerById rr peerId st =
     (let rm = st_rooms st rr
      in case um_find (rm_peerById rm) peerId of
           None \<Rightarrow> st
         | Some pr \<Rightarrow>
             let st = upd_room rr (rm\<lparr>rm_peerById := um_erase peerId (rm_peerById rm)\<rparr>) st;
                 (st, files) = Room_takeFiles rr pr st
             in fold File_clearSubscribers files st)"

text \<open>The descriptors have been validated by the caller: the three fields read here are present.\<close>

definition descriptor_file :: "peer_ref \<Rightarrow> int \<Rightarrow> FileDto \<Rightarrow> File" where
  "descriptor_file host serverFileId d =
     File_new host (case fd_clientFileId d of Some i \<Rightarrow> i | None \<Rightarrow> 0) serverFileId
       (case fd_name d of Some n \<Rightarrow> n | None \<Rightarrow> []) (case fd_size d of Some n \<Rightarrow> n | None \<Rightarrow> 0)
       (fd_mediaType d)"

definition Room_createFile ::
  "room_ref \<Rightarrow> peer_ref \<Rightarrow> FileDto \<Rightarrow> 'z Heap_scheme \<Rightarrow> 'z Heap_scheme \<times> file_ref" where
  "Room_createFile rr host d st =
     (let rm = st_rooms st rr; fr = st_next st
      in ((upd_file fr (descriptor_file host (rm_fileIdCounter rm) d)
            (upd_room rr (rm\<lparr>rm_fileIdCounter := i64_succ (rm_fileIdCounter rm)\<rparr>) st))
              \<lparr>st_next := Suc fr\<rparr>, fr))"

fun Room_createFiles ::
  "room_ref \<Rightarrow> peer_ref \<Rightarrow> FileDto list \<Rightarrow> 'z Heap_scheme \<Rightarrow> 'z Heap_scheme \<times> file_ref list" where
  "Room_createFiles rr host [] st = (st, [])"
| "Room_createFiles rr host (d # ds) st =
     (let (st, fr) = Room_createFile rr host d st;
          (st, frs) = Room_createFiles rr host ds st
      in (st, fr # frs))"

text \<open>\<^verbatim>\<open>m_fileById.merge(prepared)\<close>: entries whose key is taken stay behind in \<open>prepared\<close>.\<close>

definition um_merge :: "('k, 'v) umap \<Rightarrow> ('k, 'v) umap \<Rightarrow> ('k, 'v) umap \<times> ('k, 'v) umap" where
  "um_merge m prepared =
     (fold (\<lambda>(k, v) m. um_emplace k v m) prepared m,
      filter (\<lambda>e. um_find m (fst e) \<noteq> None) prepared)"

definition Room_shareFiles ::
  "room_ref \<Rightarrow> int \<Rightarrow> FileDto list option \<Rightarrow> 'z Heap_scheme \<Rightarrow>
     'z Heap_scheme \<times> (exn + file_ref list)" where
  "Room_shareFiles rr hostPeerId descriptors st =
     (case (Room_getPeerById rr hostPeerId st, descriptors) of
        (Some host, Some ds) \<Rightarrow>
          if \<not> hasCapacityFor (length (Peer_getFilesSnapshot (st_peers st host))) (length ds)
                Limits_filesPerPeer then (st, Inr [])
          else
            let (st, files) = Room_createFiles rr host ds st;
                prepared = fold (\<lambda>fr m. um_emplace (f_serverFileId (st_files st fr)) fr m) files [];
                st = upd_peer host (Peer_addFiles files (st_peers st host)) st;
                rm = st_rooms st rr;
                (merged, left) = um_merge (rm_fileById rm) prepared;
                st = upd_room rr (rm\<lparr>rm_fileById := merged\<rparr>) st
            in if left \<noteq> [] then (st, Inl (logic_error ''generated duplicate server file id''))
               else (emit (map (\<lambda>_. Count EVENT_PEER_SHARE_FILE) files) st, Inr files)
      | _ \<Rightarrow> (st, Inr []))"

definition withdrawn_descriptor :: "File \<Rightarrow> FileDto" where
  "withdrawn_descriptor f = FileDto_createShared\<lparr>fd_serverFileId := Some (f_serverFileId f),
     fd_name := Some (f_fileName f), fd_size := Some (f_fileSize f), fd_available := Some False\<rparr>"

definition Room_withdrawPeerFiles ::
  "Env \<Rightarrow> room_ref \<Rightarrow> peer_ref \<Rightarrow> 'z Heap_scheme \<Rightarrow> 'z Heap_scheme \<times> exn option" where
  "Room_withdrawPeerFiles env rr pr st =
     (if Peer_getFilesSnapshot (st_peers st pr) = [] then (st, None)
      else
        let (st, files) = Room_takeFiles rr pr st;
            st = fold File_clearSubscribers files st;
            p = st_peers st pr;
            unavailable = message CODE_PEER_MESSAGE_FILE (\<lambda>b. b\<lparr>mb_peerId := Some (p_peerId p),
              mb_peerName := Some (p_nickname p),
              mb_files := Some (map (\<lambda>fr. Some (withdrawn_descriptor (st_files st fr))) files)\<rparr>)
        in case Room_publishDurable env rr unavailable None no_callback st of
             (st, Inl e) \<Rightarrow> (st, Some e) | (st, Inr m) \<Rightarrow> (st, None))"

section \<open>Heartbeat sweep\<close>

definition Room_pingPeer :: "time \<Rightarrow> peer_ref \<Rightarrow> 'z Heap_scheme \<Rightarrow> 'z Heap_scheme" where
  "Room_pingPeer now pr st =
     (let generation = p_socketGeneration (st_peers st pr);
          (p, es, tick) = Peer_sendPingAsync now (st_peers st pr);
          st = emit es (upd_peer pr p st)
      in if tick \<noteq> EXPIRED then st
         else
           let (p, es, hit) = Peer_invalidateSocketIfCurrent generation HEARTBEAT_TIMEOUT (st_peers st pr);
               st = emit es (upd_peer pr p st)
           in if hit then emit [Count EVENT_PEER_ZOMBIE_DROPPED] st else st)"

definition Room_pingAllPeers :: "time \<Rightarrow> room_ref \<Rightarrow> 'z Heap_scheme \<Rightarrow> 'z Heap_scheme" where
  "Room_pingAllPeers now rr st = fold (Room_pingPeer now) (room_peers rr st) st"

section \<open>Sending changes queues only\<close>

text \<open>The part of a peer that no transport operation changes.\<close>

definition identity :: "Peer \<Rightarrow> room_ref \<times> string \<times> int \<times> file_ref list \<times> string \<times> DedupeWindow" where
  "identity p = (p_room p, p_nickname p, p_peerId p, p_files p, p_fileCapabilityId p, p_dedupe p)"

lemma identity_iff: "identity p = identity q \<longleftrightarrow>
    p_room p = p_room q \<and> p_nickname p = p_nickname q \<and> p_peerId p = p_peerId q
  \<and> p_files p = p_files q \<and> p_fileCapabilityId p = p_fileCapabilityId q \<and> p_dedupe p = p_dedupe q"
  by (auto simp: identity_def)

lemma identity_closing [simp]: "identity (closing r p) = identity p"
  by (simp add: identity_iff)

lemma identity_send [simp]: "identity (fst (Peer_sendMessageAsync jb m p)) = identity p"
  by (auto simp: Peer_sendMessageAsync_def Let_def invalidateIf_pair Peer_startOutboundDrain_def
      identity_iff split: option.split)

definition quiet :: "'z Heap_scheme \<Rightarrow> 'z Heap_scheme \<Rightarrow> bool" where
  "quiet st st' \<longleftrightarrow>
     st_rooms st' = st_rooms st \<and> st_files st' = st_files st
   \<and> st_subscribers st' = st_subscribers st \<and> st_peerAlive st' = st_peerAlive st
   \<and> st_subscriberAlive st' = st_subscriberAlive st \<and> st_next st' = st_next st
   \<and> Heap.more st' = Heap.more st
   \<and> (\<forall>r. identity (st_peers st' r) = identity (st_peers st r))"

lemma quiet_refl [simp]: "quiet st st"
  by (simp add: quiet_def)

lemma quiet_trans: "quiet a b \<Longrightarrow> quiet b c \<Longrightarrow> quiet a c"
  by (auto simp: quiet_def)

interpretation quiet: frame_relation quiet
  by unfold_locales (auto intro: quiet_trans)

lemma quiet_send [simp]: "quiet st (peer_send env r m st)"
  by (simp add: quiet_def peer_send_def)

lemma quiet_emit [simp]: "quiet st (emit es st)"
  by (simp add: quiet_def)

lemma quiet_broadcast [simp]: "quiet st (Room_sendMessageAsync env rr m ex st)"
  unfolding Room_sendMessageAsync_def by (rule quiet.loop) simp

lemma quiet_connection_state [simp]: "quiet st (Room_publishConnectionState env rr pr b st)"
  by (simp add: Room_publishConnectionState_def)

lemma identity_ping [simp]: "identity (fst (Peer_sendPingAsync now p)) = identity p"
  by (auto simp: Peer_sendPingAsync_def identity_iff Let_def split: prod.splits option.split)

lemma quiet_pingPeer [simp]: "quiet st (Room_pingPeer now pr st)"
proof -
  obtain p es t where ping: "Peer_sendPingAsync now (st_peers st pr) = (p, es, t)"
    by (cases "Peer_sendPingAsync now (st_peers st pr)") auto
  then have "identity p = identity (st_peers st pr)" using identity_ping [of now "st_peers st pr"] by simp
  with ping show ?thesis
    by (auto simp: Room_pingPeer_def Let_def invalidateIf_pair quiet_def)
qed

lemma quiet_pingAll [simp]: "quiet st (Room_pingAllPeers now rr st)"
  unfolding Room_pingAllPeers_def by (rule quiet.loop) simp

lemma peer_do_other: "st_peers (peer_do r f st) q = (if q = r then fst (f (st_peers st r)) else st_peers st q)"
  by simp

text \<open>A broadcast puts the message on the queue of every member but the excluded one, once, and
  changes nobody else.\<close>

lemma broadcast_fold:
  "distinct ps \<Longrightarrow>
     st_peers (fold (\<lambda>pr st. if Some pr \<noteq> ex then peer_send env pr m st else st) ps st) q =
    (if q \<in> set ps \<and> Some q \<noteq> ex
     then fst (Peer_sendMessageAsync (env_jsonBytes env) m (st_peers st q)) else st_peers st q)"
  by (induction ps arbitrary: st) (auto simp: peer_send_def)

lemma broadcast_peers:
  assumes "distinct (room_peers rr st)"
  shows "st_peers (Room_sendMessageAsync env rr m ex st) q =
    (if q \<in> set (room_peers rr st) \<and> Some q \<noteq> ex
     then fst (Peer_sendMessageAsync (env_jsonBytes env) m (st_peers st q)) else st_peers st q)"
  unfolding Room_sendMessageAsync_def by (rule broadcast_fold [OF assms])

section \<open>The retained history\<close>

text \<open>The retained messages carry the unbroken run of sequence numbers that ends at the latest one.\<close>

definition seq_of :: "MessageDto \<Rightarrow> nat" where
  "seq_of m = (case msg_serverSeq m of Some n \<Rightarrow> unat n | None \<Rightarrow> 0)"

definition history_ok :: "nat \<Rightarrow> Room \<Rightarrow> bool" where
  "history_ok limit rm \<longleftrightarrow>
     (\<forall>m \<in> set (rm_history rm). msg_serverSeq m \<noteq> None)
   \<and> length (rm_history rm) \<le> limit \<and> length (rm_history rm) \<le> unat (rm_sequencer rm)
   \<and> (limit \<noteq> 0 \<longrightarrow> rm_history rm = [] \<longrightarrow> rm_sequencer rm = 0)
   \<and> map seq_of (rm_history rm)
       = [Suc (unat (rm_sequencer rm)) - length (rm_history rm) ..< Suc (unat (rm_sequencer rm))]"

lemma history_ok_new [simp]: "history_ok limit (Room_new name)"
  by (simp add: history_ok_def Room_new_def RoomSequencer_new_def)

lemma history_ok_append:
  assumes ok: "history_ok limit rm" and lim: "limit \<noteq> 0" and "rm_sequencer rm \<noteq> - 1"
    and m: "msg_serverSeq m = Some (rm_sequencer rm + 1)"
  shows "history_ok limit (rm\<lparr>rm_sequencer := rm_sequencer rm + 1,
           rm_history := retainLast (rm_history rm @ [m]) limit\<rparr>)"
proof -
  let ?h = "rm_history rm" and ?n = "unat (rm_sequencer rm)"
  have n: "unat (rm_sequencer rm + 1) = Suc ?n" by (rule unat_succ_u64 [OF assms(3)])
  have seqm: "seq_of m = Suc ?n" using m n by (simp add: seq_of_def)
  have len: "length ?h \<le> ?n" "length ?h \<le> limit" using ok by (auto simp: history_ok_def)
  have all: "map seq_of (?h @ [m]) = [Suc ?n - length ?h ..< Suc (Suc ?n)]"
    using ok seqm by (simp add: history_ok_def)
  define k where "k = Suc (length ?h) - limit"
  define h where "h = drop k (?h @ [m])"
  have kept: "retainLast (?h @ [m]) limit = h"
    by (simp add: retainLast_drop h_def k_def)
  have lh: "length h = Suc (length ?h) - k" by (simp add: h_def)
  have "map seq_of h = drop k [Suc ?n - length ?h ..< Suc (Suc ?n)]"
    using all by (simp only: h_def drop_map [symmetric])
  also have "\<dots> = [Suc (Suc ?n) - length h ..< Suc (Suc ?n)]"
    unfolding drop_upt using len lim lh by (intro arg_cong2 [of _ _ _ _ upt] refl) (auto simp: k_def)
  finally have "map seq_of h = [Suc (Suc ?n) - length h ..< Suc (Suc ?n)]" .
  moreover have "\<forall>x \<in> set h. msg_serverSeq x \<noteq> None"
    using ok m by (auto simp: history_ok_def h_def dest!: in_set_dropD)
  moreover have "length h \<le> limit" "length h \<le> Suc ?n" "h \<noteq> []"
    using len lim lh by (auto simp: k_def)
  ultimately show ?thesis by (simp add: history_ok_def kept n del: upt_Suc)
qed

lemma addHistory_cases:
  assumes "Room_addHistoryMessage env rr msg st = (st', r)"
  obtains (exhausted) "rm_sequencer (st_rooms st rr) = - 1" "st' = st"
      "r = Inl (overflow_error ''room server sequence exhausted'')"
  | (added) n h where "rm_sequencer (st_rooms st rr) \<noteq> - 1" "n = rm_sequencer (st_rooms st rr) + 1"
      "r = Inr (set_serverSeq n msg)"
      "st' = upd_room rr ((st_rooms st rr)\<lparr>rm_sequencer := n, rm_history := h\<rparr>) st"
      "h = (if history_limit env = 0 then rm_history (st_rooms st rr)
            else retainLast (rm_history (st_rooms st rr) @ [set_serverSeq n msg]) (history_limit env))"
proof (cases "rm_sequencer (st_rooms st rr) = - 1")
  case True
  with assms show ?thesis
    by (intro exhausted) (auto simp: Room_addHistoryMessage_def RoomSequencer_next_def)
next
  case False
  let ?rm = "st_rooms st rr"
  have keep: "?rm\<lparr>rm_sequencer := n\<rparr> = ?rm\<lparr>rm_sequencer := n, rm_history := rm_history ?rm\<rparr>" for n by simp
  from False assms show ?thesis
    by (intro added [of "rm_sequencer ?rm + 1"])
       (auto simp: Room_addHistoryMessage_def RoomSequencer_next_def Let_def split: if_splits)
qed

lemma addHistory_ok:
  assumes "history_ok (history_limit env) (st_rooms st rr)"
    and "Room_addHistoryMessage env rr msg st = (st', r)"
  shows "history_ok (history_limit env) (st_rooms st' rr)"
  using assms(2)
proof (cases rule: addHistory_cases)
  case (added n h)
  show ?thesis
  proof (cases "history_limit env = 0")
    case True
    with assms(1) added show ?thesis
      by (auto simp: history_ok_def unat_succ_u64)
  next
    case False
    with added have "st_rooms st' rr = (st_rooms st rr)\<lparr>rm_sequencer := rm_sequencer (st_rooms st rr) + 1,
        rm_history := retainLast (rm_history (st_rooms st rr) @ [set_serverSeq n msg]) (history_limit env)\<rparr>"
      by simp
    then show ?thesis
      using history_ok_append [OF assms(1) False added(1), of "set_serverSeq n msg"] added(2) by simp
  qed
qed (use assms in simp)

section \<open>Publication\<close>

lemma publishDurable_plain:
  assumes "Room_publishDurable env rr msg ex no_callback st = (st', r)"
  obtains (exhausted) "rm_sequencer (st_rooms st rr) = - 1" "st' = st"
      "r = Inl (overflow_error ''room server sequence exhausted'')"
  | (published) st1 n h where "rm_sequencer (st_rooms st rr) \<noteq> - 1"
      "n = rm_sequencer (st_rooms st rr) + 1" "r = Inr (set_serverSeq n msg)"
      "st1 = upd_room rr ((st_rooms st rr)\<lparr>rm_sequencer := n, rm_history := h\<rparr>) st"
      "h = (if history_limit env = 0 then rm_history (st_rooms st rr)
            else retainLast (rm_history (st_rooms st rr) @ [set_serverSeq n msg]) (history_limit env))"
      "st' = Room_sendMessageAsync env rr (set_serverSeq n msg) ex st1"
proof -
  obtain st1 r1 where add: "Room_addHistoryMessage env rr msg st = (st1, r1)"
    by (cases "Room_addHistoryMessage env rr msg st")
  from add show ?thesis
  proof (cases rule: addHistory_cases)
    case e: exhausted
    with add assms show ?thesis by (intro exhausted) (auto simp: Room_publishDurable_def)
  next
    case a: (added n h)
    with add assms show ?thesis
      by (intro published [of n st1 h]) (auto simp: Room_publishDurable_def no_callback_def)
  qed
qed

lemma broadcast_rooms [simp]: "st_rooms (Room_sendMessageAsync env rr m ex st) = st_rooms st"
  using quiet_broadcast [of st env rr m ex] by (simp add: quiet_def)

lemma publishDurable_history_ok:
  assumes "history_ok (history_limit env) (st_rooms st r)"
    and "Room_publishDurable env rr msg ex no_callback st = (st', res)"
  shows "history_ok (history_limit env) (st_rooms st' r)"
proof -
  obtain st1 r1 where add: "Room_addHistoryMessage env rr msg st = (st1, r1)"
    by (cases "Room_addHistoryMessage env rr msg st")
  have "st_rooms st' = st_rooms st1"
    using assms(2) add by (auto simp: Room_publishDurable_def no_callback_def split: sum.splits)
  moreover have "history_ok (history_limit env) (st_rooms st1 r)"
  proof (cases "r = rr")
    case True
    with addHistory_ok [OF _ add] assms(1) show ?thesis by simp
  next
    case False
    from add have "st_rooms st1 r = st_rooms st r"
      by (cases rule: addHistory_cases) (use False in auto)
    with assms(1) show ?thesis by simp
  qed
  ultimately show ?thesis by simp
qed

text \<open>A room that publishes a list of messages (each with its excluded peer), one after the other.\<close>

fun Room_publishAll ::
  "Env \<Rightarrow> room_ref \<Rightarrow> (MessageDto \<times> peer_ref option) list \<Rightarrow> 'z Heap_scheme \<Rightarrow> 'z Heap_scheme" where
  "Room_publishAll env rr [] st = st"
| "Room_publishAll env rr ((m, ex) # ms) st =
     Room_publishAll env rr ms (fst (Room_publishDurable env rr m ex no_callback st))"

lemma publishAll_append [simp]:
  "Room_publishAll env rr (xs @ ys) st = Room_publishAll env rr ys (Room_publishAll env rr xs st)"
  by (induction xs arbitrary: st) auto

lemma publishAll_ok:
  "history_ok (history_limit env) (st_rooms st rr) \<Longrightarrow>
     history_ok (history_limit env) (st_rooms (Room_publishAll env rr ms st) rr)"
proof (induction ms arbitrary: st)
  case (Cons e ms)
  obtain m ex where e: "e = (m, ex)" by (cases e)
  obtain st' r where "Room_publishDurable env rr m ex no_callback st = (st', r)"
    by (cases "Room_publishDurable env rr m ex no_callback st")
  with publishDurable_history_ok [OF Cons.prems this] Cons.IH show ?case by (simp add: e)
qed simp

definition numbered :: "MessageDto list \<Rightarrow> MessageDto list" where
  "numbered ms = map (\<lambda>(i, m). set_serverSeq (of_nat (Suc i)) m) (enumerate 0 ms)"

lemma length_numbered [simp]: "length (numbered ms) = length ms"
  by (simp add: numbered_def)

lemma numbered_snoc: "numbered (ms @ [m]) = numbered ms @ [set_serverSeq (of_nat (Suc (length ms))) m]"
  by (simp add: numbered_def enumerate_append_eq)

lemma publishAll_exact:
  assumes "st_rooms st rr = Room_new name" and "length ms < 2 ^ 64"
  shows "rm_sequencer (st_rooms (Room_publishAll env rr ms st) rr) = of_nat (length ms)
    \<and> rm_history (st_rooms (Room_publishAll env rr ms st) rr)
      = drop (length ms - history_limit env) (numbered (map fst ms))"
  using assms(2)
proof (induction ms rule: rev_induct)
  case Nil
  with assms(1) show ?case by (simp add: Room_new_def RoomSequencer_new_def numbered_def)
next
  case (snoc e ms)
  obtain m ex where e: "e = (m, ex)" by (cases e)
  let ?st = "Room_publishAll env rr ms st" and ?L = "history_limit env"
  from snoc have sq: "rm_sequencer (st_rooms ?st rr) = of_nat (length ms)"
    and hist: "rm_history (st_rooms ?st rr) = drop (length ms - ?L) (numbered (map fst ms))" by auto
  have "unat (of_nat (length ms) :: u64) = length ms"
    using snoc.prems by (simp add: unat_of_nat)
  then have "(of_nat (length ms) :: u64) \<noteq> - 1"
    using snoc.prems by (auto simp: unsigned_minus_1_eq_mask mask_eq_exp_minus_1 dest!: arg_cong [of _ _ unat])
  then have room: "rm_sequencer (st_rooms ?st rr) \<noteq> - 1" by (simp add: sq)
  obtain st' r where pub: "Room_publishDurable env rr m ex no_callback ?st = (st', r)"
    by (cases "Room_publishDurable env rr m ex no_callback ?st")
  from pub show ?case
  proof (cases rule: publishDurable_plain)
    case exhausted
    with room show ?thesis by simp
  next
    case (published st1 n h)
    let ?new = "set_serverSeq n m"
    have n: "n = of_nat (Suc (length ms))" using published(2) sq by simp
    have "h = drop (Suc (length ms) - ?L) (numbered (map fst ms @ [m]))"
    proof (cases "?L = 0")
      case True
      then show ?thesis using published(5) hist by (simp add: numbered_snoc)
    next
      case False
      have "h = drop (Suc (length (drop (length ms - ?L) (numbered (map fst ms)))) - ?L)
          (drop (length ms - ?L) (numbered (map fst ms)) @ [?new])"
        using False published(5) hist by (simp add: retainLast_drop)
      also have "\<dots> = drop (Suc (length ms) - ?L) (numbered (map fst ms) @ [?new])"
        using False by (cases "length ms < ?L") (auto simp: Suc_diff_le)
      finally show ?thesis by (simp add: numbered_snoc n)
    qed
    with published pub show ?thesis by (simp add: e n)
  qed
qed

section \<open>Replay\<close>

lemma filter_above_upt: "filter (\<lambda>k. c < k) [a ..< b] = [max a (Suc c) ..< b]"
proof (induction b)
  case (Suc b)
  show ?case
  proof (cases "a \<le> b")
    case True
    with Suc show ?thesis by (auto simp: max_def)
  qed simp
qed simp

lemma history_after_exact:
  assumes ok: "history_ok limit (st_rooms st rr)"
    and after: "Room_getHistoryAfter rr cursor st = (msgs, resync)"
  defines "latest \<equiv> unat (Room_latestServerSeq rr st)"
    and "kept \<equiv> rm_history (st_rooms st rr)"
  shows "resync \<longleftrightarrow> latest < unat cursor \<or> unat cursor + length kept < latest"
    and "resync \<Longrightarrow> msgs = kept"
    and "\<not> resync \<Longrightarrow> map seq_of msgs = [Suc (unat cursor) ..< Suc latest]"
proof -
  let ?rm = "st_rooms st rr"
  let ?e = "case kept of [] \<Rightarrow> None | m # _ \<Rightarrow> msg_serverSeq m"
  have l: "latest = unat (rm_sequencer ?rm)"
    by (simp add: latest_def Room_latestServerSeq_def RoomSequencer_latest_def)
  have seqs: "map seq_of kept = [Suc latest - length kept ..< Suc latest]"
    and some: "\<And>m. m \<in> set kept \<Longrightarrow> msg_serverSeq m \<noteq> None" and len: "length kept \<le> latest"
    using ok by (auto simp: history_ok_def kept_def l simp del: upt_Suc)
  have res: "resync = requiresReplayResync cursor (rm_sequencer ?rm) ?e"
    and msgs: "msgs = filter (\<lambda>m. resync \<or>
        (case msg_serverSeq m of Some n \<Rightarrow> n > cursor | None \<Rightarrow> False)) kept"
    using after by (auto simp: Room_getHistoryAfter_def Let_def RoomSequencer_latest_def kept_def)
  show iff: "resync \<longleftrightarrow> latest < unat cursor \<or> unat cursor + length kept < latest"
  proof (cases kept)
    case Nil
    then show ?thesis by (auto simp: res requiresReplayResync_def l word_less_nat_alt)
  next
    case (Cons m ms)
    then obtain e where e: "msg_serverSeq m = Some e" using some by force
    have "unat e = Suc latest - length kept"
      using seqs len Cons e by (simp add: seq_of_def upt_conv_Cons del: upt_Suc)
    moreover have "unat (e - 1) = unat e - 1" if "e > 0"
      using that by (simp add: unat_minus_one word_gt_0)
    ultimately show ?thesis
      using len Cons e by (auto simp: res requiresReplayResync_def l word_less_nat_alt)
  qed
  show "resync \<Longrightarrow> msgs = kept" using msgs by simp
  show "map seq_of msgs = [Suc (unat cursor) ..< Suc latest]" if "\<not> resync"
  proof -
    have "msgs = filter (\<lambda>m. unat cursor < seq_of m) kept"
      unfolding msgs using that some
      by (intro filter_cong refl) (fastforce simp: seq_of_def word_less_nat_alt split: option.splits)
    then have "map seq_of msgs = filter (\<lambda>k. unat cursor < k) (map seq_of kept)"
      by (simp add: filter_map o_def)
    also have "\<dots> = [max (Suc latest - length kept) (Suc (unat cursor)) ..< Suc latest]"
      unfolding seqs by (rule filter_above_upt)
    also have "max (Suc latest - length kept) (Suc (unat cursor)) = Suc (unat cursor)"
      using that iff len by (auto simp: max_def)
    finally show ?thesis .
  qed
qed

section \<open>Properties\<close>

text \<open>C8: durable publication is exact. After any list of messages has been published in a fresh room,
  the latest sequence number is their count, and the retained history is the last of them (as many
  as the configured bound), in order, numbered 1, 2, 3, \<dots> without gaps or repetitions.\<close>

theorem publish_history_exact:
  assumes "st_rooms st rr = Room_new name" and "length ms < 2 ^ 64"
  shows "let st' = Room_publishAll env rr ms st in
      unat (Room_latestServerSeq rr st') = length ms
    \<and> rm_history (st_rooms st' rr)
        = drop (length ms - history_limit env) (numbered (map fst ms))
    \<and> map seq_of (numbered (map fst ms)) = [1 ..< Suc (length ms)]"
proof -
  have un: "unat (of_nat k :: u64) = k" if "k \<le> length ms" for k
    using that assms(2) by (simp add: unat_of_nat)
  have "map seq_of (numbered (map fst ms)) = [1 ..< Suc (length ms)]"
  proof (rule nth_equalityI)
    fix i assume "i < length (map seq_of (numbered (map fst ms)))"
    then have i: "i < length ms" by simp
    then have "seq_of (numbered (map fst ms) ! i) = unat (of_nat (Suc i) :: u64)"
      by (simp add: numbered_def nth_enumerate_eq seq_of_def)
    with i un [of "Suc i"] show "map seq_of (numbered (map fst ms)) ! i = [1 ..< Suc (length ms)] ! i"
      by (simp del: of_nat_Suc upt_Suc)
  qed (simp del: upt_Suc)
  then show ?thesis
    using publishAll_exact [OF assms, of env] un [of "length ms"]
    by (simp add: Let_def Room_latestServerSeq_def RoomSequencer_latest_def)
qed

text \<open>An environment for the examples: every frame is 100 bytes and two messages are retained.\<close>

definition demo_env :: Env where
  "demo_env = \<lparr>env_jsonBytes = (\<lambda>_. 100), env_readFromString = (\<lambda>_. Inl (runtime_error [])),
     env_base64Decode = (\<lambda>s. Inr (Some s)), env_sha256 = (\<lambda>s. s),
     env_maxMessageSizeBytes = 8192, env_maxRoomHistoryMessages = Some 2\<rparr>"

theorem publish_history_exact_witness:
  "let m = message CODE_PEER_LEFT id;
       st = Room_publishAll demo_env 0 [(m, None), (m, None), (m, None)]
              (Heap_new\<lparr>st_rooms := (\<lambda>_. Room_new ''r'')\<rparr>)
   in rm_history (st_rooms st 0) = [set_serverSeq 2 m, set_serverSeq 3 m]"
proof -
  let ?m = "message CODE_PEER_LEFT id"
  let ?st = "Heap_new\<lparr>st_rooms := (\<lambda>_. Room_new ''r'')\<rparr>"
  have "st_rooms ?st 0 = Room_new ''r''" "length [(?m, None), (?m, None), (?m, None)] < 2 ^ 64"
    by simp_all
  from publish_history_exact [OF this, of demo_env] show ?thesis
    by (simp add: Let_def numbered_def history_limit_def demo_env_def del: Room_publishAll.simps)
qed

text \<open>replay after a reconnect is exact. Whatever a room has published, a client that asks for the
  history after its cursor either gets precisely the messages numbered from its cursor plus one
  to the latest, each once and in order, or is told to resynchronise and gets the whole retained
  history; and it is told so exactly when its cursor is ahead of the room or some message it
  missed is no longer retained.\<close>

theorem replay_exact:
  assumes "st_rooms st0 rr = Room_new name"
    and "st = Room_publishAll env rr ms st0"
    and "Room_getHistoryAfter rr cursor st = (msgs, resync)"
  shows "(\<not> resync \<longrightarrow>
        map seq_of msgs = [Suc (unat cursor) ..< Suc (unat (Room_latestServerSeq rr st))])
    \<and> (resync \<longrightarrow> msgs = rm_history (st_rooms st rr))
    \<and> (resync \<longleftrightarrow> unat (Room_latestServerSeq rr st) < unat cursor
         \<or> unat cursor + length (rm_history (st_rooms st rr)) < unat (Room_latestServerSeq rr st))"
proof -
  have "history_ok (history_limit env) (st_rooms st rr)"
    unfolding assms(2) by (rule publishAll_ok) (simp add: assms(1))
  from history_after_exact [OF this assms(3)] show ?thesis by blast
qed

theorem replay_exact_witness:
  "let m = message CODE_PEER_LEFT id;
       st = Room_publishAll demo_env 0 [(m, None)] (Heap_new\<lparr>st_rooms := (\<lambda>_. Room_new ''r'')\<rparr>)
   in snd (Room_getHistoryAfter 0 9 st)"
proof -
  let ?m = "message CODE_PEER_LEFT id"
  let ?st = "Heap_new\<lparr>st_rooms := (\<lambda>_. Room_new ''r'')\<rparr>"
  let ?st' = "Room_publishAll demo_env 0 [(?m, None)] ?st"
  obtain msgs resync where after: "Room_getHistoryAfter 0 9 ?st' = (msgs, resync)"
    by (cases "Room_getHistoryAfter 0 9 ?st'")
  have fresh: "st_rooms ?st 0 = Room_new ''r''" by simp
  have "unat (Room_latestServerSeq 0 ?st') = 1"
    using publishAll_exact [OF fresh, of "[(?m, None)]" demo_env]
    by (simp add: Room_latestServerSeq_def RoomSequencer_latest_def del: Room_publishAll.simps)
  with replay_exact [OF fresh refl after] after show ?thesis
    by (simp add: Let_def del: Room_publishAll.simps)
qed

end
