(* ===== verification/RoomFiles.thy ===== *)
theory RoomFiles
  imports Rooms
begin

text \<open>
  The file index of a room (\<^verbatim>\<open>Room::shareFiles\<close>, \<^verbatim>\<open>withdrawPeerFiles\<close>, \<^verbatim>\<open>removePeerById\<close>): the
  invariant that ties the room's index to the file lists of its members, and what sharing and
  withdrawing do to both.
\<close>

section \<open>Invariant\<close>

definition file_entry_ok :: "room_ref \<Rightarrow> 'z Heap_scheme \<Rightarrow> int \<Rightarrow> file_ref \<Rightarrow> bool" where
  "file_entry_ok rr st i fr \<longleftrightarrow>
     f_serverFileId (st_files st fr) = i \<and> i < rm_fileIdCounter (st_rooms st rr) \<and> fr < st_next st
   \<and> f_host (st_files st fr) \<in> set (room_peers rr st)
   \<and> fr \<in> set (p_files (st_peers st (f_host (st_files st fr))))"

definition member_files_ok :: "room_ref \<Rightarrow> 'z Heap_scheme \<Rightarrow> peer_ref \<Rightarrow> bool" where
  "member_files_ok rr st pr \<longleftrightarrow>
     length (p_files (st_peers st pr)) \<le> Limits_filesPerPeer
   \<and> distinct (p_files (st_peers st pr))
   \<and> (\<forall>fr \<in> set (p_files (st_peers st pr)).
        f_host (st_files st fr) = pr
      \<and> (f_serverFileId (st_files st fr), fr) \<in> set (rm_fileById (st_rooms st rr)))"

definition files_ok :: "room_ref \<Rightarrow> 'z Heap_scheme \<Rightarrow> bool" where
  "files_ok rr st \<longleftrightarrow>
     um_valid (rm_fileById (st_rooms st rr)) \<and> um_valid (rm_peerById (st_rooms st rr))
   \<and> (\<forall>(i, fr) \<in> set (rm_fileById (st_rooms st rr)). file_entry_ok rr st i fr)
   \<and> (\<forall>pr \<in> set (room_peers rr st). member_files_ok rr st pr)"

section \<open>Creating file objects\<close>

lemma createFiles_closed:
  assumes "Room_createFiles rr host ds st = (st', frs)"
    and "rm_fileIdCounter (st_rooms st rr) + int (length ds) < 2 ^ 63"
  shows "frs = [st_next st ..< st_next st + length ds]
    \<and> st_next st' = st_next st + length ds
    \<and> st_peers st' = st_peers st \<and> st_subscribers st' = st_subscribers st
    \<and> st_peerAlive st' = st_peerAlive st \<and> st_subscriberAlive st' = st_subscriberAlive st
    \<and> st_counters st' = st_counters st \<and> st_effects st' = st_effects st
    \<and> Heap.more st' = Heap.more st
    \<and> st_rooms st' = (st_rooms st)(rr := (st_rooms st rr)
        \<lparr>rm_fileIdCounter := rm_fileIdCounter (st_rooms st rr) + int (length ds)\<rparr>)
    \<and> (\<forall>fr < st_next st. st_files st' fr = st_files st fr)
    \<and> (\<forall>k < length ds. st_files st' (st_next st + k)
          = descriptor_file host (rm_fileIdCounter (st_rooms st rr) + int k) (ds ! k))"
  using assms
proof (induction ds arbitrary: st st' frs)
  case (Cons d ds)
  let ?c = "rm_fileIdCounter (st_rooms st rr)"
  define st1 where "st1 = fst (Room_createFile rr host d st)"
  obtain frs' where rest: "Room_createFiles rr host ds st1 = (st', frs')" and frs: "frs = st_next st # frs'"
    using Cons.prems(1) by (auto simp: st1_def Room_createFile_def Let_def split: prod.splits)
  have c1: "i64_succ ?c = ?c + 1" using Cons.prems(2) by (intro i64_succ_less) simp
  have st1: "st_next st1 = Suc (st_next st)" "st_peers st1 = st_peers st"
    "st_subscribers st1 = st_subscribers st" "st_peerAlive st1 = st_peerAlive st"
    "st_subscriberAlive st1 = st_subscriberAlive st" "st_counters st1 = st_counters st"
    "st_effects st1 = st_effects st" "Heap.more st1 = Heap.more st"
    "st_rooms st1 = (st_rooms st)(rr := (st_rooms st rr)\<lparr>rm_fileIdCounter := ?c + 1\<rparr>)"
    "st_files st1 = (st_files st)(st_next st := descriptor_file host ?c d)"
    using upd_more(3) [of "st_next st" "descriptor_file host ?c d"
        "upd_room rr ((st_rooms st rr)\<lparr>rm_fileIdCounter := ?c + 1\<rparr>) st"]
    by (simp_all add: st1_def Room_createFile_def Let_def c1 upd_room_def upd_file_def)
  have "rm_fileIdCounter (st_rooms st1 rr) + int (length ds) < 2 ^ 63"
    using Cons.prems(2) by (simp add: st1)
  note IH = Cons.IH [OF rest this]
  have "st_files st' (st_next st + k) = descriptor_file host (?c + int k) ((d # ds) ! k)"
    if "k < length (d # ds)" for k
  proof (cases k)
    case 0
    with IH show ?thesis by (simp add: st1)
  next
    case (Suc j)
    with IH that have "st_files st' (Suc (st_next st) + j) = descriptor_file host (?c + 1 + int j) (ds ! j)"
      by (simp add: st1)
    with Suc show ?thesis by (simp add: add.assoc)
  qed
  moreover have "frs = [st_next st ..< st_next st + length (d # ds)]"
    using IH frs by (simp add: st1 upt_conv_Cons del: upt_Suc)
  moreover have "\<forall>fr < st_next st. st_files st' fr = st_files st fr"
    using IH by (simp add: st1)
  moreover have "st_rooms st' = (st_rooms st)(rr := (st_rooms st rr)
        \<lparr>rm_fileIdCounter := ?c + int (length (d # ds))\<rparr>)"
    using IH by (simp add: st1 add.assoc fun_eq_iff)
  ultimately show ?case using IH by (simp add: st1)
qed simp

lemma emplace_fresh_all:
  assumes "distinct (map fst es)" and "\<And>k v. (k, v) \<in> set es \<Longrightarrow> um_find m k = None"
  shows "fold (\<lambda>(k, v) m. um_emplace k v m) es m = m @ es"
  using assms
proof (induction es arbitrary: m)
  case (Cons e es)
  obtain k v where e: "e = (k, v)" by (cases e)
  have new: "um_emplace k v m = m @ [(k, v)]" using Cons.prems(2) [of k v] e by (intro um_emplace_fresh) simp
  have "um_find (m @ [(k, v)]) j = None" if "(j, w) \<in> set es" for j w
  proof -
    have "um_find m j = None" using Cons.prems(2) [of j w] that by simp
    moreover have "j \<noteq> k" using Cons.prems(1) that e by force
    ultimately show ?thesis by (auto simp: um_find_None)
  qed
  with Cons.IH [of "m @ [(k, v)]"] Cons.prems(1) show ?case by (simp add: e new)
qed simp

lemma merge_fresh:
  assumes "distinct (map fst es)" and "\<And>k v. (k, v) \<in> set es \<Longrightarrow> um_find m k = None"
  shows "um_merge m es = (m @ es, [])"
proof -
  have "filter (\<lambda>e. um_find m (fst e) \<noteq> None) es = []"
    using assms(2) by (fastforce simp: filter_empty_conv)
  then show ?thesis by (simp add: um_merge_def emplace_fresh_all [OF assms])
qed

section \<open>Sharing\<close>

text \<open>The file objects a batch creates, and the index entries for them.\<close>

definition new_entries :: "int \<Rightarrow> file_ref \<Rightarrow> nat \<Rightarrow> (int \<times> file_ref) list" where
  "new_entries counter base n = map (\<lambda>k. (counter + int k, base + k)) [0..<n]"

lemma new_entries_in: "(i, fr) \<in> set (new_entries c b n) \<longleftrightarrow> (\<exists>k < n. i = c + int k \<and> fr = b + k)"
  by (auto simp: new_entries_def)

lemma new_entries_keys: "distinct (map fst (new_entries c b n))"
  by (auto simp: new_entries_def distinct_map inj_on_def)

lemma prepared_entries:
  assumes "\<And>k. k < n \<Longrightarrow> f_serverFileId (st_files st (b + k)) = c + int k"
  shows "fold (\<lambda>fr m. um_emplace (f_serverFileId (st_files st fr)) fr m) [b ..< b + n] [] = new_entries c b n"
proof -
  have "map (\<lambda>fr. (f_serverFileId (st_files st fr), fr)) [b ..< b + n] = new_entries c b n"
    using assms by (intro nth_equalityI) (simp_all add: new_entries_def)
  moreover have "fold (\<lambda>fr m. um_emplace (f_serverFileId (st_files st fr)) fr m) frs m
      = fold (\<lambda>(k, v) m. um_emplace k v m) (map (\<lambda>fr. (f_serverFileId (st_files st fr), fr)) frs) m" for frs m
    by (induction frs arbitrary: m) simp_all
  ultimately show ?thesis
    using emplace_fresh_all [where m = "[]" and es = "new_entries c b n"] new_entries_keys [of c b n]
    by simp
qed

text \<open>The state after a batch of descriptors \<open>ds\<close> has been accepted.\<close>

definition shared_state ::
  "room_ref \<Rightarrow> peer_ref \<Rightarrow> FileDto list \<Rightarrow> 'z Heap_scheme \<Rightarrow> 'z Heap_scheme \<Rightarrow> bool" where
  "shared_state rr host ds st st' \<longleftrightarrow>
     (let rm = st_rooms st rr; n = length ds; frs = [st_next st ..< st_next st + n]
      in st_next st' = st_next st + n
       \<and> st_peers st' = (st_peers st)(host := Peer_addFiles frs (st_peers st host))
       \<and> st_rooms st' = (st_rooms st)(rr := rm
            \<lparr>rm_fileIdCounter := rm_fileIdCounter rm + int n,
             rm_fileById := rm_fileById rm @ new_entries (rm_fileIdCounter rm) (st_next st) n\<rparr>)
       \<and> (\<forall>fr < st_next st. st_files st' fr = st_files st fr)
       \<and> (\<forall>k < n. st_files st' (st_next st + k)
             = descriptor_file host (rm_fileIdCounter rm + int k) (ds ! k))
       \<and> st_subscribers st' = st_subscribers st \<and> st_peerAlive st' = st_peerAlive st
       \<and> st_subscriberAlive st' = st_subscriberAlive st \<and> Heap.more st' = Heap.more st)"

lemma shareFiles_cases:
  assumes ok: "files_ok rr st" and bound: "rm_fileIdCounter (st_rooms st rr) + int Limits_filesPerPeer < 2 ^ 63"
    and share: "Room_shareFiles rr peerId descriptors st = (st', r)"
  obtains (rejected) "st' = st" "r = Inr []"
  | (accepted) host ds where "descriptors = Some ds" "Room_getPeerById rr peerId st = Some host"
      "length (p_files (st_peers st host)) + length ds \<le> Limits_filesPerPeer"
      "r = Inr [st_next st ..< st_next st + length ds]"
      "shared_state rr host ds st st'"
proof -
  let ?rm = "st_rooms st rr"
  consider "Room_getPeerById rr peerId st = None \<or> descriptors = None"
    | host ds where "Room_getPeerById rr peerId st = Some host" "descriptors = Some ds"
    by (cases "Room_getPeerById rr peerId st"; cases descriptors) auto
  then show ?thesis
  proof cases
    case 1
    with share show ?thesis by (intro rejected) (auto simp: Room_shareFiles_def split: option.splits)
  next
    case (2 host ds)
    show ?thesis
    proof (cases "hasCapacityFor (length (p_files (st_peers st host))) (length ds) Limits_filesPerPeer")
      case False
      with 2 share show ?thesis
        by (intro rejected) (auto simp: Room_shareFiles_def Peer_getFilesSnapshot_def)
    next
      case True
      then have cap: "length (p_files (st_peers st host)) + length ds \<le> Limits_filesPerPeer"
        by (simp add: hasCapacityFor_iff)
      let ?c = "rm_fileIdCounter ?rm" and ?b = "st_next st" and ?n = "length ds"
      obtain st1 frs where create: "Room_createFiles rr host ds st = (st1, frs)"
        by (cases "Room_createFiles rr host ds st")
      have "?c + int ?n < 2 ^ 63" using bound cap by linarith
      note st1 = createFiles_closed [OF create this]
      define frs' where "frs' = [?b ..< ?b + ?n]"
      have frs: "frs = frs'" using st1 by (simp add: frs'_def)
      have ids: "f_serverFileId (st_files st1 (?b + k)) = ?c + int k" if "k < ?n" for k
        using st1 that by (simp add: descriptor_file_def File_new_def)
      define prepared where "prepared = new_entries ?c ?b ?n"
      have prep: "fold (\<lambda>fr m. um_emplace (f_serverFileId (st_files st1 fr)) fr m) frs [] = prepared"
        unfolding frs frs'_def prepared_def by (rule prepared_entries [OF ids])
      have fresh: "um_find (rm_fileById ?rm) k = None" if "(k, v) \<in> set prepared" for k v
      proof -
        have "?c \<le> k" using that by (auto simp: prepared_def new_entries_in)
        moreover have "j < ?c" if "(j, fr) \<in> set (rm_fileById ?rm)" for j fr
          using ok that by (auto simp: files_ok_def file_entry_ok_def)
        ultimately show ?thesis by (force simp: um_find_None)
      qed
      have merge: "um_merge (rm_fileById ?rm) prepared = (rm_fileById ?rm @ prepared, [])"
        by (rule merge_fresh [OF new_entries_keys [of ?c ?b ?n, folded prepared_def] fresh])
      define st2 where "st2 = upd_room rr (?rm\<lparr>rm_fileIdCounter := ?c + int ?n,
          rm_fileById := rm_fileById ?rm @ prepared\<rparr>)
        (upd_peer host (Peer_addFiles frs' (st_peers st host)) st1)"
      have res: "st' = emit (map (\<lambda>_. Count EVENT_PEER_SHARE_FILE) frs') st2" "r = Inr frs'"
        using share True 2 create st1 prep merge
        by (auto simp: Room_shareFiles_def Peer_getFilesSnapshot_def Let_def frs st2_def)
      have "shared_state rr host ds st st'"
        using st1 by (auto simp: shared_state_def Let_def res st2_def frs'_def prepared_def)
      with cap 2 res show ?thesis by (intro accepted [of ds host]) (simp_all add: frs'_def)
    qed
  qed
qed

lemma room_peers_find: "um_valid (rm_peerById (st_rooms st rr)) \<Longrightarrow>
    Room_getPeerById rr i st = Some pr \<Longrightarrow> pr \<in> set (room_peers rr st)"
  by (force simp: Room_getPeerById_def findById_def room_peers_def dest: um_find_SomeD)

lemma shared_state_files_ok:
  assumes ok: "files_ok rr st" and host: "host \<in> set (room_peers rr st)"
    and cap: "length (p_files (st_peers st host)) + length ds \<le> Limits_filesPerPeer"
    and shared: "shared_state rr host ds st st'"
  shows "files_ok rr st'"
proof -
  let ?c = "rm_fileIdCounter (st_rooms st rr)" and ?b = "st_next st" and ?n = "length ds"
  define es where "es = new_entries ?c ?b ?n"
  define frs where "frs = [?b ..< ?b + ?n]"
  from shared have peers: "st_peers st' = (st_peers st)(host := Peer_addFiles frs (st_peers st host))"
    and next': "st_next st' = ?b + ?n"
    and rooms: "st_rooms st' rr = (st_rooms st rr)\<lparr>rm_fileIdCounter := ?c + int ?n,
          rm_fileById := rm_fileById (st_rooms st rr) @ es\<rparr>"
    and old: "\<And>fr. fr < ?b \<Longrightarrow> st_files st' fr = st_files st fr"
    and new: "\<And>k. k < ?n \<Longrightarrow> st_files st' (?b + k) = descriptor_file host (?c + int k) (ds ! k)"
    by (auto simp: shared_state_def Let_def es_def frs_def)
  have entry: "file_entry_ok rr st i fr" if "(i, fr) \<in> set (rm_fileById (st_rooms st rr))" for i fr
    using ok that by (auto simp: files_ok_def)
  have member: "member_files_ok rr st pr" if "pr \<in> set (room_peers rr st)" for pr
    using ok that by (auto simp: files_ok_def)
  have below: "fr < ?b" if "pr \<in> set (room_peers rr st)" "fr \<in> set (p_files (st_peers st pr))" for pr fr
    using member [OF that(1)] that(2) entry by (auto simp: member_files_ok_def file_entry_ok_def)
  have files': "p_files (st_peers st' pr) = p_files (st_peers st pr) @ (if pr = host then frs else [])" for pr
    by (simp add: peers Peer_addFiles_def)
  have members: "room_peers rr st' = room_peers rr st" by (simp add: room_peers_def rooms)
  have frs_in: "fr \<in> set frs \<longleftrightarrow> (\<exists>k < ?n. fr = ?b + k)" for fr
    by (auto simp: frs_def) presburger
  have "um_valid (rm_fileById (st_rooms st rr) @ es)"
  proof -
    have "fst ` set (rm_fileById (st_rooms st rr)) \<inter> fst ` set es = {}"
      using entry by (force simp: es_def new_entries_in file_entry_ok_def)
    then show ?thesis
      using ok new_entries_keys [of ?c ?b ?n] by (auto simp: files_ok_def um_valid_def es_def)
  qed
  moreover have "file_entry_ok rr st' i fr" if "(i, fr) \<in> set (rm_fileById (st_rooms st rr) @ es)" for i fr
  proof (cases "(i, fr) \<in> set (rm_fileById (st_rooms st rr))")
    case True
    then have "file_entry_ok rr st i fr" by (rule entry)
    then show ?thesis by (auto simp: file_entry_ok_def old members files' next' rooms)
  next
    case False
    with that obtain k where k: "k < ?n" "i = ?c + int k" "fr = ?b + k"
      by (auto simp: es_def new_entries_in)
    moreover from k(1) have "?b + k \<in> set frs" by (auto simp: frs_in)
    ultimately show ?thesis
      using host by (simp add: file_entry_ok_def new descriptor_file_def File_new_def rooms next' members files')
  qed
  moreover have "member_files_ok rr st' pr" if pr: "pr \<in> set (room_peers rr st)" for pr
  proof -
    note m = member [OF pr, unfolded member_files_ok_def]
    have "set (p_files (st_peers st pr)) \<inter> set frs = {}"
      using below [OF pr] by (force simp: frs_in)
    moreover have "distinct frs" "length frs = ?n" by (simp_all add: frs_def)
    moreover have "f_host (st_files st' fr) = host
        \<and> (f_serverFileId (st_files st' fr), fr) \<in> set es" if "fr \<in> set frs" for fr
      using that by (auto simp: frs_in es_def new_entries_in new descriptor_file_def File_new_def)
    ultimately show ?thesis
      using m cap below [OF pr] by (auto simp: member_files_ok_def files' old rooms)
  qed
  ultimately show ?thesis
    using ok by (auto simp: files_ok_def members rooms)
qed

section \<open>Withdrawing\<close>

lemma erase_all_files:
  "fold (\<lambda>fr m. um_erase (f_serverFileId (st_files st fr)) m) frs m
     = fold um_erase (map (\<lambda>fr. f_serverFileId (st_files st fr)) frs) m"
  by (induction frs arbitrary: m) simp_all

lemma set_erase_all: "set (fold um_erase ks m) = {e \<in> set m. fst e \<notin> set ks}"
  by (induction ks arbitrary: m) (auto simp: um_erase_set)

text \<open>Invalidating subscribers touches subscribers only.\<close>

lemma invalidate_all_sel [simp]:
  "st_rooms (fold Subscriber_invalidate_at rs st) = st_rooms st"
  "st_files (fold Subscriber_invalidate_at rs st) = st_files st"
  "st_peers (fold Subscriber_invalidate_at rs st) = st_peers st"
  "st_peerAlive (fold Subscriber_invalidate_at rs st) = st_peerAlive st"
  "st_subscriberAlive (fold Subscriber_invalidate_at rs st) = st_subscriberAlive st"
  "st_next (fold Subscriber_invalidate_at rs st) = st_next st"
  "st_counters (fold Subscriber_invalidate_at rs st) = st_counters st"
  "st_effects (fold Subscriber_invalidate_at rs st) = st_effects st"
  "Heap.more (fold Subscriber_invalidate_at rs st) = Heap.more st"
  by (induction rs arbitrary: st) (simp_all add: Subscriber_invalidate_at_def)

lemma invalidate_all_subscribers:
  "s_valid (st_subscribers (fold Subscriber_invalidate_at rs st) r)
     \<longleftrightarrow> r \<notin> set rs \<and> s_valid (st_subscribers st r)"
  by (induction rs arbitrary: st) (auto simp: Subscriber_invalidate_at_def Subscriber_invalidate_def)

lemma clearSubscribers_sel [simp]:
  "st_rooms (File_clearSubscribers fr st) = st_rooms st"
  "st_peers (File_clearSubscribers fr st) = st_peers st"
  "st_peerAlive (File_clearSubscribers fr st) = st_peerAlive st"
  "st_subscriberAlive (File_clearSubscribers fr st) = st_subscriberAlive st"
  "st_next (File_clearSubscribers fr st) = st_next st"
  "st_counters (File_clearSubscribers fr st) = st_counters st"
  "st_effects (File_clearSubscribers fr st) = st_effects st"
  "Heap.more (File_clearSubscribers fr st) = Heap.more st"
  "st_files (File_clearSubscribers fr st) = (st_files st)(fr := (st_files st fr)\<lparr>f_available := False, f_subscribers := []\<rparr>)"
  by (simp_all add: File_clearSubscribers_def Let_def)

lemma clear_all_sel [simp]:
  "st_rooms (fold File_clearSubscribers frs st) = st_rooms st"
  "st_peers (fold File_clearSubscribers frs st) = st_peers st"
  "st_peerAlive (fold File_clearSubscribers frs st) = st_peerAlive st"
  "st_subscriberAlive (fold File_clearSubscribers frs st) = st_subscriberAlive st"
  "st_next (fold File_clearSubscribers frs st) = st_next st"
  "Heap.more (fold File_clearSubscribers frs st) = Heap.more st"
  by (induction frs arbitrary: st) simp_all

lemma clear_all_files:
  "st_files (fold File_clearSubscribers frs st) fr =
     (if fr \<in> set frs then (st_files st fr)\<lparr>f_available := False, f_subscribers := []\<rparr> else st_files st fr)"
  by (induction frs arbitrary: st) auto

lemma clear_all_invalid:
  "r \<in> set (live_subscribers st (st_files st fr)) \<Longrightarrow> fr \<in> set frs \<Longrightarrow> distinct frs \<Longrightarrow>
     \<not> s_valid (st_subscribers (fold File_clearSubscribers frs st) r)"
proof (induction frs arbitrary: st)
  case (Cons g frs)
  have stays: "\<not> s_valid (st_subscribers (fold File_clearSubscribers fs t) r)"
    if "\<not> s_valid (st_subscribers t r)" for fs and t :: "'a Heap_scheme"
    using that
    by (induction fs arbitrary: t)
       (simp_all add: File_clearSubscribers_def Let_def invalidate_all_subscribers)
  show ?case
  proof (cases "g = fr")
    case True
    with Cons.prems(1) have "\<not> s_valid (st_subscribers (File_clearSubscribers g st) r)"
      by (simp add: File_clearSubscribers_def Let_def invalidate_all_subscribers)
    then show ?thesis by (simp add: stays)
  next
    case False
    with Cons.prems have "r \<in> set (live_subscribers (File_clearSubscribers g st)
        (st_files (File_clearSubscribers g st) fr))" "fr \<in> set frs" "distinct frs"
      by (auto simp: live_subscribers_def)
    from Cons.IH [OF this] show ?thesis by simp
  qed
qed simp

lemma takeFiles_closed:
  assumes "Room_takeFiles rr pr st = (st', frs)"
  shows "frs = p_files (st_peers st pr)"
    and "st_peers st' = (st_peers st)(pr := (st_peers st pr)\<lparr>p_files := []\<rparr>)"
    and "st_rooms st' = (st_rooms st)(rr := (st_rooms st rr)\<lparr>rm_fileById :=
          fold um_erase (map (\<lambda>fr. f_serverFileId (st_files st fr)) frs) (rm_fileById (st_rooms st rr))\<rparr>)"
    and "st_files st' = st_files st" and "st_subscribers st' = st_subscribers st"
    and "st_subscriberAlive st' = st_subscriberAlive st" and "st_next st' = st_next st"
    and "st_peerAlive st' = st_peerAlive st" and "Heap.more st' = Heap.more st"
  using assms
  by (auto simp: Room_takeFiles_def Peer_takeFilesSnapshot_def Room_eraseFiles_def Let_def erase_all_files)

text \<open>Taking the files of a member removes exactly that member's entries from the index.\<close>

lemma takeFiles_index:
  assumes ok: "files_ok rr st" and pr: "pr \<in> set (room_peers rr st)"
    and take: "Room_takeFiles rr pr st = (st', frs)"
  shows "set (rm_fileById (st_rooms st' rr))
      = {(i, fr) \<in> set (rm_fileById (st_rooms st rr)). f_host (st_files st fr) \<noteq> pr}"
    and "um_valid (rm_fileById (st_rooms st' rr))"
proof -
  let ?ix = "rm_fileById (st_rooms st rr)"
  let ?ids = "map (\<lambda>fr. f_serverFileId (st_files st fr)) (p_files (st_peers st pr))"
  note t = takeFiles_closed [OF take]
  have valid: "um_valid ?ix" using ok by (simp add: files_ok_def)
  have member: "member_files_ok rr st pr" using ok pr by (simp add: files_ok_def)
  have gone: "i \<in> set ?ids \<longleftrightarrow> f_host (st_files st fr) = pr" if e: "(i, fr) \<in> set ?ix" for i fr
  proof
    assume "i \<in> set ?ids"
    then obtain fr' where fr': "fr' \<in> set (p_files (st_peers st pr))" "i = f_serverFileId (st_files st fr')"
      by auto
    with member have "(i, fr') \<in> set ?ix" "f_host (st_files st fr') = pr"
      by (auto simp: member_files_ok_def)
    with e valid show "f_host (st_files st fr) = pr" by (metis um_find_in option.inject)
  next
    assume "f_host (st_files st fr) = pr"
    moreover have "file_entry_ok rr st i fr" using ok e by (auto simp: files_ok_def)
    ultimately show "i \<in> set ?ids" by (auto simp: file_entry_ok_def)
  qed
  show "set (rm_fileById (st_rooms st' rr)) = {(i, fr) \<in> set ?ix. f_host (st_files st fr) \<noteq> pr}"
  proof -
    have "set (rm_fileById (st_rooms st' rr)) = {e \<in> set ?ix. fst e \<notin> set ?ids}"
      by (simp add: t set_erase_all)
    also have "\<dots> = {(i, fr) \<in> set ?ix. f_host (st_files st fr) \<noteq> pr}"
    proof (intro Collect_cong)
      fix e :: "int \<times> file_ref"
      obtain i fr where "e = (i, fr)" by (cases e)
      then show "(e \<in> set ?ix \<and> fst e \<notin> set ?ids)
          = (case e of (i, fr) \<Rightarrow> (i, fr) \<in> set ?ix \<and> f_host (st_files st fr) \<noteq> pr)"
        using gone [of i fr] by (simp only: prod.case fst_conv) blast
    qed
    finally show ?thesis .
  qed
  show "um_valid (rm_fileById (st_rooms st' rr))"
    by (simp add: t um.erase_all_valid [OF valid])
qed

lemma files_ok_after_take:
  assumes ok: "files_ok rr st" and pr: "pr \<in> set (room_peers rr st)"
    and take: "Room_takeFiles rr pr st = (st1, frs)"
    and members: "um_valid ps" "set (map snd ps) \<subseteq> set (room_peers rr st)"
      "set (room_peers rr st) \<subseteq> insert pr (set (map snd ps))"
    and st2: "st_rooms st2 rr = (st_rooms st1 rr)\<lparr>rm_peerById := ps\<rparr>" "st_peers st2 = st_peers st1"
      "st_next st2 = st_next st1"
      "\<And>fr. f_host (st_files st2 fr) = f_host (st_files st fr)
         \<and> f_serverFileId (st_files st2 fr) = f_serverFileId (st_files st fr)"
  shows "files_ok rr st2"
proof -
  note t = takeFiles_closed [OF take] and ix = takeFiles_index [OF ok pr take]
  have peers2: "room_peers rr st2 = map snd ps" by (simp add: room_peers_def st2)
  have "file_entry_ok rr st2 i fr" if "(i, fr) \<in> set (rm_fileById (st_rooms st1 rr))" for i fr
  proof -
    from that ix(1) have "(i, fr) \<in> set (rm_fileById (st_rooms st rr))" and other: "f_host (st_files st fr) \<noteq> pr"
      by auto
    with ok have "file_entry_ok rr st i fr" by (auto simp: files_ok_def)
    with other members show ?thesis by (auto simp: file_entry_ok_def st2 t peers2)
  qed
  moreover have "member_files_ok rr st2 q" if "q \<in> set (room_peers rr st2)" for q
  proof (cases "q = pr")
    case True
    then show ?thesis by (simp add: member_files_ok_def st2 t)
  next
    case False
    from that members(2) have "q \<in> set (room_peers rr st)" by (auto simp: peers2)
    with ok have m: "member_files_ok rr st q" by (simp add: files_ok_def)
    with False ix(1) show ?thesis by (auto simp: member_files_ok_def st2 t)
  qed
  ultimately show ?thesis using ix(2) members(1) by (auto simp: files_ok_def st2)
qed

lemma subscribe_refused: "\<not> f_available (st_files st fr) \<Longrightarrow> snd (File_subscribe_at fr st) = None"
  by (simp add: File_subscribe_at_def Let_def File_subscribe_def)

section \<open>Properties\<close>

text \<open>C16: sharing files is atomic. In a consistent room, a batch of descriptors is either refused
  with nothing changed, or accepted whole: the server file ids are fresh and consecutive, every
  file belongs to the sharing peer, the same files are added to the room's index and to the
  peer's list, the peer keeps at most 32 files, the room stays consistent, and the duplicate-id
  error cannot occur.\<close>

theorem share_files_atomic:
  assumes "files_ok rr st"
    and "rm_fileIdCounter (st_rooms st rr) + int Limits_filesPerPeer < 2 ^ 63"
    and "Room_shareFiles rr peerId descriptors st = (st', r)"
  shows "(st' = st \<and> r = Inr []) \<or>
    (\<exists>host ds. descriptors = Some ds \<and> Room_getPeerById rr peerId st = Some host
      \<and> r = Inr [st_next st ..< st_next st + length ds] \<and> shared_state rr host ds st st'
      \<and> length (p_files (st_peers st' host)) \<le> 32 \<and> files_ok rr st')"
  using assms
proof (cases rule: shareFiles_cases)
  case (accepted host ds)
  have "host \<in> set (room_peers rr st)"
    using assms(1) accepted(2) by (intro room_peers_find) (simp_all add: files_ok_def)
  then have "files_ok rr st'" by (rule shared_state_files_ok [OF assms(1) _ accepted(3,5)])
  moreover have "length (p_files (st_peers st' host)) \<le> 32"
    using accepted(3,5) by (simp add: shared_state_def Let_def Peer_addFiles_def Limits_filesPerPeer_def)
  ultimately show ?thesis using accepted by blast
qed simp

text \<open>A room with one member and no files, for the examples.\<close>

definition demo_heap :: Heap where
  "demo_heap = Heap_new\<lparr>st_next := 3,
     st_peers := (\<lambda>_. Peer_new 0 0 [] 0 0)(1 := Peer_new 7 0 ''ann'' 1 0),
     st_peerAlive := (\<lambda>r. r = 1),
     st_rooms := (\<lambda>_. Room_new [])(0 := (Room_new ''lobby'')\<lparr>rm_peerById := [(1, 1)]\<rparr>)\<rparr>"

lemma demo_heap_ok: "files_ok 0 demo_heap"
  by (simp add: files_ok_def demo_heap_def Heap_new_def Room_new_def um_valid_def room_peers_def
      member_files_ok_def Peer_new_def Let_def TransportGeneration_replace_def)

theorem share_files_atomic_witness:
  "let d = FileDto_createShared\<lparr>fd_clientFileId := Some 4, fd_name := Some ''a'', fd_size := Some 10\<rparr>
   in \<exists>st'. Room_shareFiles 0 1 (Some [d]) demo_heap = (st', Inr [3]) \<and> files_ok 0 st'"
proof -
  let ?d = "FileDto_createShared\<lparr>fd_clientFileId := Some 4, fd_name := Some ''a'', fd_size := Some 10\<rparr>"
  obtain st' r where share: "Room_shareFiles 0 1 (Some [?d]) demo_heap = (st', r)"
    by (cases "Room_shareFiles 0 1 (Some [?d]) demo_heap")
  have bound: "rm_fileIdCounter (st_rooms demo_heap 0) + int Limits_filesPerPeer < 2 ^ 63"
    by (simp add: demo_heap_def Room_new_def Limits_filesPerPeer_def)
  have "snd (Room_shareFiles 0 1 (Some [?d]) demo_heap) = Inr [3]"
    by (simp add: Room_shareFiles_def demo_heap_def Room_getPeerById_def findById_def um_find_def
        Peer_getFilesSnapshot_def hasCapacityFor_def Limits_filesPerPeer_def Peer_new_def Let_def
        TransportGeneration_replace_def Room_new_def Room_createFile_def um_merge_def um_emplace_def
        upd_file_def upd_room_def upd_peer_def descriptor_file_def File_new_def Heap_new_def
        emit_def)
  with share share_files_atomic [OF demo_heap_ok bound share] show ?thesis by (auto simp: Let_def)
qed

lemma room_peers_without:
  assumes "um_valid (rm_peerById (st_rooms st rr))" and "um_find (rm_peerById (st_rooms st rr)) i = Some pr"
  shows "um_valid (um_erase i (rm_peerById (st_rooms st rr)))"
    and "set (map snd (um_erase i (rm_peerById (st_rooms st rr)))) \<subseteq> set (room_peers rr st)"
    and "set (room_peers rr st) \<subseteq> insert pr (set (map snd (um_erase i (rm_peerById (st_rooms st rr)))))"
proof -
  let ?ps = "rm_peerById (st_rooms st rr)"
  show "um_valid (um_erase i ?ps)" by (rule um.valid_erase [OF assms(1)])
  show "set (map snd (um_erase i ?ps)) \<subseteq> set (room_peers rr st)" by (auto simp: um_erase_set room_peers_def)
  have "q = pr \<or> (j, q) \<in> set (um_erase i ?ps)" if "(j, q) \<in> set ?ps" for j q
    using that assms by (cases "j = i") (simp_all add: um_find_in [symmetric] um_erase_set)
  then show "set (room_peers rr st) \<subseteq> insert pr (set (map snd (um_erase i ?ps)))"
    by (force simp: room_peers_def)
qed

text \<open>C17: when a peer leaves, its files are gone for good. Removing a member of a consistent room
  deletes exactly its entries from the file index, keeps everyone else's, leaves the room
  consistent without the member, makes every file it shared refuse new downloads, and invalidates
  every download of them that was running.\<close>

theorem remove_peer_withdraws_files:
  assumes ok: "files_ok rr st" and i: "um_find (rm_peerById (st_rooms st rr)) i = Some pr"
  shows "let st' = Room_removePeerById rr i st in
      files_ok rr st' \<and> Room_getPeerById rr i st' = None \<and> p_files (st_peers st' pr) = []
    \<and> set (rm_fileById (st_rooms st' rr))
        = {(j, fr) \<in> set (rm_fileById (st_rooms st rr)). f_host (st_files st fr) \<noteq> pr}
    \<and> (\<forall>fr \<in> set (p_files (st_peers st pr)).
         snd (File_subscribe_at fr st') = None
       \<and> (\<forall>r \<in> set (live_subscribers st (st_files st fr)). \<not> s_valid (st_subscribers st' r)))"
proof -
  let ?rm = "st_rooms st rr"
  let ?ps = "um_erase i (rm_peerById ?rm)"
  define st0 where "st0 = upd_room rr (?rm\<lparr>rm_peerById := ?ps\<rparr>) st"
  obtain st1 frs where take: "Room_takeFiles rr pr st0 = (st1, frs)" by (cases "Room_takeFiles rr pr st0")
  obtain st1' frs' where take': "Room_takeFiles rr pr st = (st1', frs')" by (cases "Room_takeFiles rr pr st")
  define st' where "st' = fold File_clearSubscribers frs st1"
  have rem: "Room_removePeerById rr i st = st'"
    using i take by (simp add: Room_removePeerById_def Let_def st0_def st'_def)
  note t = takeFiles_closed [OF take] and t' = takeFiles_closed [OF take']
  have pr: "pr \<in> set (room_peers rr st)" using um_find_SomeD [OF i] by (force simp: room_peers_def)
  have valid: "um_valid (rm_peerById ?rm)" using ok by (simp add: files_ok_def)
  note ps = room_peers_without [OF valid i]
  have rooms: "st_rooms st' rr = (st_rooms st1' rr)\<lparr>rm_peerById := ?ps\<rparr>"
    by (simp add: st'_def t t' st0_def)
  have "files_ok rr st'"
    by (rule files_ok_after_take [OF ok pr take' ps rooms])
       (simp_all add: st'_def t t' st0_def clear_all_files)
  moreover have "set (rm_fileById (st_rooms st' rr))
        = {(j, fr) \<in> set (rm_fileById ?rm). f_host (st_files st fr) \<noteq> pr}"
    using takeFiles_index(1) [OF ok pr take'] by (simp add: rooms)
  moreover have "Room_getPeerById rr i st' = None"
    using valid by (simp add: Room_getPeerById_def findById_def rooms um.lookup_erase)
  moreover have frs: "frs = p_files (st_peers st pr)" by (simp add: t st0_def)
  moreover have "p_files (st_peers st' pr) = []" by (simp add: st'_def t)
  moreover have "\<not> s_valid (st_subscribers st' r)"
    if "fr \<in> set frs" "r \<in> set (live_subscribers st (st_files st fr))" for fr r
  proof -
    have "r \<in> set (live_subscribers st1 (st_files st1 fr))"
      using that(2) by (simp add: live_subscribers_def t st0_def)
    moreover have "distinct frs" using ok pr frs by (auto simp: files_ok_def member_files_ok_def)
    ultimately show ?thesis unfolding st'_def using that(1) by (intro clear_all_invalid)
  qed
  moreover have "snd (File_subscribe_at fr st') = None" if "fr \<in> set frs" for fr
    using that by (intro subscribe_refused) (simp add: st'_def clear_all_files)
  ultimately show ?thesis by (simp add: rem Let_def)
qed

theorem remove_peer_withdraws_files_witness:
  "Room_getPeerById 0 1 (Room_removePeerById 0 1 demo_heap) = None"
proof -
  have "um_find (rm_peerById (st_rooms demo_heap 0)) 1 = Some 1"
    by (simp add: demo_heap_def um_find_def)
  from remove_peer_withdraws_files [OF demo_heap_ok this] show ?thesis by (simp add: Let_def)
qed

section \<open>Congruence\<close>

lemma files_ok_cong:
  assumes "files_ok rr st"
    and "rm_fileById (st_rooms st' rr) = rm_fileById (st_rooms st rr)"
    and "rm_peerById (st_rooms st' rr) = rm_peerById (st_rooms st rr)"
    and "rm_fileIdCounter (st_rooms st' rr) = rm_fileIdCounter (st_rooms st rr)"
    and "\<And>r. p_files (st_peers st' r) = p_files (st_peers st r)"
    and "\<And>fr. f_host (st_files st' fr) = f_host (st_files st fr)"
    and "\<And>fr. f_serverFileId (st_files st' fr) = f_serverFileId (st_files st fr)"
    and "st_next st' = st_next st"
  shows "files_ok rr st'"
  using assms(1)
  by (simp add: files_ok_def file_entry_ok_def member_files_ok_def room_peers_def assms(2-8))

lemma quiet_files: "quiet st st' \<Longrightarrow> p_files (st_peers st' r) = p_files (st_peers st r)"
  by (simp add: quiet_def identity_iff)

lemma quiet_files_ok:
  assumes "quiet st st'" and "files_ok rr st"
  shows "files_ok rr st'"
  using assms(1) by (intro files_ok_cong [OF assms(2)]) (simp_all add: quiet_files, simp_all add: quiet_def)

end
