(* ===== verification/PeerCommands.thy ===== *)
theory PeerCommands
  imports RoomFiles
begin

text \<open>
  The command half of \<^verbatim>\<open>server/src/rooms/Peer.cpp\<close>: reassembling frames into messages, dispatching
  them, the retryable commands (chat messages and file offers, each under a client message id), file
  chunks and the error replies. A handler returns the state and either an exception or the
  coroutine for the executor; \<open>tick\<close> is \<^verbatim>\<open>oatpp::Environment::getMicroTickCount()\<close>.
\<close>

section \<open>Replies\<close>

definition api_error :: "string \<Rightarrow> string option \<Rightarrow> MessageDto" where
  "api_error errorMessage clientMessageId =
     message CODE_API_ERROR (\<lambda>b. b\<lparr>mb_message := Some errorMessage,
       mb_clientMessageId := clientMessageId\<rparr>)"

definition Peer_onApiError ::
  "peer_ref \<Rightarrow> string \<Rightarrow> string option \<Rightarrow> 'z Heap_scheme \<Rightarrow> 'z Heap_scheme \<times> (exn + Starter)" where
  "Peer_onApiError pr errorMessage clientMessageId st =
     (let st = peer_do pr Peer_recordProtocolError st
      in (st, Inr (SendErrorThenClose (p_socket (st_peers st pr))
                     (api_error errorMessage clientMessageId))))"

definition Peer_sendMessageAck ::
  "Env \<Rightarrow> peer_ref \<Rightarrow> string \<Rightarrow> u64 \<Rightarrow> 'z Heap_scheme \<Rightarrow> 'z Heap_scheme" where
  "Peer_sendMessageAck env pr clientMessageId serverSeq st =
     peer_send env pr (message CODE_MESSAGE_ACK
       (\<lambda>b. b\<lparr>mb_clientMessageId := Some clientMessageId, mb_serverSeq := Some serverSeq\<rparr>)) st"

text \<open>What a retryable command passes to \<^verbatim>\<open>publishDurable\<close>: record the id under the sequence
  number just assigned.\<close>

definition Peer_rememberCommand ::
  "peer_ref \<Rightarrow> string \<Rightarrow> u64 \<Rightarrow> 'z Heap_scheme \<Rightarrow> 'z Heap_scheme \<times> exn option" where
  "Peer_rememberCommand pr clientMessageId sequence st =
     (let p = st_peers st pr;
          (w, ok) = DedupeWindow_remember clientMessageId sequence (p_dedupe p);
          st = upd_peer pr (p\<lparr>p_dedupe := w\<rparr>) st
      in (st, if ok then None
              else Some (logic_error ''preflighted retryable command was not recordable'')))"

section \<open>File offers\<close>

definition Peer_validateFilesList ::
  "peer_ref \<Rightarrow> FileDto option list \<Rightarrow> 'z Heap_scheme \<Rightarrow> 'z Heap_scheme \<times> (exn + Starter)" where
  "Peer_validateFilesList pr filesList st =
     (if filesList = [] then Peer_onApiError pr ''Files list is empty.'' None st
      else
        (let problem = (\<lambda>d. case d of
               None \<Rightarrow> Some ''File structure is not provided.''
             | Some d \<Rightarrow>
                 if fd_clientFileId d = None then Some ''File clientId is not provided.''
                 else if fd_name d = None then Some ''File name is not provided.''
                 else if fd_size d = None then Some ''File size is not provided.''
                 else None)
         in case find (\<lambda>e. e \<noteq> None) (map problem filesList) of
              Some (Some e) \<Rightarrow> Peer_onApiError pr e None st
            | _ \<Rightarrow> (st, Inr NoAction)))"

definition valid_offer :: "FileDto option \<Rightarrow> bool" where
  "valid_offer file =
     (case file of
        None \<Rightarrow> False
      | Some d \<Rightarrow>
          (case (fd_clientFileId d, fd_name d, fd_size d) of
             (Some i, Some name, Some sz) \<Rightarrow> validFileDescriptor name sz Limits_fileBytes
           | _ \<Rightarrow> False))"

definition offered_descriptor :: "File \<Rightarrow> FileDto" where
  "offered_descriptor f = FileDto_createShared\<lparr>fd_serverFileId := Some (f_serverFileId f),
     fd_name := Some (f_fileName f), fd_size := Some (f_fileSize f), fd_mediaType := f_mediaType f\<rparr>"

definition Peer_handleFilesMessage ::
  "Env \<Rightarrow> int \<Rightarrow> peer_ref \<Rightarrow> MessageDto option \<Rightarrow> 'z Heap_scheme \<Rightarrow>
     'z Heap_scheme \<times> (exn + Starter)" where
  "Peer_handleFilesMessage env tick pr msg st =
     (case msg of
        None \<Rightarrow> Peer_onApiError pr ''No message provided.'' None st
      | Some m \<Rightarrow>
       (case mb_clientMessageId (msg_body m) of
          None \<Rightarrow> Peer_onApiError pr ''Invalid client message id.'' None st
        | Some cid \<Rightarrow>
          if \<not> validClientMessageId cid then Peer_onApiError pr ''Invalid client message id.'' None st
          else
            let files = (case mb_files (msg_body m) of None \<Rightarrow> [] | Some fs \<Rightarrow> fs)
            in if files = [] \<or> length files > Limits_filesPerMessage
               then Peer_onApiError pr ''Invalid files list.'' (Some cid) st
               else if \<not> list_all valid_offer files
               then Peer_onApiError pr ''Invalid file descriptor.'' (Some cid) st
               else case DedupeWindow_find (p_dedupe (st_peers st pr)) cid of
                 Some prior \<Rightarrow> (Peer_sendMessageAck env pr cid prior st, Inr NoAction)
               | None \<Rightarrow>
                   if DedupeWindow_full (p_dedupe (st_peers st pr))
                   then Peer_onApiError pr ''Retryable command capacity reached.'' (Some cid) st
                   else
                     let p = st_peers st pr; rr = p_room p
                     in case Room_shareFiles rr (p_peerId p) (Some (List.map_filter id files)) st of
                          (st, Inl e) \<Rightarrow> (st, Inl e)
                        | (st, Inr sharedFiles) \<Rightarrow>
                            if sharedFiles = [] then Peer_onApiError pr ''File limit reached.'' (Some cid) st
                            else
                              let fileMessage = message CODE_PEER_MESSAGE_FILE
                                    (\<lambda>b. b\<lparr>mb_peerId := Some (p_peerId p),
                                           mb_peerName := Some (p_nickname p),
                                           mb_timestamp := Some tick,
                                           mb_files := Some (map (\<lambda>fr. Some (offered_descriptor
                                             (st_files st fr))) sharedFiles)\<rparr>)
                              in case Room_publishDurable env rr fileMessage None
                                        (Peer_rememberCommand pr cid) st of
                                   (st, Inl e) \<Rightarrow> (st, Inl e)
                                 | (st, Inr sent) \<Rightarrow>
                                     (Peer_sendMessageAck env pr cid
                                        (case msg_serverSeq sent of Some n \<Rightarrow> n | None \<Rightarrow> 0) st,
                                      Inr NoAction)))"

section \<open>File chunks\<close>

definition Peer_handleFileChunkMessage ::
  "Env \<Rightarrow> peer_ref \<Rightarrow> MessageDto option \<Rightarrow> 'z Heap_scheme \<Rightarrow> 'z Heap_scheme \<times> (exn + Starter)" where
  "Peer_handleFileChunkMessage env pr msg st =
     (case msg of
        None \<Rightarrow> Peer_onApiError pr ''No message provided.'' None st
      | Some m \<Rightarrow>
       (case mb_files (msg_body m) of
          None \<Rightarrow> Peer_onApiError pr ''No file provided.'' None st
        | Some filesList \<Rightarrow>
          if length filesList \<noteq> 1
          then Peer_onApiError pr ''Invalid files count. Expected - 1.'' None st
          else case hd filesList of
            None \<Rightarrow> Peer_onApiError pr ''File structure is not provided.'' None st
          | Some d \<Rightarrow>
           (case fd_serverFileId d of
              None \<Rightarrow> Peer_onApiError pr ''File clientId is not provided.'' None st
            | Some fileId \<Rightarrow>
             (case fd_subscriberId d of
                None \<Rightarrow> Peer_onApiError pr ''File subscriberId is not provided.'' None st
              | Some subscriberId \<Rightarrow>
               (case fd_data d of
                  None \<Rightarrow> Peer_onApiError pr ''File chunk data is not provided.'' None st
                | Some encoded \<Rightarrow>
                  let p = st_peers st pr
                  in case Room_getFileById (p_room p) fileId st of
                       None \<Rightarrow> (st, Inr NoAction)
                     | Some fr \<Rightarrow>
                         let f = st_files st fr
                         in if \<not> host_alive st f \<or> p_peerId (st_peers st (f_host f)) \<noteq> p_peerId p
                            then Peer_onApiError pr ''Wrong file host.'' None st
                            else case env_base64Decode env encoded of
                              Inl e \<Rightarrow> (st, Inl e)
                            | Inr decoded \<Rightarrow>
                               (case (decoded, fd_chunkPosition d, fd_chunkSize d, fd_chunkRequestId d) of
                                  (Some bytes, Some position, Some sz, Some requestId) \<Rightarrow>
                                    if \<not> validChunk position sz (length bytes) (f_fileSize f)
                                    then Peer_onApiError pr ''Invalid file chunk.'' None st
                                    else
                                      let (st, result) = File_provideFileChunk fr subscriberId requestId
                                            position sz (Some bytes) st
                                      in if result = INVALID
                                         then Peer_onApiError pr ''Unexpected file chunk.'' None st
                                         else (st, Inr NoAction)
                                | _ \<Rightarrow> Peer_onApiError pr ''Invalid file chunk.'' None st))))))"

section \<open>Dispatch\<close>

definition Peer_handlePeerMessage ::
  "Env \<Rightarrow> peer_ref \<Rightarrow> MessageDto \<Rightarrow> 'z Heap_scheme \<Rightarrow> 'z Heap_scheme \<times> (exn + Starter)" where
  "Peer_handlePeerMessage env pr m st =
     (let content = mb_message (msg_body m); clientMessageId = mb_clientMessageId (msg_body m)
      in if (case content of None \<Rightarrow> True | Some c \<Rightarrow> \<not> validMessageContent c)
         then Peer_onApiError pr ''Invalid message content.'' clientMessageId st
         else case clientMessageId of
           None \<Rightarrow> Peer_onApiError pr ''Invalid client message id.'' None st
         | Some cid \<Rightarrow>
             if \<not> validClientMessageId cid
             then Peer_onApiError pr ''Invalid client message id.'' None st
             else case DedupeWindow_find (p_dedupe (st_peers st pr)) cid of
               Some prior \<Rightarrow> (Peer_sendMessageAck env pr cid prior st, Inr NoAction)
             | None \<Rightarrow>
                 if DedupeWindow_full (p_dedupe (st_peers st pr))
                 then Peer_onApiError pr ''Retryable command capacity reached.'' (Some cid) st
                 else case Room_publishDurable env (p_room (st_peers st pr)) m None
                             (Peer_rememberCommand pr cid) st of
                   (st, Inl e) \<Rightarrow> (st, Inl e)
                 | (st, Inr sent) \<Rightarrow>
                     (emit [Count EVENT_PEER_SEND_MESSAGE]
                        (Peer_sendMessageAck env pr cid
                           (case msg_serverSeq sent of Some n \<Rightarrow> n | None \<Rightarrow> 0) st),
                      Inr NoAction))"

definition Peer_handleMessage ::
  "Env \<Rightarrow> int \<Rightarrow> peer_ref \<Rightarrow> MessageDto option \<Rightarrow> 'z Heap_scheme \<Rightarrow>
     'z Heap_scheme \<times> (exn + Starter)" where
  "Peer_handleMessage env tick pr msg st =
     (case msg of
        None \<Rightarrow> Peer_onApiError pr ''No message provided.'' None st
      | Some m \<Rightarrow>
       (case msg_code m of
          None \<Rightarrow> Peer_onApiError pr ''No message code provided.'' None st
        | Some CODE_PEER_MESSAGE \<Rightarrow> Peer_handlePeerMessage env pr m st
        | Some CODE_PEER_IS_TYPING \<Rightarrow>
            (Room_sendMessageAsync env (p_room (st_peers st pr)) m None st, Inr NoAction)
        | Some CODE_FILE_SHARE \<Rightarrow> Peer_handleFilesMessage env tick pr msg st
        | Some CODE_FILE_CHUNK_DATA \<Rightarrow> Peer_handleFileChunkMessage env pr msg st
        | Some _ \<Rightarrow> Peer_onApiError pr ''Invalid client message code.'' None st))"

section \<open>Frames\<close>

definition frame_too_large :: "Env \<Rightarrow> string \<Rightarrow> string \<Rightarrow> bool" where
  "frame_too_large env buffer frame \<longleftrightarrow>
     (let limit = unat (env_maxMessageSizeBytes env); position = length buffer
      in frame \<noteq> [] \<and> (position > limit \<or> length frame > limit - position))"

text \<open>\<open>frame\<close> is the frame's payload; an empty one marks the end of the message.\<close>

definition Peer_readMessage ::
  "Env \<Rightarrow> time \<Rightarrow> int \<Rightarrow> peer_ref \<Rightarrow> socket_ref \<Rightarrow> string \<Rightarrow> 'z Heap_scheme \<Rightarrow>
     'z Heap_scheme \<times> (exn + Starter)" where
  "Peer_readMessage env now tick pr socket frame st =
     (if Some socket \<noteq> p_socket (st_peers st pr) then (st, Inr NoAction)
      else
        let st = upd_peer pr (Peer_inbound now (st_peers st pr)) st;
            p = st_peers st pr
        in if frame_too_large env (p_messageBuffer p) frame
           then Peer_onApiError pr ''Message size exceeds max allowed size.'' None st
           else if frame = [] then
             let wholeMessage = p_messageBuffer p;
                 st = upd_peer pr (p\<lparr>p_messageBuffer := []\<rparr>) st
             in case env_readFromString env wholeMessage of
                  Inl e \<Rightarrow>
                    if is_runtime_error e then Peer_onApiError pr ''Can't parse message'' None st
                    else (st, Inl e)
                | Inr None \<Rightarrow> Peer_onApiError pr ''No message provided.'' None st
                | Inr (Some m) \<Rightarrow>
                    Peer_handleMessage env tick pr
                      (Some (set_body (\<lambda>b. b\<lparr>mb_peerName := Some (p_nickname p),
                         mb_peerId := Some (p_peerId p), mb_timestamp := Some tick\<rparr>) m)) st
           else (upd_peer pr (p\<lparr>p_messageBuffer := p_messageBuffer p @ frame\<rparr>) st, Inr NoAction))"

section \<open>Replies change queues only\<close>

lemma identity_protocolError [simp]: "identity (fst (Peer_recordProtocolError p)) = identity p"
  by (simp add: Peer_recordProtocolError_def select_pair)

lemma quiet_peer_do: "(\<And>p. identity (fst (f p)) = identity p) \<Longrightarrow> quiet st (peer_do r f st)"
  by (simp add: quiet_def)

lemma apiError_quiet:
  assumes "Peer_onApiError pr e c st = (st', r)"
  shows "quiet st st'" and "\<exists>s. r = Inr (SendErrorThenClose s (api_error e c))"
  using assms by (auto simp: Peer_onApiError_def Let_def intro: quiet_peer_do)

lemma quiet_ack [simp]: "quiet st (Peer_sendMessageAck env pr c n st)"
  by (simp add: Peer_sendMessageAck_def)

text \<open>The possible results of a handler that did not change the room.\<close>

definition rejected :: "exn + Starter \<Rightarrow> bool" where
  "rejected r \<longleftrightarrow> (\<exists>s e c. r = Inr (SendErrorThenClose s (api_error e c)))"

lemma apiError_rejected:
  "Peer_onApiError pr e c st = (st', r) \<Longrightarrow> quiet st st' \<and> rejected r"
  using apiError_quiet [of pr e c st st' r] by (auto simp: rejected_def)

section \<open>Publishing a command\<close>

definition command_ok :: "peer_ref \<Rightarrow> 'z Heap_scheme \<Rightarrow> bool" where
  "command_ok pr st \<longleftrightarrow> DedupeWindow_ok (p_dedupe (st_peers st pr)) \<and> dw_limit (p_dedupe (st_peers st pr)) \<noteq> 0"

text \<open>The state in which a command has been published under sequence number \<open>n\<close>: the room has
  taken the number, the peer has recorded it, and only queues differ otherwise.\<close>

definition published_as ::
  "room_ref \<Rightarrow> peer_ref \<Rightarrow> string \<Rightarrow> u64 \<Rightarrow> MessageDto list \<Rightarrow> 'z Heap_scheme \<Rightarrow> 'z Heap_scheme \<Rightarrow> bool" where
  "published_as rr pr cid n h st st' \<longleftrightarrow>
     (let p = st_peers st pr; w = fst (DedupeWindow_remember cid n (p_dedupe p))
      in quiet (upd_peer pr (p\<lparr>p_dedupe := w\<rparr>)
                 (upd_room rr ((st_rooms st rr)\<lparr>rm_sequencer := n, rm_history := h\<rparr>) st)) st')"

lemma publish_command:
  assumes ok: "command_ok pr st" and cid: "validClientMessageId cid"
    and new: "DedupeWindow_find (p_dedupe (st_peers st pr)) cid = None"
    and room: "\<not> DedupeWindow_full (p_dedupe (st_peers st pr))"
    and pub: "Room_publishDurable env rr msg None (Peer_rememberCommand pr cid) st = (st', r)"
  obtains (exhausted) "rm_sequencer (st_rooms st rr) = - 1" "st' = st"
      "r = Inl (overflow_error ''room server sequence exhausted'')"
  | (published) n h where "rm_sequencer (st_rooms st rr) \<noteq> - 1" "n = rm_sequencer (st_rooms st rr) + 1"
      "r = Inr (set_serverSeq n msg)" "published_as rr pr cid n h st st'"
      "snd (DedupeWindow_remember cid n (p_dedupe (st_peers st pr)))"
proof -
  obtain st1 r1 where add: "Room_addHistoryMessage env rr msg st = (st1, r1)"
    by (cases "Room_addHistoryMessage env rr msg st")
  from add show ?thesis
  proof (cases rule: addHistory_cases)
    case e: exhausted
    with add pub show ?thesis by (intro exhausted) (auto simp: Room_publishDurable_def)
  next
    case a: (added n h)
    let ?w = "DedupeWindow_remember cid n (p_dedupe (st_peers st pr))"
    have "n \<noteq> 0" using a(1,2) by (simp add: eq_neg_iff_add_eq_0)
    with ok cid new room have rem: "snd ?w"
      unfolding command_ok_def by (intro dedupe.record_accepts) auto
    then obtain w where w: "?w = (w, True)" by (cases ?w) auto
    define st2 where "st2 = upd_peer pr ((st_peers st pr)\<lparr>p_dedupe := w\<rparr>) st1"
    have "st_peers st1 = st_peers st" using a(4) by simp
    then have before: "Peer_rememberCommand pr cid n st1 = (st2, None)"
      by (simp add: Peer_rememberCommand_def w st2_def)
    have "st' = Room_sendMessageAsync env rr (set_serverSeq n msg) None st2" "r = Inr (set_serverSeq n msg)"
      using pub add a(3) before by (simp_all add: Room_publishDurable_def)
    moreover have "quiet st2 (Room_sendMessageAsync env rr (set_serverSeq n msg) None st2)" by simp
    ultimately have "published_as rr pr cid n h st st'"
      by (simp add: published_as_def Let_def w st2_def a(4))
    with a rem \<open>r = Inr (set_serverSeq n msg)\<close> show ?thesis by (intro published)
  qed
qed

lemma published_room:
  assumes "published_as rr pr cid n h st st'"
  shows "rm_sequencer (st_rooms st' rr) = n"
    and "r \<noteq> rr \<Longrightarrow> st_rooms st' r = st_rooms st r"
    and "p_dedupe (st_peers st' pr) = fst (DedupeWindow_remember cid n (p_dedupe (st_peers st pr)))"
    and "files_ok rr st \<Longrightarrow> files_ok rr st'"
    and "p_room (st_peers st' pr) = p_room (st_peers st pr)"
    and "rm_fileIdCounter (st_rooms st' rr) = rm_fileIdCounter (st_rooms st rr)"
proof -
  let ?mid = "upd_peer pr ((st_peers st pr)\<lparr>p_dedupe := fst (DedupeWindow_remember cid n (p_dedupe (st_peers st pr)))\<rparr>)
      (upd_room rr ((st_rooms st rr)\<lparr>rm_sequencer := n, rm_history := h\<rparr>) st)"
  have q: "quiet ?mid st'" using assms by (simp add: published_as_def Let_def)
  then show "rm_sequencer (st_rooms st' rr) = n" "r \<noteq> rr \<Longrightarrow> st_rooms st' r = st_rooms st r"
    "p_dedupe (st_peers st' pr) = fst (DedupeWindow_remember cid n (p_dedupe (st_peers st pr)))"
    "p_room (st_peers st' pr) = p_room (st_peers st pr)"
    "rm_fileIdCounter (st_rooms st' rr) = rm_fileIdCounter (st_rooms st rr)"
    by (auto simp: quiet_def identity_iff)
  assume "files_ok rr st"
  then have "files_ok rr ?mid" by (rule files_ok_cong) (simp_all add: fun_upd_def)
  with q show "files_ok rr st'" by (rule quiet_files_ok)
qed

section \<open>One command\<close>

definition command_inv :: "room_ref \<Rightarrow> peer_ref \<Rightarrow> 'z Heap_scheme \<Rightarrow> bool" where
  "command_inv rr pr st \<longleftrightarrow> command_ok pr st \<and> p_room (st_peers st pr) = rr \<and> files_ok rr st"

abbreviation room_seq_no :: "room_ref \<Rightarrow> 'z Heap_scheme \<Rightarrow> nat" where
  "room_seq_no rr st \<equiv> unat (rm_sequencer (st_rooms st rr))"

abbreviation recorded :: "peer_ref \<Rightarrow> 'z Heap_scheme \<Rightarrow> string \<Rightarrow> u64 option" where
  "recorded pr st \<equiv> DedupeWindow_find (p_dedupe (st_peers st pr))"

abbreviation recorded_count :: "peer_ref \<Rightarrow> 'z Heap_scheme \<Rightarrow> nat" where
  "recorded_count pr st \<equiv> DedupeWindow_size (p_dedupe (st_peers st pr))"

text \<open>From \<open>st\<close> to \<open>st'\<close> the room has published exactly as many messages as the peer has recorded new
  command ids, each new id under a number drawn in between, and no recorded id has changed.\<close>

definition advanced :: "room_ref \<Rightarrow> peer_ref \<Rightarrow> 'z Heap_scheme \<Rightarrow> 'z Heap_scheme \<Rightarrow> bool" where
  "advanced rr pr st st' \<longleftrightarrow>
     room_seq_no rr st' + recorded_count pr st = room_seq_no rr st + recorded_count pr st'
   \<and> room_seq_no rr st \<le> room_seq_no rr st'
   \<and> (\<forall>c n. recorded pr st c = Some n \<longrightarrow> recorded pr st' c = Some n)
   \<and> (\<forall>c n. recorded pr st' c = Some n \<longrightarrow> recorded pr st c = None \<longrightarrow>
        room_seq_no rr st < unat n \<and> unat n \<le> room_seq_no rr st')"

lemma advanced_refl [simp]: "advanced rr pr st st"
  by (simp add: advanced_def)

lemma advanced_trans:
  assumes "advanced rr pr a b" and "advanced rr pr b c"
  shows "advanced rr pr a c"
  unfolding advanced_def
proof (intro conjI allI impI)
  show "room_seq_no rr c + recorded_count pr a = room_seq_no rr a + recorded_count pr c"
    "room_seq_no rr a \<le> room_seq_no rr c"
    using assms by (auto simp: advanced_def)
  show "recorded pr c i = Some n" if "recorded pr a i = Some n" for i n
    using that assms by (auto simp: advanced_def)
  show "room_seq_no rr a < unat n" "unat n \<le> room_seq_no rr c"
    if "recorded pr c i = Some n" "recorded pr a i = None" for i n
    using that assms by (cases "recorded pr b i"; fastforce simp: advanced_def)+
qed

lemma quiet_command_step:
  assumes "command_inv rr pr st" and "quiet st st'"
  shows "command_inv rr pr st' \<and> advanced rr pr st st'
    \<and> rm_fileIdCounter (st_rooms st' rr) = rm_fileIdCounter (st_rooms st rr)"
proof -
  have same: "p_dedupe (st_peers st' pr) = p_dedupe (st_peers st pr)"
    "p_room (st_peers st' pr) = p_room (st_peers st pr)" "st_rooms st' = st_rooms st"
    using assms(2) by (auto simp: quiet_def identity_iff)
  with assms quiet_files_ok [OF assms(2)] show ?thesis
    by (simp add: command_inv_def command_ok_def advanced_def)
qed

lemma published_step:
  assumes inv: "command_inv rr pr st" and pub: "published_as rr pr cid n h st st'"
    and n: "rm_sequencer (st_rooms st rr) \<noteq> - 1" "n = rm_sequencer (st_rooms st rr) + 1"
    and rem: "snd (DedupeWindow_remember cid n (p_dedupe (st_peers st pr)))"
  shows "command_inv rr pr st' \<and> advanced rr pr st st' \<and> recorded pr st' cid = Some n
    \<and> rm_fileIdCounter (st_rooms st' rr) = rm_fileIdCounter (st_rooms st rr)"
proof -
  let ?w = "p_dedupe (st_peers st pr)"
  obtain w where w: "DedupeWindow_remember cid n ?w = (w, True)"
    using rem by (cases "DedupeWindow_remember cid n ?w") auto
  have ok: "DedupeWindow_ok ?w" using inv by (simp add: command_inv_def command_ok_def)
  note rec = dedupe.record_True [OF ok w]
  have size: "DedupeWindow_size w = Suc (DedupeWindow_size ?w)" "dw_limit w = dw_limit ?w"
    using w by (auto simp: remember_True_iff DedupeWindow_size_def)
  note room = published_room [OF pub]
  have d: "p_dedupe (st_peers st' pr) = w" by (simp add: room(3) w)
  have seq: "unat n = Suc (room_seq_no rr st)" unfolding n(2) by (rule unat_succ_u64 [OF n(1)])
  have "advanced rr pr st st'"
    using rec size seq by (auto simp: advanced_def d room(1) split: if_splits)
  moreover have "command_inv rr pr st'"
    using inv rec size room(4) by (simp add: command_inv_def command_ok_def d room(5))
  ultimately show ?thesis using rec by (simp add: d room(6))
qed

text \<open>What each handler may end in, without an exception of its own making.\<close>

definition step_ok :: "room_ref \<Rightarrow> peer_ref \<Rightarrow> 'z Heap_scheme \<Rightarrow> 'z Heap_scheme \<Rightarrow> bool" where
  "step_ok rr pr st st' \<longleftrightarrow> command_inv rr pr st' \<and> advanced rr pr st st'
     \<and> rm_fileIdCounter (st_rooms st' rr)
         \<le> rm_fileIdCounter (st_rooms st rr) + int Limits_filesPerPeer"

lemma quiet_step_ok: "command_inv rr pr st \<Longrightarrow> quiet st st' \<Longrightarrow> step_ok rr pr st st'"
  using quiet_command_step [of rr pr st st'] by (simp add: step_ok_def Limits_filesPerPeer_def)

lemma apiError_step_ok:
  "command_inv rr pr st \<Longrightarrow> Peer_onApiError pr e c st = (st', r) \<Longrightarrow>
     step_ok rr pr st st' \<and> (\<exists>a. r = Inr a)"
  using apiError_rejected [of pr e c st st' r] by (auto simp: rejected_def intro: quiet_step_ok)

lemma handlePeerMessage_step:
  assumes inv: "command_inv rr pr st" and h: "Peer_handlePeerMessage env pr m st = (st', r)"
  shows "step_ok rr pr st st' \<and> (\<forall>e. r = Inl e \<longrightarrow> is_runtime_error e)"
proof -
  have rr: "p_room (st_peers st pr) = rr" and ok: "command_ok pr st"
    using inv by (simp_all add: command_inv_def)
  let ?content = "mb_message (msg_body m)" and ?cid = "mb_clientMessageId (msg_body m)"
  let ?invalid = "case ?content of None \<Rightarrow> True | Some c \<Rightarrow> \<not> validMessageContent c"
  consider (bad) e c where "Peer_onApiError pr e c st = (st', r)"
    | (retry) cid n where "st' = Peer_sendMessageAck env pr cid n st" "r = Inr NoAction"
    | (go) cid where "validClientMessageId cid" "recorded pr st cid = None"
        "\<not> DedupeWindow_full (p_dedupe (st_peers st pr))" "?cid = Some cid" "\<not> ?invalid"
  proof (cases ?invalid)
    case True
    with h show ?thesis by (intro bad) (simp only: Peer_handlePeerMessage_def Let_def if_True)
  next
    case valid: False
    show ?thesis
    proof (cases ?cid)
      case None
      with h valid show ?thesis
        by (intro bad) (simp only: Peer_handlePeerMessage_def Let_def if_False option.case)
    next
      case (Some cid)
      show ?thesis
      proof (cases "validClientMessageId cid")
        case False
        with h valid Some show ?thesis
          by (intro bad) (simp only: Peer_handlePeerMessage_def Let_def if_False option.case if_True
            not_False_eq_True)
      next
        case cid: True
        note h' = h [unfolded Peer_handlePeerMessage_def Let_def if_not_P [OF valid] Some option.case
            if_not_P [OF cid [THEN not_not [THEN iffD2]]]]
        show ?thesis
        proof (cases "recorded pr st cid")
          case (Some n)
          with h' show ?thesis by (intro retry [of cid n]) simp_all
        next
          case None
          with h' cid valid \<open>?cid = Some cid\<close> show ?thesis
            by (cases "DedupeWindow_full (p_dedupe (st_peers st pr))") (auto intro: bad go)
        qed
      qed
    qed
  qed
  then show ?thesis
  proof cases
    case (bad e c)
    with apiError_step_ok [OF inv] show ?thesis by blast
  next
    case (retry cid n)
    with quiet_step_ok [OF inv quiet_ack] show ?thesis by simp
  next
    case (go cid)
    obtain st1 r1 where pub: "Room_publishDurable env rr m None (Peer_rememberCommand pr cid) st = (st1, r1)"
      by (cases "Room_publishDurable env rr m None (Peer_rememberCommand pr cid) st")
    from ok go(1-3) pub show ?thesis
    proof (cases rule: publish_command)
      case exhausted
      have "st' = st" "r = Inl (overflow_error ''room server sequence exhausted'')"
        using h go pub exhausted rr
        by (simp_all only: Peer_handlePeerMessage_def Let_def if_False option.case not_True_eq_False
            prod.case sum.case prod.inject)
      with inv show ?thesis by (simp add: is_runtime_error_def step_ok_def Limits_filesPerPeer_def)
    next
      case (published n hist)
      note step = published_step [OF inv published(4,1,2,5)]
      then have inv1: "command_inv rr pr st1" by simp
      have fin: "st' = emit [Count EVENT_PEER_SEND_MESSAGE] (Peer_sendMessageAck env pr cid n st1)"
        "r = Inr NoAction"
        using h go pub published(3) rr
        by (simp_all only: Peer_handlePeerMessage_def Let_def if_False option.case not_True_eq_False
            prod.case sum.case prod.inject set_serverSeq_sel)
      have "quiet st1 st'" unfolding fin by (rule quiet_trans [OF quiet_ack quiet_emit])
      from quiet_command_step [OF inv1 this] step show ?thesis
        by (auto simp: step_ok_def fin Limits_filesPerPeer_def intro: advanced_trans)
    qed
  qed
qed

lemma step_ok_trans:
  assumes "advanced rr pr a b" and "step_ok rr pr b c"
    and "rm_fileIdCounter (st_rooms c rr) \<le> rm_fileIdCounter (st_rooms a rr) + int Limits_filesPerPeer"
  shows "step_ok rr pr a c"
  using assms advanced_trans [of rr pr a b c] by (simp add: step_ok_def)

lemma apiError_counter:
  "Peer_onApiError pr e c st = (st', r) \<Longrightarrow> st_rooms st' = st_rooms st"
  by (auto simp: Peer_onApiError_def Let_def)

lemma shared_command_inv:
  assumes inv: "command_inv rr pr st" and host: "Room_getPeerById rr i st = Some host"
    and cap: "length (p_files (st_peers st host)) + length ds \<le> Limits_filesPerPeer"
    and shared: "shared_state rr host ds st st'"
  shows "command_inv rr pr st' \<and> advanced rr pr st st'
    \<and> rm_fileIdCounter (st_rooms st' rr) = rm_fileIdCounter (st_rooms st rr) + int (length ds)"
proof -
  have ok: "files_ok rr st" using inv by (simp add: command_inv_def)
  then have "host \<in> set (room_peers rr st)"
    using host by (intro room_peers_find) (simp_all add: files_ok_def)
  from shared_state_files_ok [OF ok this cap shared] have "files_ok rr st'" .
  moreover have "p_dedupe (st_peers st' pr) = p_dedupe (st_peers st pr)"
    "p_room (st_peers st' pr) = p_room (st_peers st pr)"
    "rm_sequencer (st_rooms st' rr) = rm_sequencer (st_rooms st rr)"
    "rm_fileIdCounter (st_rooms st' rr) = rm_fileIdCounter (st_rooms st rr) + int (length ds)"
    using shared by (auto simp: shared_state_def Let_def Peer_addFiles_def)
  ultimately show ?thesis using inv by (simp add: command_inv_def command_ok_def advanced_def)
qed

lemma handleFiles_cases:
  assumes h: "Peer_handleFilesMessage env tick pr msg st = (st', r)"
  obtains (bad) e c where "Peer_onApiError pr e c st = (st', r)"
  | (retry) cid n where "st' = Peer_sendMessageAck env pr cid n st" "r = Inr NoAction"
      "recorded pr st cid = Some n"
  | (failed) i ds e where "Room_shareFiles (p_room (st_peers st pr)) i (Some ds) st = (st', Inl e)"
      "r = Inl e"
  | (limit) i ds st1 e c where "Room_shareFiles (p_room (st_peers st pr)) i (Some ds) st = (st1, Inr [])"
      "Peer_onApiError pr e c st1 = (st', r)"
  | (go) cid i ds st1 frs m st2 r2 where "validClientMessageId cid" "recorded pr st cid = None"
      "\<not> DedupeWindow_full (p_dedupe (st_peers st pr))"
      "Room_shareFiles (p_room (st_peers st pr)) i (Some ds) st = (st1, Inr frs)" "frs \<noteq> []"
      "Room_publishDurable env (p_room (st_peers st pr)) m None (Peer_rememberCommand pr cid) st1 = (st2, r2)"
      "case r2 of Inl e \<Rightarrow> st' = st2 \<and> r = Inl e
       | Inr sent \<Rightarrow> st' = Peer_sendMessageAck env pr cid
           (case msg_serverSeq sent of Some n \<Rightarrow> n | None \<Rightarrow> 0) st2 \<and> r = Inr NoAction"
proof (cases msg)
  case None
  with h show ?thesis by (intro bad) (simp add: Peer_handleFilesMessage_def)
next
  case msg: (Some m)
  show ?thesis
  proof (cases "mb_clientMessageId (msg_body m)")
    case None
    with h msg show ?thesis by (intro bad) (simp add: Peer_handleFilesMessage_def)
  next
    case cid: (Some cid)
    let ?files = "case mb_files (msg_body m) of None \<Rightarrow> [] | Some fs \<Rightarrow> fs"
    let ?p = "st_peers st pr"
    show ?thesis
    proof (cases "\<not> validClientMessageId cid \<or> ?files = [] \<or> length ?files > Limits_filesPerMessage
        \<or> \<not> list_all valid_offer ?files")
      case True
      with h msg cid show ?thesis
        by (auto simp: Peer_handleFilesMessage_def Let_def intro: bad split: if_splits)
    next
      case False
      then have checks: "validClientMessageId cid" "?files \<noteq> []" "\<not> length ?files > Limits_filesPerMessage"
        "list_all valid_offer ?files" by auto
      note h' = h [unfolded Peer_handleFilesMessage_def Let_def msg option.case cid
          if_not_P [OF checks(1) [THEN not_not [THEN iffD2]]]]
      show ?thesis
      proof (cases "recorded pr st cid")
        case (Some n)
        with h' checks show ?thesis by (intro retry [of cid n]) simp_all
      next
        case new: None
        show ?thesis
        proof (cases "DedupeWindow_full (p_dedupe ?p)")
          case True
          with h' checks new show ?thesis by (intro bad) simp
        next
          case room: False
          obtain st1 r1 where share: "Room_shareFiles (p_room ?p) (p_peerId ?p)
              (Some (List.map_filter id ?files)) st = (st1, r1)" by fastforce
          show ?thesis
          proof (cases r1)
            case (Inl e)
            with h' checks new room share show ?thesis by (intro failed [of _ _ e]) simp_all
          next
            case (Inr frs)
            show ?thesis
            proof (cases "frs = []")
              case True
              with h' checks new room share Inr show ?thesis by (intro limit [of _ _ st1]) simp_all
            next
              case some: False
              obtain st2 r2 where pub: "Room_publishDurable env (p_room ?p) (message CODE_PEER_MESSAGE_FILE
                    (\<lambda>b. b\<lparr>mb_peerId := Some (p_peerId ?p), mb_peerName := Some (p_nickname ?p),
                           mb_timestamp := Some tick,
                           mb_files := Some (map (\<lambda>fr. Some (offered_descriptor (st_files st1 fr))) frs)\<rparr>))
                  None (Peer_rememberCommand pr cid) st1 = (st2, r2)" by fastforce
              have "case r2 of Inl e \<Rightarrow> st' = st2 \<and> r = Inl e
                 | Inr sent \<Rightarrow> st' = Peer_sendMessageAck env pr cid
                     (case msg_serverSeq sent of Some n \<Rightarrow> n | None \<Rightarrow> 0) st2 \<and> r = Inr NoAction"
                using h' checks new room share Inr some pub by (cases r2) auto
              from go [OF checks(1) new room share [unfolded Inr] some pub this] show ?thesis .
            qed
          qed
        qed
      qed
    qed
  qed
qed

lemma handleFiles_step:
  assumes inv: "command_inv rr pr st"
    and bound: "rm_fileIdCounter (st_rooms st rr) + int Limits_filesPerPeer < 2 ^ 63"
    and h: "Peer_handleFilesMessage env tick pr msg st = (st', r)"
  shows "step_ok rr pr st st' \<and> (\<forall>e. r = Inl e \<longrightarrow> is_runtime_error e)"
proof -
  have rr: "p_room (st_peers st pr) = rr" and ok: "files_ok rr st"
    using inv by (simp_all add: command_inv_def)
  from h show ?thesis
  proof (cases rule: handleFiles_cases)
    case (bad e c)
    with apiError_step_ok [OF inv] show ?thesis by blast
  next
    case (retry cid n)
    with quiet_step_ok [OF inv quiet_ack] show ?thesis by simp
  next
    case (failed i ds e)
    from ok bound failed(1) [unfolded rr] show ?thesis by (cases rule: shareFiles_cases) auto
  next
    case (limit i ds st1 e c)
    from ok bound limit(1) [unfolded rr] show ?thesis
    proof (cases rule: shareFiles_cases)
      case rejected
      with limit apiError_step_ok [OF inv] show ?thesis by blast
    next
      case (accepted host ds')
      note s = shared_command_inv [OF inv accepted(2,3,5)]
      with limit(2) apiError_step_ok [of rr pr st1] have t: "step_ok rr pr st1 st'" "\<exists>a. r = Inr a"
        by blast+
      from accepted(4) have "ds' = []" by (cases ds') auto
      with s t apiError_counter [OF limit(2)] show ?thesis
        by (auto intro!: step_ok_trans [of rr pr st st1] simp: Limits_filesPerPeer_def)
    qed
  next
    case (go cid i ds st1 frs m st2 r2)
    from ok bound go(4) [unfolded rr] show ?thesis
    proof (cases rule: shareFiles_cases)
      case rejected
      with go(5) show ?thesis by simp
    next
      case (accepted host ds')
      note s = shared_command_inv [OF inv accepted(2,3,5)]
      have n: "int (length ds') \<le> int Limits_filesPerPeer" using accepted(3) by simp
      have same: "p_dedupe (st_peers st1 pr) = p_dedupe (st_peers st pr)"
        using accepted(5) by (auto simp: shared_state_def Let_def Peer_addFiles_def)
      have "command_ok pr st1" using s by (simp add: command_inv_def)
      from this go(1) go(2,3) [folded same] go(6) [unfolded rr] show ?thesis
      proof (cases rule: publish_command)
        case exhausted
        with go(7) s n show ?thesis by (simp add: step_ok_def is_runtime_error_def)
      next
        case (published k hist)
        have inv1: "command_inv rr pr st1" using s by simp
        note p = published_step [OF inv1 published(4,1,2,5)]
        have fin: "st' = Peer_sendMessageAck env pr cid k st2" "r = Inr NoAction"
          using go(7) published(3) by simp_all
        then have "quiet st2 st'" by simp
        moreover have "command_inv rr pr st2" using p by simp
        ultimately have q: "command_inv rr pr st'" "advanced rr pr st2 st'"
          "rm_fileIdCounter (st_rooms st' rr) = rm_fileIdCounter (st_rooms st2 rr)"
          using quiet_command_step by blast+
        have "advanced rr pr st st'" using s p q advanced_trans by blast
        with q p s n fin show ?thesis by (simp add: step_ok_def)
      qed
    qed
  qed
qed

section \<open>Chunks\<close>

lemma provide_frame:
  assumes "File_provideFileChunk fr sid i p n d st = (st', r)"
  shows "st_rooms st' = st_rooms st" "st_peers st' = st_peers st" "st_next st' = st_next st"
    "st_peerAlive st' = st_peerAlive st"
    "f_host (st_files st' g) = f_host (st_files st g)"
    "f_serverFileId (st_files st' g) = f_serverFileId (st_files st g)"
    "st_subscribers st' s \<noteq> st_subscribers st s \<Longrightarrow>
       um_find (f_subscribers (st_files st fr)) sid = Some s \<and> st_subscriberAlive st s"
  using assms
  by (auto simp: File_provideFileChunk_def Let_def split: option.splits if_splits prod.splits)

lemma handleChunk_cases:
  assumes h: "Peer_handleFileChunkMessage env pr msg st = (st', r)"
  obtains (bad) e c where "Peer_onApiError pr e c st = (st', r)"
  | (ignored) "st' = st" "r = Inr NoAction"
  | (undecodable) e encoded where "st' = st" "r = Inl e" "env_base64Decode env encoded = Inl e"
  | (fed) fileId fr sid position sz requestId bytes st1 result where
      "Room_getFileById (p_room (st_peers st pr)) fileId st = Some fr"
      "host_alive st (st_files st fr)"
      "p_peerId (st_peers st (f_host (st_files st fr))) = p_peerId (st_peers st pr)"
      "validChunk position sz (length bytes) (f_fileSize (st_files st fr))"
      "File_provideFileChunk fr sid requestId position sz (Some bytes) st = (st1, result)"
      "result \<noteq> INVALID \<and> st' = st1 \<and> r = Inr NoAction
       \<or> result = INVALID \<and> Peer_onApiError pr ''Unexpected file chunk.'' None st1 = (st', r)"
proof (cases msg)
  case None
  with h show ?thesis by (intro bad) (simp add: Peer_handleFileChunkMessage_def)
next
  case msg: (Some m)
  note h = h [unfolded Peer_handleFileChunkMessage_def msg option.case]
  show ?thesis
  proof (cases "mb_files (msg_body m)")
    case None
    with h show ?thesis by (intro bad) simp
  next
    case (Some filesList)
    note h = h [unfolded Some option.case]
    show ?thesis
    proof (cases "length filesList = 1 \<and> hd filesList \<noteq> None")
      case False
      with h show ?thesis by (cases "hd filesList") (auto intro: bad split: if_splits)
    next
      case True
      then obtain d where d: "length filesList = 1" "hd filesList = Some d" by auto
      show ?thesis
      proof (cases "fd_serverFileId d = None \<or> fd_subscriberId d = None \<or> fd_data d = None")
        case True
        with h d show ?thesis by (auto intro: bad split: option.splits)
      next
        case False
        then obtain fileId sid encoded where f: "fd_serverFileId d = Some fileId"
          "fd_subscriberId d = Some sid" "fd_data d = Some encoded" by auto
        show ?thesis
        proof (cases "Room_getFileById (p_room (st_peers st pr)) fileId st")
          case None
          with h d f show ?thesis by (intro ignored) simp_all
        next
          case fr: (Some fr)
          show ?thesis
          proof (cases "host_alive st (st_files st fr)
              \<and> p_peerId (st_peers st (f_host (st_files st fr))) = p_peerId (st_peers st pr)")
            case False
            with h d f fr show ?thesis by (auto intro: bad)
          next
            case host: True
            show ?thesis
            proof (cases "env_base64Decode env encoded")
              case (Inl e)
              with h d f fr host show ?thesis by (intro undecodable [of e encoded]) simp_all
            next
              case (Inr decoded)
              show ?thesis
              proof (cases "decoded = None \<or> fd_chunkPosition d = None \<or> fd_chunkSize d = None
                  \<or> fd_chunkRequestId d = None")
                case True
                with h d f fr host Inr show ?thesis by (auto intro: bad split: option.splits)
              next
                case False
                then obtain bytes position sz requestId where c: "decoded = Some bytes"
                  "fd_chunkPosition d = Some position" "fd_chunkSize d = Some sz"
                  "fd_chunkRequestId d = Some requestId" by auto
                show ?thesis
                proof (cases "validChunk position sz (length bytes) (f_fileSize (st_files st fr))")
                  case False
                  with h d f fr host Inr c show ?thesis by (intro bad) simp
                next
                  case True
                  obtain st1 result where p:
                    "File_provideFileChunk fr sid requestId position sz (Some bytes) st = (st1, result)"
                    by fastforce
                  with h d f fr host Inr c True show ?thesis
                    by (intro fed [OF fr conjunct1 [OF host] conjunct2 [OF host] True p])
                       (auto split: if_splits)
                qed
              qed
            qed
          qed
        qed
      qed
    qed
  qed
qed

lemma handleChunk_step:
  assumes inv: "command_inv rr pr st" and h: "Peer_handleFileChunkMessage env pr msg st = (st', r)"
  shows "step_ok rr pr st st'"
  using h
proof (cases rule: handleChunk_cases)
  case (bad e c)
  from apiError_step_ok [OF inv bad] show ?thesis by simp
next
  case ignored
  then show ?thesis using quiet_step_ok [OF inv quiet_refl] by simp
next
  case (undecodable e encoded)
  then show ?thesis using quiet_step_ok [OF inv quiet_refl] by simp
next
  case (fed fileId fr sid position sz requestId bytes st1 result)
  note p = provide_frame [OF fed(5)]
  have "files_ok rr st1"
    by (rule files_ok_cong [of rr st]) (use inv in \<open>simp_all only: command_inv_def p\<close>)
  with inv have inv1: "command_inv rr pr st1" by (simp add: command_inv_def command_ok_def p)
  have adv: "advanced rr pr st st1" by (simp add: advanced_def p)
  from fed(6) show ?thesis
  proof
    assume "result \<noteq> INVALID \<and> st' = st1 \<and> r = Inr NoAction"
    with inv1 adv show ?thesis by (simp add: step_ok_def p Limits_filesPerPeer_def)
  next
    assume "result = INVALID \<and> Peer_onApiError pr ''Unexpected file chunk.'' None st1 = (st', r)"
    then have err: "Peer_onApiError pr ''Unexpected file chunk.'' None st1 = (st', r)" by simp
    from apiError_step_ok [OF inv1 err] have "step_ok rr pr st1 st'" by simp
    then show ?thesis
      by (rule step_ok_trans [OF adv]) (simp add: apiError_counter [OF err] p Limits_filesPerPeer_def)
  qed
qed

lemma handleMessage_step:
  assumes inv: "command_inv rr pr st"
    and bound: "rm_fileIdCounter (st_rooms st rr) + int Limits_filesPerPeer < 2 ^ 63"
    and h: "Peer_handleMessage env tick pr msg st = (st', r)"
  shows "step_ok rr pr st st'"
proof (cases msg)
  case None
  with h have "Peer_onApiError pr ''No message provided.'' None st = (st', r)"
    by (simp add: Peer_handleMessage_def)
  from apiError_step_ok [OF inv this] show ?thesis by simp
next
  case (Some m)
  consider "msg_code m = Some CODE_PEER_MESSAGE" | "msg_code m = Some CODE_PEER_IS_TYPING"
    | "msg_code m = Some CODE_FILE_SHARE" | "msg_code m = Some CODE_FILE_CHUNK_DATA"
    | e c where "Peer_onApiError pr e c st = (st', r)"
  proof (cases "msg_code m")
    case None
    with h Some show ?thesis by (intro that(5)) (simp add: Peer_handleMessage_def)
  next
    case code: (Some code)
    with h Some that show ?thesis by (cases code) (simp_all add: Peer_handleMessage_def)
  qed
  then show ?thesis
  proof cases
    case 1
    with h Some handlePeerMessage_step [OF inv] show ?thesis by (simp add: Peer_handleMessage_def)
  next
    case 2
    with h Some quiet_step_ok [OF inv quiet_broadcast] show ?thesis by (auto simp: Peer_handleMessage_def)
  next
    case 3
    with h Some handleFiles_step [OF inv bound] show ?thesis by (simp add: Peer_handleMessage_def)
  next
    case 4
    with h Some handleChunk_step [OF inv] show ?thesis by (simp add: Peer_handleMessage_def)
  next
    case (5 e c)
    with apiError_step_ok [OF inv] show ?thesis by blast
  qed
qed

text \<open>A peer that handles a list of commands, one after the other.\<close>

fun command_run ::
  "Env \<Rightarrow> peer_ref \<Rightarrow> (int \<times> MessageDto option) list \<Rightarrow> 'z Heap_scheme \<Rightarrow> 'z Heap_scheme" where
  "command_run env pr [] st = st"
| "command_run env pr ((tick, msg) # cs) st =
     command_run env pr cs (fst (Peer_handleMessage env tick pr msg st))"

lemma command_run_step:
  assumes "command_inv rr pr st"
    and "rm_fileIdCounter (st_rooms st rr) + 32 * int (length cs) < 2 ^ 63"
  shows "command_inv rr pr (command_run env pr cs st) \<and> advanced rr pr st (command_run env pr cs st)"
  using assms
proof (induction cs arbitrary: st)
  case (Cons c cs)
  obtain tick msg where c: "c = (tick, msg)" by (cases c)
  obtain st1 r where h: "Peer_handleMessage env tick pr msg st = (st1, r)" by fastforce
  have bound: "rm_fileIdCounter (st_rooms st rr) + int Limits_filesPerPeer < 2 ^ 63"
    using Cons.prems(2) by (simp add: Limits_filesPerPeer_def)
  note step = handleMessage_step [OF Cons.prems(1) bound h]
  have "rm_fileIdCounter (st_rooms st1 rr) + 32 * int (length cs) < 2 ^ 63"
    using step Cons.prems(2) by (simp add: step_ok_def Limits_filesPerPeer_def)
  from Cons.IH [OF _ this] step show ?case
    by (auto simp: c h step_ok_def intro: advanced_trans)
qed simp

section \<open>Properties\<close>

text \<open>C6: retryable commands take effect exactly once. However many commands a peer of a consistent
  room sends, in whatever order and however often repeated, the room's sequence number grows by
  exactly the number of new command ids the peer's retry window has recorded; an id keeps its
  number for ever, and every new one was given a number drawn during the run.\<close>

theorem commands_exactly_once:
  assumes "command_inv rr pr st"
    and "rm_fileIdCounter (st_rooms st rr) + 32 * int (length cs) < 2 ^ 63"
    and "st' = command_run env pr cs st"
  shows "unat (rm_sequencer (st_rooms st' rr)) + DedupeWindow_size (p_dedupe (st_peers st pr))
      = unat (rm_sequencer (st_rooms st rr)) + DedupeWindow_size (p_dedupe (st_peers st' pr))
    \<and> (\<forall>cid n. DedupeWindow_find (p_dedupe (st_peers st pr)) cid = Some n \<longrightarrow>
        DedupeWindow_find (p_dedupe (st_peers st' pr)) cid = Some n)
    \<and> (\<forall>cid n. DedupeWindow_find (p_dedupe (st_peers st' pr)) cid = Some n \<longrightarrow>
        DedupeWindow_find (p_dedupe (st_peers st pr)) cid = None \<longrightarrow>
        unat (rm_sequencer (st_rooms st rr)) < unat n \<and> unat n \<le> unat (rm_sequencer (st_rooms st' rr)))
    \<and> command_inv rr pr st'"
  using command_run_step [OF assms(1,2), of env] unfolding assms(3) advanced_def by blast

lemma demo_command_inv: "command_inv 0 1 demo_heap"
  using demo_heap_ok
  by (simp add: command_inv_def command_ok_def demo_heap_def Peer_new_def Let_def
      TransportGeneration_replace_def DedupeWindow_new_def maxDedupeEntries_def DedupeWindow_ok_def)

theorem commands_exactly_once_witness:
  "let m = message CODE_PEER_MESSAGE (\<lambda>b. b\<lparr>mb_message := Some ''hi'',
             mb_clientMessageId := Some ''AAAAAAAAAAAAAAAAAAAAAA''\<rparr>);
       st' = command_run demo_env 1 [(0, Some m), (1, Some m), (2, Some m)] demo_heap
   in unat (rm_sequencer (st_rooms st' 0)) = DedupeWindow_size (p_dedupe (st_peers st' 1))"
proof -
  let ?m = "message CODE_PEER_MESSAGE (\<lambda>b. b\<lparr>mb_message := Some ''hi'',
             mb_clientMessageId := Some ''AAAAAAAAAAAAAAAAAAAAAA''\<rparr>)"
  let ?cs = "[(0, Some ?m), (1, Some ?m), (2, Some ?m)]"
  have "rm_fileIdCounter (st_rooms demo_heap 0) + 32 * int (length ?cs) < 2 ^ 63"
    by (simp add: demo_heap_def Room_new_def)
  moreover have "rm_sequencer (st_rooms demo_heap 0) = 0"
    "DedupeWindow_size (p_dedupe (st_peers demo_heap 1)) = 0"
    by (simp_all add: demo_heap_def Room_new_def RoomSequencer_new_def DedupeWindow_size_def
        Peer_new_def Let_def DedupeWindow_new_def TransportGeneration_replace_def)
  ultimately show ?thesis
    using commands_exactly_once [OF demo_command_inv _ refl, of ?cs demo_env]
    by (simp add: Let_def del: command_run.simps)
qed

text \<open>C18: the retry preflight is sound. A chat message or a file offer of a consistent room never fails
  with a logic error (an id that could not be recorded after it was published, or a duplicate file
  id): the only exception is an exhausted sequence, and the room's consistency is kept in every
  case.\<close>

theorem command_preflight_sound:
  assumes "command_inv rr pr st"
    and "rm_fileIdCounter (st_rooms st rr) + int Limits_filesPerPeer < 2 ^ 63"
    and "Peer_handlePeerMessage env pr m st = (st', r)
       \<or> Peer_handleFilesMessage env tick pr (Some m) st = (st', r)"
  shows "command_inv rr pr st' \<and> (\<forall>e. r \<noteq> Inl (logic_error e))"
  using assms(3)
proof
  assume "Peer_handlePeerMessage env pr m st = (st', r)"
  from handlePeerMessage_step [OF assms(1) this] show ?thesis
    by (auto simp: step_ok_def is_runtime_error_def)
next
  assume "Peer_handleFilesMessage env tick pr (Some m) st = (st', r)"
  from handleFiles_step [OF assms(1,2) this] show ?thesis
    by (auto simp: step_ok_def is_runtime_error_def)
qed

theorem command_preflight_sound_witness:
  "\<forall>e. snd (Peer_handlePeerMessage demo_env 1 (message CODE_PEER_MESSAGE id) demo_heap) \<noteq> Inl (logic_error e)"
proof -
  have bound: "rm_fileIdCounter (st_rooms demo_heap 0) + int Limits_filesPerPeer < 2 ^ 63"
    by (simp add: demo_heap_def Room_new_def Limits_filesPerPeer_def)
  obtain st' r where h: "Peer_handlePeerMessage demo_env 1 (message CODE_PEER_MESSAGE id) demo_heap = (st', r)"
    by fastforce
  from command_preflight_sound [OF demo_command_inv bound disjI1 [OF h]] h show ?thesis by simp
qed



end
