(* ===== verification/Lobby.thy ===== *)
theory Lobby
  imports PeerCommands
begin

text \<open>
  \<^verbatim>\<open>server/src/rooms/Lobby.cpp\<close>: the registry of rooms, sessions and pending transports, the first
  frame of a transport (\<^verbatim>\<open>SESSION_HELLO\<close>), detaching and expiring sessions. \<open>Server\<close> extends the
  heap of \<open>Store\<close> with the lobby's fields and the listener of each socket.

  \<^verbatim>\<open>acceptSessionHello\<close> releases its locks several times, so it is written as the composition of
  the steps between them (\<open>hello_takePending\<close>; \<open>hello_lookup\<close> and \<open>hello_bind\<close>, or \<open>hello_openRoom\<close>,
  \<open>hello_enter\<close> and \<open>hello_file\<close>; then the steps of \<open>hello_finish\<close>), and so are detaching and expiring;
  another thread can run between two of them (\<open>Interleaving\<close>). Random bytes and the readings of the clock
  are arguments.
\<close>

section \<open>State\<close>

record SessionRecord =
  sr_room :: room_ref
  sr_peer :: peer_ref
  sr_digest :: TokenDigest
  sr_lease :: SessionLease

record PendingRecord =
  pr_socket :: socket_ref
  pr_deadline :: time

record PendingHello =
  h_roomName :: string
  h_nickname :: string
  h_buffer :: string
  h_consumed :: bool

datatype Listener = PendingHelloListener PendingHello | PeerListener peer_ref

record Server = Heap +
  lb_peerIdCounter :: int
  lb_rooms :: "(string, room_ref) umap"
  lb_sessions :: "(string, SessionRecord) umap"
  lb_pending :: "(socket_ref, PendingRecord) umap"
  lb_listeners :: "socket_ref \<Rightarrow> Listener option"

definition Server_new :: Server where
  "Server_new = Heap.extend Heap_new
     \<lparr>lb_peerIdCounter = 1, lb_rooms = [], lb_sessions = [], lb_pending = [],
      lb_listeners = (\<lambda>_. None)\<rparr>"

section \<open>Rooms\<close>

definition digestKey :: "TokenDigest \<Rightarrow> string" where
  "digestKey digest = digest"

definition obtainNewPeerId :: "Server \<Rightarrow> Server \<times> int" where
  "obtainNewPeerId st =
     (st\<lparr>lb_peerIdCounter := i64_succ (lb_peerIdCounter st)\<rparr>, lb_peerIdCounter st)"

definition getOrCreateRoom :: "string \<Rightarrow> Server \<Rightarrow> Server \<times> room_ref option" where
  "getOrCreateRoom roomName st =
     (case um_find (lb_rooms st) roomName of
        Some rr \<Rightarrow> (st, Some rr)
      | None \<Rightarrow>
          if \<not> hasCapacity (length (lb_rooms st)) Limits_rooms then (st, None)
          else
            let rr = st_next st;
                st = emit [Count EVENT_ROOM_CREATED] (upd_room rr (Room_new roomName) st)
            in (st\<lparr>st_next := Suc rr, lb_rooms := um_emplace roomName rr (lb_rooms st)\<rparr>, Some rr))"

definition getRoom :: "string \<Rightarrow> Server \<Rightarrow> room_ref option" where
  "getRoom roomName st = um_find (lb_rooms st) roomName"

definition deleteRoomIfEmpty :: "room_ref \<Rightarrow> Server \<Rightarrow> Server" where
  "deleteRoomIfEmpty rr st =
     (let name = Room_getName rr st
      in if um_find (lb_rooms st) name = Some rr \<and> Room_isEmpty rr st
         then st\<lparr>lb_rooms := um_erase name (lb_rooms st)\<rparr> else st)"

definition runPingIteration :: "time \<Rightarrow> Server \<Rightarrow> Server" where
  "runPingIteration now st = fold (Room_pingAllPeers now) (map snd (lb_rooms st)) st"

section \<open>The session hello\<close>

text \<open>The validated hello: the message, the client's cursor and its page capability.\<close>

definition hello_accepted :: "MessageDto option \<Rightarrow> (MessageDto \<times> u64 \<times> string) option" where
  "hello_accepted hello =
     (case hello of
        None \<Rightarrow> None
      | Some m \<Rightarrow>
          (case (mb_lastServerSeq (msg_body m), mb_fileCapabilityId (msg_body m)) of
             (Some cursor, Some capability) \<Rightarrow>
               if msg_code m = Some CODE_SESSION_HELLO \<and> mb_protocolVersion (msg_body m) = Some 2
                  \<and> validBase64UrlId capability 16
               then Some (m, cursor, capability) else None
           | _ \<Rightarrow> None))"

definition hello_takePending :: "time \<Rightarrow> socket_ref \<Rightarrow> Server \<Rightarrow> Server \<times> bool" where
  "hello_takePending now socket st =
     (case um_find (lb_pending st) socket of
        None \<Rightarrow> (st, False)
      | Some pending \<Rightarrow>
          if now \<ge> pr_deadline pending then (st, False)
          else (st\<lparr>lb_pending := um_erase socket (lb_pending st)\<rparr>, True))"

definition hello_lookup :: "Env \<Rightarrow> time \<Rightarrow> string \<Rightarrow> string \<Rightarrow> Server \<Rightarrow> Server \<times> peer_ref option" where
  "hello_lookup env now roomName token st =
     (if \<not> validBase64UrlId token 32 then (st, None)
      else
        let digest = digestToken (env_sha256 env) token
        in case um_find (lb_sessions st) (digestKey digest) of
             None \<Rightarrow> (st, None)
           | Some session \<Rightarrow>
               if \<not> constantTimeDigestEqual (sr_digest session) digest
                  \<or> Room_getName (sr_room session) st \<noteq> roomName then (st, None)
               else case SessionLease_resume now (sr_lease session) of
                 (lease, False) \<Rightarrow> (st, None)
               | (lease, True) \<Rightarrow>
                   (st\<lparr>lb_sessions := um_assign (digestKey digest)
                          (session\<lparr>sr_lease := lease\<rparr>) (lb_sessions st)\<rparr>,
                    Some (sr_peer session)))"

definition hello_bind :: "time \<Rightarrow> socket_ref \<Rightarrow> peer_ref \<Rightarrow> Server \<Rightarrow> Server" where
  "hello_bind now2 socket pr st =
     (let (p, replaced) = Peer_replaceSocket (Some socket) now2 (st_peers st pr);
          st = upd_peer pr p st
      in case replaced of
           Some old \<Rightarrow> if old \<noteq> socket then emit [Invalidate old] st else st
         | None \<Rightarrow> st)"

text \<open>A resumed session: its lease is stopped under the registry's lock, then the transport is bound.\<close>

definition hello_resume ::
  "Env \<Rightarrow> time \<Rightarrow> time \<Rightarrow> socket_ref \<Rightarrow> string \<Rightarrow> string \<Rightarrow> Server \<Rightarrow> Server \<times> peer_ref option" where
  "hello_resume env now now2 socket roomName token st =
     (case hello_lookup env now roomName token st of
        (st, None) \<Rightarrow> (st, None)
      | (st, Some pr) \<Rightarrow> (hello_bind now2 socket pr st, Some pr))"

text \<open>The two steps of a new session: find or create the room, then enrol the peer in it.\<close>

definition hello_openRoom ::
  "string option \<Rightarrow> string \<Rightarrow> Server \<Rightarrow> Server \<times> (string \<times> room_ref) option" where
  "hello_openRoom randomBytes roomName st =
     (case makeResumeToken randomBytes of
        None \<Rightarrow> (st, None)
      | Some token \<Rightarrow>
          (case getOrCreateRoom roomName st of
             (st, None) \<Rightarrow> (st, None)
           | (st, Some rr) \<Rightarrow> if Room_hasPeerCapacity rr st then (st, Some (token, rr)) else (st, None)))"

definition hello_enter ::
  "time \<Rightarrow> socket_ref \<Rightarrow> string \<Rightarrow> room_ref \<Rightarrow> Server \<Rightarrow> Server \<times> peer_ref option" where
  "hello_enter now2 socket nickname rr st =
     (let (st, peerId) = obtainNewPeerId st;
          pr = st_next st;
          st = (upd_peer pr (Peer_new socket rr nickname peerId now2) st)
                 \<lparr>st_peerAlive := (st_peerAlive st)(pr := True), st_next := Suc pr\<rparr>;
          (st, added) = Room_addPeer rr pr st
      in (st, if added then Some pr else None))"

definition hello_file :: "Env \<Rightarrow> string \<Rightarrow> room_ref \<Rightarrow> peer_ref \<Rightarrow> Server \<Rightarrow> Server" where
  "hello_file env token rr pr st =
     (let digest = digestToken (env_sha256 env) token
      in st\<lparr>lb_sessions := um_emplace (digestKey digest)
              \<lparr>sr_room = rr, sr_peer = pr, sr_digest = digest, sr_lease = SessionLease_new\<rparr>
              (lb_sessions st)\<rparr>)"

definition hello_enrol ::
  "Env \<Rightarrow> time \<Rightarrow> socket_ref \<Rightarrow> string \<Rightarrow> string \<Rightarrow> room_ref \<Rightarrow> Server \<Rightarrow>
     Server \<times> (exn + peer_ref option)" where
  "hello_enrol env now2 socket nickname token rr st =
     (case hello_enter now2 socket nickname rr st of
        (st, None) \<Rightarrow> (st, Inr None)
      | (st, Some pr) \<Rightarrow>
          (case Room_welcomePeer env rr pr (hello_file env token rr pr st) of
             (st, Some e) \<Rightarrow> (st, Inl e)
           | (st, None) \<Rightarrow> (st, Inr (Some pr))))"

text \<open>The reply, from the three readings of the room.\<close>

definition ready_reply ::
  "Peer \<Rightarrow> bool \<Rightarrow> string \<Rightarrow> PeerDto list \<Rightarrow> u64 \<Rightarrow> MessageDto list \<times> bool \<Rightarrow> MessageDto" where
  "ready_reply p resumed token peers latest after =
     (let (history, resyncRequired) = after;
          ready = message CODE_SESSION_READY (\<lambda>b. b\<lparr>mb_protocolVersion := Some 2,
            mb_resumed := Some resumed, mb_peerId := Some (p_peerId p),
            mb_peerName := Some (p_nickname p), mb_peers := Some peers,
            mb_latestServerSeq := Some latest,
            mb_resyncRequired := Some resyncRequired, mb_resumeToken := Some token\<rparr>)
      in MessageDto (msg_body ready) (Some history))"

definition ready_message ::
  "Server \<Rightarrow> peer_ref \<Rightarrow> bool \<Rightarrow> u64 \<Rightarrow> string \<Rightarrow> MessageDto" where
  "ready_message st pr resumed cursor token =
     (let p = st_peers st pr; rr = p_room p
      in ready_reply p resumed token (Room_getPeers rr st) (Room_latestServerSeq rr st)
           (Room_getHistoryAfter rr cursor st))"

definition hello_listen :: "socket_ref \<Rightarrow> peer_ref \<Rightarrow> Server \<Rightarrow> Server" where
  "hello_listen socket pr st =
     st\<lparr>lb_listeners := (lb_listeners st)(socket := Some (PeerListener pr))\<rparr>"

definition hello_capability :: "string \<Rightarrow> peer_ref \<Rightarrow> Server \<Rightarrow> Server \<times> bool" where
  "hello_capability capability pr st =
     (let (p, changed) = Peer_setFileCapability (Some capability) (st_peers st pr)
      in (upd_peer pr p st, changed))"

definition hello_finish ::
  "Env \<Rightarrow> socket_ref \<Rightarrow> peer_ref \<Rightarrow> bool \<Rightarrow> u64 \<Rightarrow> string \<Rightarrow> string \<Rightarrow> Server \<Rightarrow>
     Server \<times> (exn + peer_ref option)" where
  "hello_finish env socket pr resumed cursor capability token st =
     (let (st, changed) = hello_capability capability pr (hello_listen socket pr st);
          rr = p_room (st_peers st pr);
          (st, thrown) = (if changed then Room_withdrawPeerFiles env rr pr st else (st, None))
      in case thrown of
           Some e \<Rightarrow> (st, Inl e)
         | None \<Rightarrow>
             let st = peer_send env pr (ready_message st pr resumed cursor token) st
             in if \<not> resumed then (emit [Count EVENT_PEER_CONNECTED] st, Inr (Some pr))
                else
                  let st = emit [Count EVENT_PEER_RESUMED] st;
                      st = Room_publishConnectionState env rr pr True st;
                      st = (if \<not> changed then Peer_reissueOutstandingFileRequests env pr st else st)
                  in (st, Inr (Some pr)))"

text \<open>The clock is read on entry (\<open>now\<close>) and again when the transport is bound (\<open>now2\<close>).\<close>

definition acceptSessionHello ::
  "Env \<Rightarrow> time \<Rightarrow> time \<Rightarrow> string option \<Rightarrow> socket_ref \<Rightarrow> string \<Rightarrow> string \<Rightarrow> MessageDto option \<Rightarrow>
     Server \<Rightarrow> Server \<times> (exn + peer_ref option)" where
  "acceptSessionHello env now now2 randomBytes socket roomName nickname hello st =
     (case hello_accepted hello of
        None \<Rightarrow> (st, Inr None)
      | Some (m, cursor, capability) \<Rightarrow>
         (case hello_takePending now socket st of
            (st, False) \<Rightarrow> (st, Inr None)
          | (st, True) \<Rightarrow>
             (case mb_resumeToken (msg_body m) of
                Some token \<Rightarrow>
                  (case hello_resume env now now2 socket roomName token st of
                     (st, None) \<Rightarrow> (st, Inr None)
                   | (st, Some pr) \<Rightarrow> hello_finish env socket pr True cursor capability token st)
              | None \<Rightarrow>
                  (case hello_openRoom randomBytes roomName st of
                     (st, None) \<Rightarrow> (st, Inr None)
                   | (st, Some (token, rr)) \<Rightarrow>
                       (case hello_enrol env now2 socket nickname token rr st of
                          (st, Inl e) \<Rightarrow> (st, Inl e)
                        | (st, Inr None) \<Rightarrow> (st, Inr None)
                        | (st, Inr (Some pr)) \<Rightarrow>
                            hello_finish env socket pr False cursor capability token st)))))"

section \<open>The first frames of a transport\<close>

definition PendingHello_reject :: "socket_ref \<Rightarrow> Starter" where
  "PendingHello_reject socket = SendErrorThenClose (Some socket)
     (message CODE_API_ERROR (\<lambda>b. b\<lparr>mb_message := Some ''Session unavailable.''\<rparr>))"

definition set_pending_hello :: "socket_ref \<Rightarrow> PendingHello \<Rightarrow> Server \<Rightarrow> Server" where
  "set_pending_hello socket h st =
     st\<lparr>lb_listeners := (lb_listeners st)(socket := Some (PendingHelloListener h))\<rparr>"

definition PendingHello_readMessage ::
  "Env \<Rightarrow> time \<Rightarrow> time \<Rightarrow> string option \<Rightarrow> socket_ref \<Rightarrow> PendingHello \<Rightarrow> string \<Rightarrow> Server \<Rightarrow>
     Server \<times> (exn + Starter)" where
  "PendingHello_readMessage env now now2 randomBytes socket h frame st =
     (if h_consumed h then (emit [Invalidate socket] st, Inr NoAction)
      else if frame \<noteq> [] then
        (if frame_too_large env (h_buffer h) frame then (emit [Invalidate socket] st, Inr NoAction)
         else (set_pending_hello socket (h\<lparr>h_buffer := h_buffer h @ frame\<rparr>) st, Inr NoAction))
      else
        let st = set_pending_hello socket (h\<lparr>h_consumed := True\<rparr>) st;
            (st, r) = (case env_readFromString env (h_buffer h) of
                Inl e \<Rightarrow> (st, Inl e)
              | Inr hello \<Rightarrow> acceptSessionHello env now now2 randomBytes socket (h_roomName h)
                               (h_nickname h) hello st)
        in case r of
             Inr (Some pr) \<Rightarrow> (st, Inr NoAction)
           | Inr None \<Rightarrow> (st, Inr (PendingHello_reject socket))
           | Inl e \<Rightarrow> if is_runtime_error e then (st, Inr (PendingHello_reject socket)) else (st, Inl e))"

definition onAfterCreate :: "time \<Rightarrow> socket_ref \<Rightarrow> string \<Rightarrow> string \<Rightarrow> Server \<Rightarrow> Server" where
  "onAfterCreate now socket roomName nickname st =
     (let st = st\<lparr>lb_pending := um_emplace socket
                 \<lparr>pr_socket = socket, pr_deadline = now + seconds 10\<rparr> (lb_pending st)\<rparr>
      in set_pending_hello socket
           \<lparr>h_roomName = roomName, h_nickname = nickname, h_buffer = [], h_consumed = False\<rparr> st)"

section \<open>Detaching and expiring\<close>

text \<open>The registry loop of \<^verbatim>\<open>detachSessionTransport\<close>: the first session of the peer.\<close>

fun detach_session ::
  "time \<Rightarrow> peer_ref \<Rightarrow> (string, SessionRecord) umap \<Rightarrow> (string, SessionRecord) umap \<times> room_ref option" where
  "detach_session now pr [] = ([], None)"
| "detach_session now pr ((k, s) # es) =
     (if sr_peer s = pr
      then ((k, s\<lparr>sr_lease := SessionLease_detach now (sr_lease s)\<rparr>) # es, Some (sr_room s))
      else let (es', r) = detach_session now pr es in ((k, s) # es', r))"

definition detach_unbind :: "socket_ref \<Rightarrow> Server \<Rightarrow> Server \<times> peer_ref option" where
  "detach_unbind socket st =
     (case lb_listeners st socket of
        Some (PeerListener pr) \<Rightarrow>
          (case Peer_detachIfCurrent (Some socket) (st_peers st pr) of
             (p, False) \<Rightarrow> (st, None)
           | (p, True) \<Rightarrow> (upd_peer pr p st, Some pr))
      | _ \<Rightarrow> (st, None))"

definition detach_registry :: "time \<Rightarrow> peer_ref \<Rightarrow> Server \<Rightarrow> Server \<times> room_ref option" where
  "detach_registry now pr st =
     (let (sessions, room) = detach_session now pr (lb_sessions st)
      in (st\<lparr>lb_sessions := sessions\<rparr>, room))"

definition detachSessionTransport :: "Env \<Rightarrow> time \<Rightarrow> socket_ref \<Rightarrow> Server \<Rightarrow> Server" where
  "detachSessionTransport env now socket st =
     (case detach_unbind socket st of
        (st, None) \<Rightarrow> st
      | (st, Some pr) \<Rightarrow>
          (case detach_registry now pr st of
             (st, None) \<Rightarrow> st
           | (st, Some rr) \<Rightarrow>
               Room_publishConnectionState env rr pr False
                 (emit [Count EVENT_PEER_DISCONNECTED] st)))"

definition onBeforeDestroy :: "Env \<Rightarrow> time \<Rightarrow> socket_ref \<Rightarrow> Server \<Rightarrow> Server" where
  "onBeforeDestroy env now socket st =
     detachSessionTransport env now socket (st\<lparr>lb_pending := um_erase socket (lb_pending st)\<rparr>)"

definition expire_session :: "Env \<Rightarrow> SessionRecord \<Rightarrow> Server \<Rightarrow> Server \<times> exn option" where
  "expire_session env s st =
     (let st = Room_removePeerById (sr_room s) (p_peerId (st_peers st (sr_peer s))) st
      in case Room_goodbyePeer env (sr_room s) (sr_peer s) st of
           (st, Some e) \<Rightarrow> (st, Some e)
         | (st, None) \<Rightarrow>
             (deleteRoomIfEmpty (sr_room s) (emit [Count EVENT_SESSION_EXPIRED] st), None))"

fun expire_all :: "Env \<Rightarrow> SessionRecord list \<Rightarrow> Server \<Rightarrow> Server \<times> exn option" where
  "expire_all env [] st = (st, None)"
| "expire_all env (s # ss) st =
     (case expire_session env s st of
        (st, Some e) \<Rightarrow> (st, Some e)
      | (st, None) \<Rightarrow> expire_all env ss st)"

text \<open>What is over is taken out of the two registries first.\<close>

definition lease_over :: "time \<Rightarrow> string \<times> SessionRecord \<Rightarrow> bool" where
  "lease_over now e \<longleftrightarrow> SessionLease_expires now (sr_lease (snd e))"

definition expire_collect :: "time \<Rightarrow> Server \<Rightarrow> Server \<times> socket_ref list \<times> SessionRecord list" where
  "expire_collect now st =
     (let late = (\<lambda>e. now \<ge> pr_deadline (snd e))
      in (st\<lparr>lb_pending := filter (\<lambda>e. \<not> late e) (lb_pending st),
              lb_sessions := filter (\<lambda>e. \<not> lease_over now e) (lb_sessions st)\<rparr>,
          map (pr_socket \<circ> snd) (filter late (lb_pending st)),
          map snd (filter (lease_over now) (lb_sessions st))))"

definition expireSessions :: "Env \<Rightarrow> time \<Rightarrow> Server \<Rightarrow> Server \<times> exn option" where
  "expireSessions env now st =
     (let (st, sockets, expired) = expire_collect now st
      in expire_all env expired (emit (map Invalidate sockets) st))"

end
