(* ===== verification/HeapInvariant.thy ===== *)
theory HeapInvariant
  imports Lobby
begin

text \<open>
  The invariant of the heap (rooms, peers, files) and the relation \<open>sound\<close>: an operation that keeps
  the membership of every room and the transport of every peer and preserves the invariant. One lemma per operation of the peer,
  room and file components; the lobby's own operations follow in \<open>Server\<close>.
\<close>

section \<open>Invariant\<close>

definition peer_inv :: "Env \<Rightarrow> Peer \<Rightarrow> bool" where
  "peer_inv env p \<longleftrightarrow> bytes_ok (env_jsonBytes env) p \<and> drain_ok p \<and> binding_ok p
     \<and> DedupeWindow_ok (p_dedupe p) \<and> dw_limit (p_dedupe p) = maxDedupeEntries"

lemma peer_inv_frame [simp]:
  "peer_inv env (p\<lparr>p_files := fs\<rparr>) = peer_inv env p"
  "peer_inv env (p\<lparr>p_messageBuffer := b\<rparr>) = peer_inv env p"
  "peer_inv env (p\<lparr>p_fileCapabilityId := c\<rparr>) = peer_inv env p"
  by (simp_all add: peer_inv_def bytes_ok_def drain_ok_def binding_ok_def)

definition members_ok :: "room_ref \<Rightarrow> 'z Heap_scheme \<Rightarrow> bool" where
  "members_ok rr st \<longleftrightarrow>
     length (rm_peerById (st_rooms st rr)) \<le> Limits_peersPerRoom
   \<and> (\<forall>(i, pr) \<in> set (rm_peerById (st_rooms st rr)).
        p_peerId (st_peers st pr) = i \<and> p_room (st_peers st pr) = rr \<and> pr < st_next st)"

definition room_inv :: "Env \<Rightarrow> room_ref \<Rightarrow> 'z Heap_scheme \<Rightarrow> bool" where
  "room_inv env rr st \<longleftrightarrow>
     history_ok (history_limit env) (st_rooms st rr) \<and> files_ok rr st \<and> members_ok rr st"

definition heap_inv :: "Env \<Rightarrow> 'z Heap_scheme \<Rightarrow> bool" where
  "heap_inv env st \<longleftrightarrow> (\<forall>rr. room_inv env rr st) \<and> (\<forall>pr. peer_inv env (st_peers st pr))"

definition keeps :: "'z Heap_scheme \<Rightarrow> 'z Heap_scheme \<Rightarrow> bool" where
  "keeps st st' \<longleftrightarrow>
     (\<forall>rr. rm_name (st_rooms st' rr) = rm_name (st_rooms st rr)
         \<and> rm_peerById (st_rooms st' rr) = rm_peerById (st_rooms st rr))
   \<and> (\<forall>pr. p_peerId (st_peers st' pr) = p_peerId (st_peers st pr)
         \<and> p_room (st_peers st' pr) = p_room (st_peers st pr)
         \<and> p_socket (st_peers st' pr) = p_socket (st_peers st pr))
   \<and> st_next st \<le> st_next st' \<and> Heap.more st' = Heap.more st"

definition sound :: "Env \<Rightarrow> 'z Heap_scheme \<Rightarrow> 'z Heap_scheme \<Rightarrow> bool" where
  "sound env st st' \<longleftrightarrow> (heap_inv env st \<longrightarrow> keeps st st' \<and> heap_inv env st')"

lemma sound_refl [simp]: "sound env st st"
  by (simp add: sound_def keeps_def)

lemma keeps_trans: "keeps a b \<Longrightarrow> keeps b c \<Longrightarrow> keeps a c"
  by (auto simp: keeps_def)

lemma sound_trans: "sound env a b \<Longrightarrow> sound env b c \<Longrightarrow> sound env a c"
  by (auto simp: sound_def intro: keeps_trans)

interpretation sound: frame_relation "sound env" for env
  by unfold_locales (auto intro: sound_trans)

lemma peer_inv_new [simp]: "peer_inv env (Peer_new s r n i now)"
  by (simp add: peer_inv_def) (simp add: Peer_new_def Let_def TransportGeneration_replace_def DedupeWindow_new_def DedupeWindow_ok_def)

lemma member_room: "members_ok rr st \<Longrightarrow> pr \<in> set (room_peers rr st) \<Longrightarrow>
    p_room (st_peers st pr) = rr \<and> pr < st_next st"
  by (force simp: members_ok_def room_peers_def)

section \<open>Updates that keep the room indexes\<close>

text \<open>What the room invariants read; an operation that leaves it alone keeps them.\<close>

definition room_view_same :: "'z Heap_scheme \<Rightarrow> 'z Heap_scheme \<Rightarrow> bool" where
  "room_view_same st st' \<longleftrightarrow>
     (\<forall>rr. rm_name (st_rooms st' rr) = rm_name (st_rooms st rr)
         \<and> rm_peerById (st_rooms st' rr) = rm_peerById (st_rooms st rr)
         \<and> rm_fileById (st_rooms st' rr) = rm_fileById (st_rooms st rr)
         \<and> rm_fileIdCounter (st_rooms st' rr) = rm_fileIdCounter (st_rooms st rr))
   \<and> (\<forall>pr. p_peerId (st_peers st' pr) = p_peerId (st_peers st pr)
         \<and> p_room (st_peers st' pr) = p_room (st_peers st pr)
         \<and> p_socket (st_peers st' pr) = p_socket (st_peers st pr)
         \<and> p_files (st_peers st' pr) = p_files (st_peers st pr))
   \<and> (\<forall>fr. f_host (st_files st' fr) = f_host (st_files st fr)
         \<and> f_serverFileId (st_files st' fr) = f_serverFileId (st_files st fr))
   \<and> st_next st \<le> st_next st' \<and> Heap.more st' = Heap.more st"

lemma soundI:
  assumes view: "room_view_same st st'"
    and hist: "\<And>rr. history_ok (history_limit env) (st_rooms st rr) \<Longrightarrow>
        history_ok (history_limit env) (st_rooms st' rr)"
    and peers: "\<And>pr. peer_inv env (st_peers st pr) \<Longrightarrow> peer_inv env (st_peers st' pr)"
  shows "sound env st st'"
proof -
  from view have v: "\<And>rr. rm_peerById (st_rooms st' rr) = rm_peerById (st_rooms st rr)"
    "\<And>rr. rm_fileById (st_rooms st' rr) = rm_fileById (st_rooms st rr)"
    "\<And>rr. rm_fileIdCounter (st_rooms st' rr) = rm_fileIdCounter (st_rooms st rr)"
    "\<And>pr. p_peerId (st_peers st' pr) = p_peerId (st_peers st pr)"
    "\<And>pr. p_room (st_peers st' pr) = p_room (st_peers st pr)"
    "\<And>pr. p_files (st_peers st' pr) = p_files (st_peers st pr)"
    "\<And>fr. f_host (st_files st' fr) = f_host (st_files st fr)"
    "\<And>fr. f_serverFileId (st_files st' fr) = f_serverFileId (st_files st fr)"
    and next': "st_next st \<le> st_next st'"
    by (auto simp: room_view_same_def)
  have "files_ok rr st'" if "files_ok rr st" for rr
    using that next'
    by (auto simp: files_ok_def file_entry_ok_def member_files_ok_def room_peers_def v)
  moreover have "members_ok rr st'" if "members_ok rr st" for rr
    using that next' by (auto simp: members_ok_def v)
  ultimately show ?thesis
    using view hist peers by (auto simp: sound_def heap_inv_def room_inv_def keeps_def room_view_same_def)
qed

lemma sound_upd_peer:
  assumes "p_peerId p = p_peerId (st_peers st pr)" "p_room p = p_room (st_peers st pr)"
    "p_socket p = p_socket (st_peers st pr)" "p_files p = p_files (st_peers st pr)"
    and "peer_inv env (st_peers st pr) \<Longrightarrow> peer_inv env p"
  shows "sound env st (upd_peer pr p st)"
  by (rule soundI) (use assms in \<open>auto simp: room_view_same_def\<close>)

lemma sound_emit [simp]: "sound env st (emit es st)"
  by (rule soundI) (auto simp: room_view_same_def)

lemma sound_peer_do:
  assumes "\<And>p. identity (fst (f p)) = identity p" "\<And>p. p_socket (fst (f p)) = p_socket p"
    and "\<And>p. peer_inv env p \<Longrightarrow> peer_inv env (fst (f p))"
  shows "sound env st (peer_do pr f st)"
  by (rule soundI)
     (use assms [of "st_peers st pr"] in \<open>auto simp: room_view_same_def identity_iff\<close>)

text \<open>Only a handoff and a detachment change the transport of a peer.\<close>

fun handoff_event :: "peer_event \<Rightarrow> bool" where
  "handoff_event (PeerReplace _ _) = True"
| "handoff_event (PeerDetach _) = True"
| "handoff_event _ = False"

lemma socket_step:
  assumes "Peer_step jb e p = (q, es)" and "\<not> handoff_event e"
  shows "p_socket q = p_socket p"
proof -
  consider m where "e = PeerSend m" | i where "e = PeerDrain i" | i where "e = PeerDrainError i"
    | "\<not> queue_event e" by (cases e) auto
  then show ?thesis
  proof cases
    case (1 m)
    with assms show ?thesis
      by (auto simp: Peer_sendMessageAsync_def invalidateIf_pair Peer_startOutboundDrain_def Let_def split: option.splits if_splits)
  next
    case (2 i)
    with assms drainStep_binding [of jb i p] show ?thesis by simp
  next
    case (3 i)
    with assms have "Peer_drainError jb i p = (q, es)" by simp
    then show ?thesis
    proof (cases rule: drainError_cases)
      case (stale f)
      with drainStep_binding [of jb i p] show ?thesis by (metis prod.collapse)
    next
      case (current f fs)
      with drainStep_binding [of jb i "closing WRITE_ERROR p"] show ?thesis by simp
    qed simp
  next
    case 4
    with assms show ?thesis
      by (cases e) (auto simp: peer_transport_defs Let_def split: prod.splits option.splits if_splits)
  qed
qed

lemma identity_dedupe: "identity p = identity q \<Longrightarrow> p_dedupe p = p_dedupe q"
  by (simp add: identity_iff)

lemma peer_inv_send: "peer_inv env p \<Longrightarrow> peer_inv env (fst (Peer_sendMessageAsync (env_jsonBytes env) m p))"
proof -
  assume inv: "peer_inv env p"
  obtain q es where s: "Peer_sendMessageAsync (env_jsonBytes env) m p = (q, es)" by fastforce
  have step: "Peer_step (env_jsonBytes env) (PeerSend m) p = (q, es)" using s by simp
  have "p_dedupe q = p_dedupe p"
    using identity_send [of "env_jsonBytes env" m p] s by (simp add: identity_iff)
  with inv send_ok [OF _ _ s] Peer_step_binding_ok [OF _ step] show ?thesis
    by (simp add: peer_inv_def s)
qed

lemma sound_send [simp]: "sound env st (peer_send env pr m st)"
  unfolding peer_send_def
  by (rule sound_peer_do)
     (use socket_step [of "env_jsonBytes env" "PeerSend m"] in
        \<open>simp_all add: peer_inv_send prod_eq_iff\<close>)

lemma sound_send_opt [simp]: "sound env st (peer_send_opt env pr m st)"
  by (simp add: peer_send_opt_def split: option.split)

lemma sound_broadcast [simp]: "sound env st (Room_sendMessageAsync env rr m ex st)"
  unfolding Room_sendMessageAsync_def by (rule sound.loop) simp

lemma sound_connection_state [simp]: "sound env st (Room_publishConnectionState env rr pr b st)"
  by (simp add: Room_publishConnectionState_def)

lemma peer_inv_protocolError: "peer_inv env p \<Longrightarrow> peer_inv env (fst (Peer_recordProtocolError p))"
  by (simp add: Peer_recordProtocolError_def select_pair peer_inv_def)

lemma socket_protocolError: "p_socket (fst (Peer_recordProtocolError p)) = p_socket p"
  by (simp add: Peer_recordProtocolError_def select_pair)

lemma sound_apiError: "Peer_onApiError pr e c st = (st', r) \<Longrightarrow> sound env st st'"
  by (auto simp: Peer_onApiError_def Let_def peer_inv_protocolError socket_protocolError
      intro!: sound_peer_do)

lemma sound_ack [simp]: "sound env st (Peer_sendMessageAck env pr c n st)"
  by (simp add: Peer_sendMessageAck_def)

section \<open>Publication\<close>

lemma sound_addHistory:
  assumes "Room_addHistoryMessage env rr m st = (st', r)"
  shows "sound env st st'"
proof (rule soundI)
  from assms show "room_view_same st st'"
    by (cases rule: addHistory_cases) (auto simp: room_view_same_def)
  show "history_ok (history_limit env) (st_rooms st' r)"
    if "history_ok (history_limit env) (st_rooms st r)" for r
  proof (cases "r = rr")
    case True
    with addHistory_ok [OF _ assms] that show ?thesis by simp
  next
    case False
    from assms have "st_rooms st' r = st_rooms st r"
      by (cases rule: addHistory_cases) (use False in auto)
    with that show ?thesis by simp
  qed
  show "peer_inv env (st_peers st' pr)" if "peer_inv env (st_peers st pr)" for pr
    using assms by (cases rule: addHistory_cases) (use that in auto)
qed

lemma sound_publish:
  assumes before: "\<And>n st. sound env st (fst (before n st))"
    and pub: "Room_publishDurable env rr m ex before st = (st', r)"
  shows "sound env st st'"
proof -
  obtain st1 r1 where add: "Room_addHistoryMessage env rr m st = (st1, r1)" by fastforce
  have s1: "sound env st st1" by (rule sound_addHistory [OF add])
  show ?thesis
  proof (cases r1)
    case (Inl e)
    with pub add s1 show ?thesis by (simp add: Room_publishDurable_def)
  next
    case (Inr msg)
    let ?n = "case msg_serverSeq msg of Some n \<Rightarrow> n | None \<Rightarrow> 0"
    obtain st2 t where b: "before ?n st1 = (st2, t)" by fastforce
    have s2: "sound env st1 st2" using before [of st1 ?n] b by simp
    have "sound env st2 st'"
      using pub add Inr b by (cases t) (auto simp: Room_publishDurable_def)
    with s1 s2 show ?thesis by (blast intro: sound_trans)
  qed
qed

lemma sound_no_callback: "sound env st (fst (no_callback n st))"
  by (simp add: no_callback_def)

lemma sound_remember: "sound env st (fst (Peer_rememberCommand pr cid n st))"
proof -
  obtain w b where w: "DedupeWindow_remember cid n (p_dedupe (st_peers st pr)) = (w, b)" by fastforce
  have "peer_inv env ((st_peers st pr)\<lparr>p_dedupe := w\<rparr>)" if inv: "peer_inv env (st_peers st pr)"
  proof -
    have "DedupeWindow_ok w" using dedupe.record_ok [of "p_dedupe (st_peers st pr)" cid n] inv
      by (simp add: peer_inv_def w)
    moreover have "dw_limit w = dw_limit (p_dedupe (st_peers st pr))"
      using w by (auto simp: DedupeWindow_remember_def split: if_splits)
    ultimately show ?thesis
      using inv by (simp add: peer_inv_def bytes_ok_def drain_ok_def binding_ok_def)
  qed
  then show ?thesis by (simp add: Peer_rememberCommand_def Let_def w) (rule sound_upd_peer; simp)
qed

lemma sound_goodbye: "Room_goodbyePeer env rr pr st = (st', r) \<Longrightarrow> sound env st st'"
  by (auto simp: Room_goodbyePeer_def Let_def split: prod.splits sum.splits
      intro: sound_publish [OF sound_no_callback])

lemma sound_welcome: "Room_welcomePeer env rr pr st = (st', r) \<Longrightarrow> sound env st st'"
  by (auto simp: Room_welcomePeer_def Let_def split: prod.splits sum.splits
      intro: sound_publish [OF sound_no_callback])

section \<open>Heartbeat sweep\<close>

lemma peer_inv_step:
  assumes "peer_inv env p" and "Peer_step (env_jsonBytes env) e p = (q, es)"
    and "p_dedupe q = p_dedupe p"
  shows "peer_inv env q"
  using assms Peer_step_queue_ok [OF _ _ assms(2)] Peer_step_binding_ok [OF _ assms(2)]
  by (simp add: peer_inv_def)

lemma peer_inv_closing: "peer_inv env p \<Longrightarrow> peer_inv env (closing r p)"
  by (simp add: peer_inv_def)

lemma sound_pingPeer [simp]: "sound env st (Room_pingPeer now pr st)"
proof -
  let ?p = "st_peers st pr"
  obtain p es t where ping: "Peer_sendPingAsync now ?p = (p, es, t)"
    by (cases "Peer_sendPingAsync now ?p") auto
  have id: "identity p = identity ?p" using identity_ping [of now ?p] ping by simp
  have step: "Peer_step (env_jsonBytes env) (PeerTick now) ?p = (p, es)" by (simp add: ping)
  then have inv: "peer_inv env ?p \<Longrightarrow> peer_inv env p"
    by (rule peer_inv_step [rotated]) (use id in \<open>simp add: identity_iff\<close>)
  have sock: "p_socket p = p_socket ?p" by (rule socket_step [OF step]) simp
  define st1 where "st1 = emit es (upd_peer pr p st)"
  have s1: "sound env st st1"
    unfolding st1_def
    by (rule sound_trans [OF sound_upd_peer sound_emit]) (use id inv sock in \<open>auto simp: identity_iff\<close>)
  have "sound env st1 (Room_pingPeer now pr st)"
  proof (cases "t = EXPIRED")
    case False
    then show ?thesis by (simp add: Room_pingPeer_def ping Let_def st1_def)
  next
    case True
    let ?g = "p_socketGeneration ?p"
    obtain q fs hit where cl: "Peer_invalidateSocketIfCurrent ?g HEARTBEAT_TIMEOUT (st_peers st1 pr) = (q, fs, hit)"
      by (cases "Peer_invalidateSocketIfCurrent ?g HEARTBEAT_TIMEOUT (st_peers st1 pr)") auto
    have q: "q = st_peers st1 pr \<or> q = closing HEARTBEAT_TIMEOUT (st_peers st1 pr)"
      using cl by (auto simp: invalidateIf_pair split: if_splits)
    have "sound env st1 (upd_peer pr q st1)"
      by (rule sound_upd_peer) (use q in \<open>auto simp: peer_inv_closing\<close>)
    moreover have "sound env (upd_peer pr q st1) (Room_pingPeer now pr st)"
      using True cl
      by (auto simp: Room_pingPeer_def ping Let_def st1_def [symmetric] intro: sound_trans [OF sound_emit sound_emit])
    ultimately show ?thesis by (rule sound_trans)
  qed
  with s1 show ?thesis by (rule sound_trans)
qed

lemma sound_pingAll [simp]: "sound env st (Room_pingAllPeers now rr st)"
  unfolding Room_pingAllPeers_def by (rule sound.loop) simp

section \<open>Downloads\<close>

lemma sound_subscribers:
  assumes "st_rooms st' = st_rooms st" "st_peers st' = st_peers st" "st_next st \<le> st_next st'"
    "Heap.more st' = Heap.more st"
    "\<And>fr. f_host (st_files st' fr) = f_host (st_files st fr)
       \<and> f_serverFileId (st_files st' fr) = f_serverFileId (st_files st fr)"
  shows "sound env st st'"
  by (rule soundI) (simp_all add: room_view_same_def assms)

lemma sound_upd_subscriber [simp]: "sound env st (upd_subscriber r s st)"
  by (rule sound_subscribers) simp_all

lemma sound_upd_file:
  "f_host f = f_host (st_files st fr) \<Longrightarrow> f_serverFileId f = f_serverFileId (st_files st fr) \<Longrightarrow>
     sound env st (upd_file fr f st)"
  by (rule sound_subscribers) simp_all

lemma sound_readChunk:
  "Subscriber_readChunk_at env r n st = (st', x) \<Longrightarrow> sound env st st'"
  by (auto simp: Subscriber_readChunk_at_def Let_def split: prod.splits
      intro: sound_trans [OF sound_upd_subscriber sound_send_opt])

lemma sound_reissue [simp]: "sound env st (Subscriber_reissue_at env r st)"
  by (auto simp: Subscriber_reissue_at_def Let_def split: prod.splits
      intro: sound_trans [OF sound_upd_subscriber sound_send_opt])

lemma sound_destroySubscriber [simp]: "sound env st (Subscriber_destroy r st)"
  by (rule sound_subscribers) (simp_all add: Subscriber_destroy_def Let_def File_unsubscribe_def upd_file_def)

lemma sound_subscribe:
  assumes "File_subscribe_at fr st = (st', x)"
  shows "sound env st st'"
  by (rule sound_subscribers)
     (use assms in \<open>auto simp: File_subscribe_at_def Let_def File_subscribe_def upd_file_def
        upd_subscriber_def split: if_splits\<close>)

lemma sound_provide:
  assumes "File_provideFileChunk fr sid i p n d st = (st', x)"
  shows "sound env st st'"
  by (rule sound_subscribers)
     (use assms provide_frame [OF assms] in \<open>auto simp: File_provideFileChunk_def Let_def
        split: option.splits if_splits prod.splits\<close>)

lemma sound_clear [simp]: "sound env st (File_clearSubscribers fr st)"
  by (rule sound_subscribers) simp_all

lemma sound_reissueFile [simp]: "sound env st (File_reissueOutstandingRequests env fr st)"
proof -
  let ?f = "st_files st fr"
  let ?st1 = "upd_file fr (?f\<lparr>f_subscribers := filter (\<lambda>e. st_subscriberAlive st (snd e)) (f_subscribers ?f)\<rparr>) st"
  have "sound env st ?st1" by (rule sound_upd_file) simp_all
  moreover have "sound env ?st1 (fold (Subscriber_reissue_at env) (live_subscribers st ?f) ?st1)"
    by (rule sound.loop) simp
  ultimately show ?thesis
    unfolding File_reissueOutstandingRequests_def Let_def by (rule sound_trans)
qed

lemma sound_reissuePeer [simp]: "sound env st (Peer_reissueOutstandingFileRequests env pr st)"
  unfolding Peer_reissueOutstandingFileRequests_def by (rule sound.loop) simp

section \<open>Sharing and withdrawing\<close>

lemma sound_share:
  assumes bound: "rm_fileIdCounter (st_rooms st rr) + int Limits_filesPerPeer < 2 ^ 63"
    and share: "Room_shareFiles rr i ds st = (st', r)"
  shows "sound env st st'"
  unfolding sound_def
proof
  assume inv: "heap_inv env st"
  then have ok: "files_ok rr st" by (simp add: heap_inv_def room_inv_def)
  from ok bound share show "keeps st st' \<and> heap_inv env st'"
  proof (cases rule: shareFiles_cases)
    case rejected
    with inv show ?thesis by (simp add: keeps_def)
  next
    case (accepted host ds')
    note sh = accepted(5) [unfolded shared_state_def Let_def]
    have host: "host \<in> set (room_peers rr st)"
      using ok accepted(2) by (intro room_peers_find) (simp_all add: files_ok_def)
    have in_rr: "p_room (st_peers st host) = rr"
      using host inv member_room [of rr st host] by (simp add: heap_inv_def room_inv_def)
    have keep: "keeps st st'"
      using sh by (auto simp: keeps_def Peer_addFiles_def)
    have "files_ok r st'" for r
    proof (cases "r = rr")
      case True
      with shared_state_files_ok [OF ok host accepted(3,5)] show ?thesis by simp
    next
      case False
      have okr: "files_ok r st" and mem: "members_ok r st"
        using inv by (simp_all add: heap_inv_def room_inv_def)
      have other: "host \<notin> set (room_peers r st)"
        using member_room [OF mem, of host] in_rr False by auto
      have rooms: "st_rooms st' r = st_rooms st r" using sh False by simp
      have grown: "st_next st \<le> st_next st'" using sh by simp
      have peers: "room_peers r st' = room_peers r st" by (simp add: room_peers_def rooms)
      have old: "st_files st' fr = st_files st fr" if "fr < st_next st" for fr using sh that by simp
      have files: "p_files (st_peers st' q) = p_files (st_peers st q)" if "q \<in> set (room_peers r st)" for q
        using sh that other by auto
      have entry: "file_entry_ok r st j fr" if "(j, fr) \<in> set (rm_fileById (st_rooms st r))" for j fr
        using okr that by (auto simp: files_ok_def)
      have "file_entry_ok r st' j fr" if "(j, fr) \<in> set (rm_fileById (st_rooms st r))" for j fr
        using entry [OF that] grown by (auto simp: file_entry_ok_def rooms peers old files)
      moreover have "member_files_ok r st' q" if q: "q \<in> set (room_peers r st)" for q
      proof -
        have m: "member_files_ok r st q" using okr q by (simp add: files_ok_def)
        then have "fr < st_next st" if "fr \<in> set (p_files (st_peers st q))" for fr
          using that entry by (auto simp: member_files_ok_def file_entry_ok_def)
        with m show ?thesis by (simp add: member_files_ok_def files [OF q] rooms old)
      qed
      ultimately show ?thesis using okr by (auto simp: files_ok_def rooms peers)
    qed
    moreover have "members_ok r st'" for r
    proof -
      have "members_ok r st" using inv by (simp add: heap_inv_def room_inv_def)
      then show ?thesis using sh by (auto simp: members_ok_def Peer_addFiles_def)
    qed
    moreover have "history_ok (history_limit env) (st_rooms st' r)" for r
      using sh inv by (auto simp: heap_inv_def room_inv_def history_ok_def)
    moreover have "peer_inv env (st_peers st' q)" for q
      using sh inv
      by (auto simp: heap_inv_def peer_inv_def Peer_addFiles_def bytes_ok_def drain_ok_def binding_ok_def)
    ultimately show ?thesis using keep by (simp add: heap_inv_def room_inv_def)
  qed
qed

lemma heap_invD:
  assumes "heap_inv env st"
  shows "files_ok rr st" "members_ok rr st" "history_ok (history_limit env) (st_rooms st rr)"
    "peer_inv env (st_peers st pr)"
  using assms by (simp_all add: heap_inv_def room_inv_def)

text \<open>Taking a member's files (with or without the member leaving) and clearing their subscribers.
  \<open>ps\<close> is the membership of the room afterwards.\<close>

lemma withdraw_heap_inv:
  assumes inv: "heap_inv env st" and pr: "pr \<in> set (room_peers rr st)"
    and take: "Room_takeFiles rr pr st = (st1, frs)"
    and members: "um_valid ps" "set ps \<subseteq> set (rm_peerById (st_rooms st rr))"
      "set (room_peers rr st) \<subseteq> insert pr (set (map snd ps))"
      "length ps \<le> length (rm_peerById (st_rooms st rr))"
    and st2: "st_rooms st2 = (st_rooms st1)(rr := (st_rooms st1 rr)\<lparr>rm_peerById := ps\<rparr>)"
      "st_peers st2 = st_peers st1" "st_next st2 = st_next st1"
      "\<And>fr. f_host (st_files st2 fr) = f_host (st_files st fr)
         \<and> f_serverFileId (st_files st2 fr) = f_serverFileId (st_files st fr)"
  shows "heap_inv env st2"
proof -
  note t = takeFiles_closed [OF take] and h = heap_invD [OF inv]
  have in_rr: "p_room (st_peers st pr) = rr" using member_room [OF h(2) pr] by simp
  have "set (map snd ps) \<subseteq> set (room_peers rr st)" using members(2) by (auto simp: room_peers_def)
  from files_ok_after_take [OF h(1) pr take members(1) this members(3), of st2] st2
  have rr_ok: "files_ok rr st2" by simp
  have "files_ok r st2" for r
  proof (cases "r = rr")
    case False
    then have "pr \<notin> set (room_peers r st)" using member_room [OF h(2), of pr r] in_rr by auto
    moreover have "st_rooms st2 r = st_rooms st r" using False by (simp add: st2 t)
    ultimately show ?thesis
      using h(1) [of r] by (auto simp: files_ok_def file_entry_ok_def member_files_ok_def room_peers_def st2 t)
  qed (use rr_ok in simp)
  moreover have "members_ok r st2" for r
    using h(2) [of r] members(2,4) by (auto simp: members_ok_def st2 t)
  moreover have "history_ok (history_limit env) (st_rooms st2 r)" for r
    using h(3) [of r] by (cases "r = rr") (simp_all add: history_ok_def st2 t del: upt_Suc)
  moreover have "peer_inv env (st_peers st2 q)" for q
    using h(4) [of q] by (cases "q = pr") (simp_all add: st2 t)
  ultimately show ?thesis by (simp add: heap_inv_def room_inv_def)
qed

lemma withdraw_sound:
  assumes inv: "heap_inv env st" and pr: "pr \<in> set (room_peers rr st)"
    and w: "Room_withdrawPeerFiles env rr pr st = (st', r)"
  shows "keeps st st' \<and> heap_inv env st'"
proof (cases "p_files (st_peers st pr) = []")
  case True
  with w inv show ?thesis by (simp add: Room_withdrawPeerFiles_def Peer_getFilesSnapshot_def keeps_def)
next
  case False
  obtain st1 frs where take: "Room_takeFiles rr pr st = (st1, frs)" by fastforce
  note t = takeFiles_closed [OF take]
  define st2 where "st2 = fold File_clearSubscribers frs st1"
  have "heap_inv env st2"
  proof (rule withdraw_heap_inv [OF inv pr take])
    show "um_valid (rm_peerById (st_rooms st rr))" using heap_invD(1) [OF inv, of rr] by (simp add: files_ok_def)
  qed (auto simp: st2_def t clear_all_files room_peers_def)
  moreover have "keeps st st2" by (simp add: keeps_def st2_def t)
  moreover have "sound env st2 st'"
    using w False take
    by (auto simp: Room_withdrawPeerFiles_def Peer_getFilesSnapshot_def Let_def st2_def [symmetric]
        split: prod.splits sum.splits intro: sound_publish [OF sound_no_callback])
  ultimately show ?thesis by (auto simp: sound_def intro: keeps_trans)
qed

text \<open>Removing a member changes the membership of its room and of no other.\<close>

lemma remove_heap_inv:
  assumes inv: "heap_inv env st"
  shows "heap_inv env (Room_removePeerById rr i st)
    \<and> (\<forall>r. rm_name (st_rooms (Room_removePeerById rr i st) r) = rm_name (st_rooms st r)
         \<and> rm_peerById (st_rooms (Room_removePeerById rr i st) r)
           = (if r = rr then um_erase i (rm_peerById (st_rooms st rr)) else rm_peerById (st_rooms st r)))
    \<and> (\<forall>pr. p_peerId (st_peers (Room_removePeerById rr i st) pr) = p_peerId (st_peers st pr)
         \<and> p_room (st_peers (Room_removePeerById rr i st) pr) = p_room (st_peers st pr)
         \<and> p_socket (st_peers (Room_removePeerById rr i st) pr) = p_socket (st_peers st pr))
    \<and> st_next (Room_removePeerById rr i st) = st_next st
    \<and> Heap.more (Room_removePeerById rr i st) = Heap.more st"
proof -
  let ?rm = "st_rooms st rr"
  have valid: "um_valid (rm_peerById ?rm)" using heap_invD(1) [OF inv, of rr] by (simp add: files_ok_def)
  show ?thesis
  proof (cases "um_find (rm_peerById ?rm) i")
    case None
    then have "um_erase i (rm_peerById ?rm) = rm_peerById ?rm"
      by (auto simp: um_erase_def um_find_None filter_id_conv)
    with None inv show ?thesis by (simp add: Room_removePeerById_def)
  next
    case (Some pr)
    let ?ps = "um_erase i (rm_peerById ?rm)"
    have pr: "pr \<in> set (room_peers rr st)" using um_find_SomeD [OF Some] by (force simp: room_peers_def)
    define st0 where "st0 = upd_room rr (?rm\<lparr>rm_peerById := ?ps\<rparr>) st"
    obtain st1 frs where take: "Room_takeFiles rr pr st0 = (st1, frs)" by fastforce
    obtain st1' frs' where take': "Room_takeFiles rr pr st = (st1', frs')" by fastforce
    note t = takeFiles_closed [OF take] and t' = takeFiles_closed [OF take']
    define st2 where "st2 = fold File_clearSubscribers frs st1"
    have rem: "Room_removePeerById rr i st = st2"
      using Some take by (simp add: Room_removePeerById_def Let_def st0_def st2_def)
    have "heap_inv env st2"
    proof (rule withdraw_heap_inv [OF inv pr take'])
      show "um_valid ?ps" by (rule um.valid_erase [OF valid])
      show "set ?ps \<subseteq> set (rm_peerById ?rm)" by (auto simp: um_erase_set)
      show "length ?ps \<le> length (rm_peerById ?rm)" by (simp add: um_erase_def)
      show "set (room_peers rr st) \<subseteq> insert pr (set (map snd ?ps))"
      proof
        fix q assume "q \<in> set (room_peers rr st)"
        then obtain j where j: "(j, q) \<in> set (rm_peerById ?rm)" by (auto simp: room_peers_def)
        show "q \<in> insert pr (set (map snd ?ps))"
        proof (cases "j = i")
          case True
          with Some valid j show ?thesis by (simp add: um_find_in [symmetric])
        next
          case False
          with j have "(j, q) \<in> set ?ps" by (simp add: um_erase_set)
          then show ?thesis by force
        qed
      qed
    qed (auto simp: st2_def t t' st0_def clear_all_files fun_eq_iff)
    moreover have "st_rooms st2 r = (if r = rr then (st_rooms st1 rr) else st_rooms st r)" for r
      by (simp add: st2_def t st0_def)
    ultimately show ?thesis
      unfolding rem by (auto simp: st2_def t st0_def)
  qed
qed

section \<open>Commands\<close>

lemma sound_publish_command:
  "Room_publishDurable env rr m None (Peer_rememberCommand pr cid) st = (st', r) \<Longrightarrow> sound env st st'"
  by (rule sound_publish [OF sound_remember])

lemma sound_handlePeerMessage:
  assumes h: "Peer_handlePeerMessage env pr m st = (st', r)"
  shows "sound env st st'"
proof -
  let ?content = "mb_message (msg_body m)" and ?cid = "mb_clientMessageId (msg_body m)"
  let ?invalid = "case ?content of None \<Rightarrow> True | Some c \<Rightarrow> \<not> validMessageContent c"
  show ?thesis
  proof (cases "?invalid \<or> ?cid = None \<or> \<not> validClientMessageId (the ?cid)")
    case True
    then obtain e c where "Peer_onApiError pr e c st = (st', r)"
      using h by (cases ?cid) (auto simp: Peer_handlePeerMessage_def Let_def split: if_splits)
    then show ?thesis by (rule sound_apiError)
  next
    case False
    then obtain cid where cid: "?cid = Some cid" "validClientMessageId cid" and ok: "\<not> ?invalid" by auto
    note h' = h [unfolded Peer_handlePeerMessage_def Let_def if_not_P [OF ok] cid(1) option.case
        if_not_P [OF cid(2) [THEN not_not [THEN iffD2]]]]
    show ?thesis
    proof (cases "recorded pr st cid = None \<and> \<not> DedupeWindow_full (p_dedupe (st_peers st pr))")
      case False
      with h' show ?thesis
        by (auto split: option.splits if_splits intro: sound_apiError)
    next
      case True
      obtain st1 r1 where pub: "Room_publishDurable env (p_room (st_peers st pr)) m None
          (Peer_rememberCommand pr cid) st = (st1, r1)" by fastforce
      have s1: "sound env st st1" by (rule sound_publish_command [OF pub])
      have "sound env st1 st'"
        using h' True pub by (cases r1) (auto intro: sound_trans [OF sound_ack sound_emit])
      with s1 show ?thesis by (rule sound_trans)
    qed
  qed
qed

lemma sound_handleFiles:
  assumes bound: "rm_fileIdCounter (st_rooms st (p_room (st_peers st pr))) + int Limits_filesPerPeer < 2 ^ 63"
    and h: "Peer_handleFilesMessage env tick pr msg st = (st', r)"
  shows "sound env st st'"
  using h
proof (cases rule: handleFiles_cases)
  case (bad e c)
  then show ?thesis by (rule sound_apiError)
next
  case (retry cid n)
  then show ?thesis by simp
next
  case (failed i ds e)
  from sound_share [OF bound failed(1)] show ?thesis .
next
  case (limit i ds st1 e c)
  from sound_trans [OF sound_share [OF bound limit(1)] sound_apiError [OF limit(2)]] show ?thesis .
next
  case (go cid i ds st1 frs m st2 r2)
  have "sound env st st2"
    by (rule sound_trans [OF sound_share [OF bound go(4)] sound_publish_command [OF go(6)]])
  moreover have "sound env st2 st'" using go(7) by (cases r2) auto
  ultimately show ?thesis by (rule sound_trans)
qed

lemma sound_handleChunk:
  assumes h: "Peer_handleFileChunkMessage env pr msg st = (st', r)"
  shows "sound env st st'"
  using h
proof (cases rule: handleChunk_cases)
  case (bad e c)
  then show ?thesis by (rule sound_apiError)
next
  case (fed fileId fr sid position sz requestId bytes st1 result)
  have s1: "sound env st st1" by (rule sound_provide [OF fed(5)])
  from fed(6) have "sound env st1 st'" by (auto intro: sound_apiError)
  with s1 show ?thesis by (rule sound_trans)
qed simp_all

lemma sound_handleMessage:
  assumes bound: "rm_fileIdCounter (st_rooms st (p_room (st_peers st pr))) + int Limits_filesPerPeer < 2 ^ 63"
    and h: "Peer_handleMessage env tick pr msg st = (st', r)"
  shows "sound env st st'"
proof (cases "\<exists>m c. msg = Some m \<and> msg_code m = Some c")
  case False
  then obtain e where "Peer_onApiError pr e None st = (st', r)"
    using h by (auto simp: Peer_handleMessage_def split: option.splits)
  then show ?thesis by (rule sound_apiError)
next
  case True
  then obtain m c where m: "msg = Some m" "msg_code m = Some c" by auto
  note h' = h [unfolded Peer_handleMessage_def m option.case]
  show ?thesis
    using h' sound_handlePeerMessage sound_handleFiles [OF bound] sound_handleChunk sound_apiError
    by (cases c) (auto simp only: MessageCodes.case prod.inject sound_broadcast)
qed

lemma peer_inv_inbound: "peer_inv env p \<Longrightarrow> peer_inv env (Peer_inbound now p)"
  by (simp add: peer_inv_def Peer_inbound_def bytes_ok_def drain_ok_def binding_ok_def)

lemma inbound_sel [simp]:
  "p_room (Peer_inbound now p) = p_room p" "p_peerId (Peer_inbound now p) = p_peerId p"
  "p_files (Peer_inbound now p) = p_files p" "p_socket (Peer_inbound now p) = p_socket p"
  by (simp_all add: Peer_inbound_def)

lemma sound_readMessage:
  assumes bound: "rm_fileIdCounter (st_rooms st (p_room (st_peers st pr))) + int Limits_filesPerPeer < 2 ^ 63"
    and h: "Peer_readMessage env now tick pr socket frame st = (st', r)"
  shows "sound env st st'"
proof (cases "Some socket = p_socket (st_peers st pr)")
  case False
  with h show ?thesis by (simp add: Peer_readMessage_def)
next
  case True
  let ?p = "Peer_inbound now (st_peers st pr)"
  define st1 where "st1 = upd_peer pr ?p st"
  have s1: "sound env st st1"
    unfolding st1_def by (rule sound_upd_peer) (simp_all add: peer_inv_inbound)
  have p1: "st_peers st1 pr = ?p" by (simp add: st1_def)
  have "sound env st1 st'"
  proof (cases "frame_too_large env (p_messageBuffer ?p) frame")
    case big: True
    with h True have "Peer_onApiError pr ''Message size exceeds max allowed size.'' None st1 = (st', r)"
      by (simp add: Peer_readMessage_def Let_def st1_def)
    then show ?thesis by (rule sound_apiError)
  next
    case fits: False
    show ?thesis
    proof (cases "frame = []")
      case more: False
      with h True fits have "st' = upd_peer pr (?p\<lparr>p_messageBuffer := p_messageBuffer ?p @ frame\<rparr>) st1"
        by (simp add: Peer_readMessage_def Let_def st1_def)
      then show ?thesis by (simp only:) (rule sound_upd_peer; simp add: p1)
    next
      case complete: True
      define st2 where "st2 = upd_peer pr (?p\<lparr>p_messageBuffer := []\<rparr>) st1"
      have s2: "sound env st1 st2" unfolding st2_def by (rule sound_upd_peer) (simp_all add: p1)
      have bound2: "rm_fileIdCounter (st_rooms st2 (p_room (st_peers st2 pr))) + int Limits_filesPerPeer < 2 ^ 63"
        using bound by (simp add: st2_def st1_def)
      note h' = h [unfolded Peer_readMessage_def Let_def, folded st1_def, unfolded p1]
      have "sound env st2 st'"
      proof (cases "env_readFromString env (p_messageBuffer ?p)")
        case (Inl e)
        with h' True fits complete show ?thesis
          by (auto simp: st2_def [symmetric] split: if_splits intro: sound_apiError)
      next
        case (Inr m)
        with h' True fits complete show ?thesis
          by (cases m) (auto simp: st2_def [symmetric] intro: sound_apiError sound_handleMessage [OF bound2])
      qed
      with s2 show ?thesis by (rule sound_trans)
    qed
  qed
  with s1 show ?thesis by (rule sound_trans)
qed

text \<open>The steps of the transport that an executor or a socket triggers.\<close>

lemma identity_step:
  assumes "Peer_step jb e p = (q, es)"
  shows "identity q = identity p"
proof -
  have next_id: "identity (fst (Peer_nextFrame jb p)) = identity p" for p
    by (auto simp: nextFrame_closed drain_result_def identity_iff split: list.splits)
  have drain_id: "identity (fst (Peer_drainStep jb i p)) = identity p" for i p
    using next_id [of p]
    by (auto simp: Peer_drainStep_def identity_iff split: prod.splits option.splits)
  consider m where "e = PeerSend m" | i where "e = PeerDrain i" | i where "e = PeerDrainError i"
    | "\<not> queue_event e" by (cases e) auto
  then show ?thesis
  proof cases
    case (1 m)
    with assms identity_send [of jb m p] show ?thesis by simp
  next
    case (2 i)
    with assms drain_id [of i p] show ?thesis by simp
  next
    case (3 i)
    with assms have "Peer_drainError jb i p = (q, es)" by simp
    then show ?thesis
    proof (cases rule: drainError_cases)
      case skipped
      then show ?thesis by simp
    next
      case (stale f)
      with drain_id [of i p] show ?thesis by simp
    next
      case (current f fs)
      with drain_id [of i "closing WRITE_ERROR p"] show ?thesis by simp
    qed
  next
    case 4
    with assms show ?thesis
      by (cases e) (auto simp: peer_transport_defs Let_def identity_iff
          split: prod.splits option.splits if_splits)
  qed
qed

lemma sound_transport_step:
  assumes "\<not> handoff_event e"
  shows "sound env st (peer_do pr (Peer_step (env_jsonBytes env) e) st)"
proof (rule sound_peer_do)
  show "identity (fst (Peer_step (env_jsonBytes env) e p)) = identity p" for p
    by (metis identity_step prod.collapse)
  show "p_socket (fst (Peer_step (env_jsonBytes env) e p)) = p_socket p" for p
    by (metis socket_step assms prod.collapse)
  show "peer_inv env (fst (Peer_step (env_jsonBytes env) e p))" if "peer_inv env p" for p
  proof -
    obtain q es where s: "Peer_step (env_jsonBytes env) e p = (q, es)" by fastforce
    have "p_dedupe q = p_dedupe p" using identity_step [OF s] by (simp add: identity_iff)
    from peer_inv_step [OF that s this] show ?thesis by (simp add: s)
  qed
qed

end
