(* ===== verification/LobbySteps.thy ===== *)
theory LobbySteps
  imports HeapInvariant
begin

text \<open>
  What each step of \<^verbatim>\<open>server/src/rooms/Lobby.cpp\<close> between two locks does to the invariant of the lobby's
  registries. \<open>transports_ok X\<close> leaves out the peers \<open>X\<close> whose transport is being handed over or taken away
  by a call under way; \<open>undisturbed\<close> is what a step leaves alone for the calls of other threads. \<open>Server\<close>
  composes the steps for calls that run alone, \<open>Interleaving\<close> for calls that run at once.
\<close>

section \<open>Invariant of the registries\<close>

definition session_member :: "Server \<Rightarrow> SessionRecord \<Rightarrow> bool" where
  "session_member st s \<longleftrightarrow>
     um_find (rm_peerById (st_rooms st (sr_room s))) (p_peerId (st_peers st (sr_peer s))) = Some (sr_peer s)"

text \<open>A connected session has a transport that listens for its peer; a detached one has none.\<close>

definition transport_ok :: "Server \<Rightarrow> SessionRecord \<Rightarrow> bool" where
  "transport_ok st s \<longleftrightarrow>
     (case p_socket (st_peers st (sr_peer s)) of
        None \<Rightarrow> SessionLease_disconnected (sr_lease s)
      | Some socket \<Rightarrow> \<not> SessionLease_disconnected (sr_lease s)
          \<and> lb_listeners st socket = Some (PeerListener (sr_peer s)))"

definition rooms_ok :: "Server \<Rightarrow> bool" where
  "rooms_ok st \<longleftrightarrow> um_valid (lb_rooms st) \<and> length (lb_rooms st) \<le> Limits_rooms
     \<and> (\<forall>(name, rr) \<in> set (lb_rooms st). Room_getName rr st = name \<and> rr < st_next st)
     \<and> (\<forall>rr. \<forall>(i, pr) \<in> set (rm_peerById (st_rooms st rr)). 0 < i \<and> i < lb_peerIdCounter st)
     \<and> (\<forall>rr. st_next st \<le> rr \<longrightarrow> rm_peerById (st_rooms st rr) = [])
     \<and> 0 < lb_peerIdCounter st"

definition sessions_ok :: "Server \<Rightarrow> bool" where
  "sessions_ok st \<longleftrightarrow> um_valid (lb_sessions st) \<and> distinct (map (sr_peer \<circ> snd) (lb_sessions st))
     \<and> (\<forall>(k, s) \<in> set (lb_sessions st). k = digestKey (sr_digest s) \<and> session_member st s)"

definition pending_ok :: "Server \<Rightarrow> bool" where
  "pending_ok st \<longleftrightarrow> um_valid (lb_pending st) \<and> (\<forall>(k, p) \<in> set (lb_pending st). pr_socket p = k)"

definition listeners_ok :: "Server \<Rightarrow> bool" where
  "listeners_ok st \<longleftrightarrow> (\<forall>socket pr. lb_listeners st socket = Some (PeerListener pr) \<longrightarrow> pr < st_next st)"

definition sessions_of :: "Server \<Rightarrow> SessionRecord set" where
  "sessions_of st = snd ` set (lb_sessions st)"

definition transports_ok :: "peer_ref set \<Rightarrow> Server \<Rightarrow> bool" where
  "transports_ok X st \<longleftrightarrow>
     (\<forall>s \<in> sessions_of st. sr_peer s \<notin> X \<longrightarrow> transport_ok st s)"

definition lobby_inv :: "Env \<Rightarrow> Server \<Rightarrow> bool" where
  "lobby_inv env st \<longleftrightarrow> heap_inv env st \<and> rooms_ok st \<and> sessions_ok st \<and> pending_ok st \<and> listeners_ok st"

text \<open>The session of a peer whose transport is being handed over is not detached.\<close>

definition attached :: "Server \<Rightarrow> peer_ref \<Rightarrow> bool" where
  "attached st pr \<longleftrightarrow>
     (\<forall>s \<in> sessions_of st. sr_peer s = pr \<longrightarrow> \<not> SessionLease_disconnected (sr_lease s))"

definition in_room :: "Server \<Rightarrow> peer_ref \<Rightarrow> bool" where
  "in_room st pr \<longleftrightarrow>
     um_find (rm_peerById (st_rooms st (p_room (st_peers st pr)))) (p_peerId (st_peers st pr)) = Some pr"

definition bound :: "Server \<Rightarrow> socket_ref \<Rightarrow> peer_ref \<Rightarrow> bool" where
  "bound st socket pr \<longleftrightarrow> p_socket (st_peers st pr) = Some socket \<and> in_room st pr \<and> attached st pr"

lemmas lobby_inv_defs = lobby_inv_def rooms_ok_def sessions_ok_def pending_ok_def listeners_ok_def
  session_member_def getRoom_def Room_getName_def

lemma lobby_inv_new: "lobby_inv env Server_new"
proof -
  have "files_ok rr Heap_new" for rr
    by (simp add: files_ok_def Heap_new_def Room_new_def room_peers_def)
  then have "heap_inv env Heap_new"
    by (simp add: heap_inv_def room_inv_def members_ok_def Heap_new_def) (simp add: Room_new_def)
  then have "heap_inv env Server_new"
    by (simp add: heap_inv_def room_inv_def members_ok_def Server_new_def Heap.extend_def
        files_ok_def file_entry_ok_def member_files_ok_def room_peers_def)
  then show ?thesis
    by (simp add: lobby_inv_defs) (simp add: Server_new_def Heap.extend_def Heap_new_def Room_new_def)
qed

lemma session_peer:
  assumes "heap_inv env st" and "session_member st s"
  shows "sr_peer s \<in> set (room_peers (sr_room s) st)" "p_room (st_peers st (sr_peer s)) = sr_room s"
    "sr_peer s < st_next st" "in_room st (sr_peer s)"
proof -
  show in_room: "sr_peer s \<in> set (room_peers (sr_room s) st)"
    using um_find_SomeD [OF assms(2) [unfolded session_member_def]] by (force simp: room_peers_def)
  from member_room [OF heap_invD(2) [OF assms(1)] in_room]
  show p: "p_room (st_peers st (sr_peer s)) = sr_room s" "sr_peer s < st_next st" by simp_all
  show "in_room st (sr_peer s)" using assms(2) by (simp add: in_room_def session_member_def p)
qed

lemma in_room_peers: "in_room st pr \<Longrightarrow> pr \<in> set (room_peers (p_room (st_peers st pr)) st)"
  using um_find_SomeD by (force simp: in_room_def room_peers_def)

lemma in_room_less: "lobby_inv env st \<Longrightarrow> in_room st pr \<Longrightarrow> pr < st_next st"
  using member_room [OF heap_invD(2) in_room_peers, of env st pr] by (simp add: lobby_inv_def)

lemma sessionsD:
  assumes "lobby_inv env st" and "(k, s) \<in> set (lb_sessions st)"
  shows "k = digestKey (sr_digest s)" "session_member st s"
    "p_room (st_peers st (sr_peer s)) = sr_room s" "sr_peer s < st_next st"
    "sr_peer s \<in> set (room_peers (sr_room s) st)" "in_room st (sr_peer s)"
proof -
  from assms have "k = digestKey (sr_digest s) \<and> session_member st s"
    by (auto simp: lobby_inv_def sessions_ok_def)
  moreover note session_peer [of env st s]
  ultimately show "k = digestKey (sr_digest s)" "session_member st s"
    "p_room (st_peers st (sr_peer s)) = sr_room s" "sr_peer s < st_next st"
    "sr_peer s \<in> set (room_peers (sr_room s) st)" "in_room st (sr_peer s)"
    using assms(1) by (simp_all add: lobby_inv_def)
qed

lemma session_unique:
  assumes "lobby_inv env st" "(k, s) \<in> set (lb_sessions st)" "(k', s') \<in> set (lb_sessions st)"
    "sr_peer s = sr_peer s'"
  shows "k = k' \<and> s = s'"
proof -
  have "inj_on (sr_peer \<circ> snd) (set (lb_sessions st))"
    using assms(1) by (simp add: lobby_inv_def sessions_ok_def distinct_map)
  from inj_onD [OF this, of "(k, s)" "(k', s')"] assms(2-4) show ?thesis by simp
qed

section \<open>What a step leaves alone\<close>

text \<open>Seen from other calls, which hold the sockets \<open>S\<close> and the peers \<open>P\<close>.\<close>

definition undisturbed :: "socket_ref set \<Rightarrow> peer_ref set \<Rightarrow> Server \<Rightarrow> Server \<Rightarrow> bool" where
  "undisturbed S P st st' \<longleftrightarrow> st_next st \<le> st_next st'
   \<and> (\<forall>socket \<in> S. lb_listeners st' socket = lb_listeners st socket)
   \<and> (\<forall>pr \<in> P. p_socket (st_peers st' pr) = p_socket (st_peers st pr)
       \<and> p_room (st_peers st' pr) = p_room (st_peers st pr)
       \<and> p_peerId (st_peers st' pr) = p_peerId (st_peers st pr)
       \<and> (\<forall>rr i. um_find (rm_peerById (st_rooms st rr)) i = Some pr \<longrightarrow>
             um_find (rm_peerById (st_rooms st' rr)) i = Some pr)
       \<and> (\<forall>s \<in> sessions_of st'. sr_peer s = pr \<longrightarrow> s \<in> sessions_of st))"

interpretation undisturbed: frame_relation "undisturbed S P" for S P
  by unfold_locales (auto simp: undisturbed_def)

lemma undisturbed_mono: "undisturbed S P st st' \<Longrightarrow> S' \<subseteq> S \<Longrightarrow> P' \<subseteq> P \<Longrightarrow> undisturbed S' P' st st'"
  unfolding undisturbed_def by (elim conjE) (intro conjI; blast)

lemma undisturbed_attached: "undisturbed S P st st' \<Longrightarrow> pr \<in> P \<Longrightarrow> attached st pr \<Longrightarrow> attached st' pr"
  by (auto simp: undisturbed_def attached_def)

lemma undisturbed_in_room: "undisturbed S P st st' \<Longrightarrow> pr \<in> P \<Longrightarrow> in_room st pr \<Longrightarrow> in_room st' pr"
  by (simp add: undisturbed_def in_room_def)

lemma undisturbed_bound: "undisturbed S P st st' \<Longrightarrow> pr \<in> P \<Longrightarrow> bound st socket pr \<Longrightarrow> bound st' socket pr"
  using undisturbed_attached undisturbed_in_room by (simp add: bound_def) (simp add: undisturbed_def)

lemma undisturbed_same:
  "st_peers st' = st_peers st \<Longrightarrow> st_rooms st' = st_rooms st \<Longrightarrow> lb_sessions st' = lb_sessions st \<Longrightarrow>
   lb_listeners st' = lb_listeners st \<Longrightarrow> st_next st' = st_next st \<Longrightarrow> undisturbed S P st st'"
  by (simp add: undisturbed_def sessions_of_def)

section \<open>Operations of the lower components\<close>

lemma lobby_fields:
  fixes st st' :: Server
  assumes "Heap.more st' = Heap.more st"
  shows "lb_rooms st' = lb_rooms st" "lb_sessions st' = lb_sessions st"
    "lb_pending st' = lb_pending st" "lb_peerIdCounter st' = lb_peerIdCounter st"
    "lb_listeners st' = lb_listeners st"
  by (use assms in \<open>cases st; cases st'; simp\<close>)+

lemma sound_lobby:
  fixes st st' :: Server
  assumes "sound env st st'" and "lobby_inv env st"
  shows "lobby_inv env st'" and "keeps st st'"
    and "transports_ok X st \<Longrightarrow> transports_ok X st'"
    and "undisturbed S P st st'"
proof -
  from assms have k: "keeps st st'" and h: "heap_inv env st'"
    by (simp_all add: sound_def lobby_inv_def)
  show "keeps st st'" by (rule k)
  have same: "Heap.more st' = Heap.more st" using k by (simp add: keeps_def)
  note f = lobby_fields [OF same]
  have n: "\<And>rr. rm_name (st_rooms st' rr) = rm_name (st_rooms st rr)"
    "\<And>rr. rm_peerById (st_rooms st' rr) = rm_peerById (st_rooms st rr)"
    "\<And>pr. p_peerId (st_peers st' pr) = p_peerId (st_peers st pr)"
    "\<And>pr. p_socket (st_peers st' pr) = p_socket (st_peers st pr)"
    "\<And>pr. p_room (st_peers st' pr) = p_room (st_peers st pr)"
    "st_next st \<le> st_next st'"
    using k by (simp_all add: keeps_def)
  have "rooms_ok st'"
    using assms(2) n(6) by (fastforce simp: lobby_inv_def rooms_ok_def Room_getName_def f n(1-5))
  moreover have "sessions_ok st'" "pending_ok st'"
    using assms(2) by (simp_all add: lobby_inv_def sessions_ok_def session_member_def pending_ok_def f n(1-5))
  moreover have "listeners_ok st'"
    using assms(2) n(6) by (fastforce simp: lobby_inv_def listeners_ok_def f)
  ultimately show "lobby_inv env st'" using h by (simp add: lobby_inv_def)
  show "transports_ok X st'" if "transports_ok X st"
    using that by (simp add: transports_ok_def sessions_of_def transport_ok_def f n(1-4) cong: option.case_cong)
  show "undisturbed S P st st'" by (simp add: undisturbed_def sessions_of_def f n)
qed

lemma lobby_upd [simp]:
  fixes st :: Server
  shows "lb_rooms (upd_room r rm st) = lb_rooms st" "lb_sessions (upd_room r rm st) = lb_sessions st"
    "lb_pending (upd_room r rm st) = lb_pending st" "lb_listeners (upd_room r rm st) = lb_listeners st"
    "lb_peerIdCounter (upd_room r rm st) = lb_peerIdCounter st"
    "lb_rooms (upd_peer q p st) = lb_rooms st" "lb_sessions (upd_peer q p st) = lb_sessions st"
    "lb_pending (upd_peer q p st) = lb_pending st" "lb_listeners (upd_peer q p st) = lb_listeners st"
    "lb_peerIdCounter (upd_peer q p st) = lb_peerIdCounter st"
    "lb_rooms (emit es st) = lb_rooms st" "lb_sessions (emit es st) = lb_sessions st"
    "lb_pending (emit es st) = lb_pending st" "lb_listeners (emit es st) = lb_listeners st"
    "lb_peerIdCounter (emit es st) = lb_peerIdCounter st"
  by (simp_all add: store_defs)

lemma emit_Nil [simp]: "emit [] st = st"
  by (simp add: emit_def)

text \<open>The heap invariant does not read the lobby's fields nor the listeners.\<close>

lemma heap_inv_cong:
  assumes "st_rooms st' = st_rooms st" "st_peers st' = st_peers st" "st_files st' = st_files st"
    "st_next st \<le> st_next st'"
  shows "heap_inv env st \<Longrightarrow> heap_inv env st'"
proof -
  assume inv: "heap_inv env st"
  have "files_ok rr st'" for rr
    using heap_invD(1) [OF inv, of rr] assms(4)
    by (auto simp: files_ok_def file_entry_ok_def member_files_ok_def room_peers_def assms(1-3))
  moreover have "members_ok rr st'" for rr
    using heap_invD(2) [OF inv, of rr] assms(4) by (auto simp: members_ok_def assms(1-3))
  ultimately show ?thesis using inv by (simp add: heap_inv_def room_inv_def assms(1-3))
qed

text \<open>An update of the registries alone.\<close>

lemma registry_inv:
  assumes "lobby_inv env st" and "st_rooms st' = st_rooms st" "st_peers st' = st_peers st"
    "st_files st' = st_files st" "st_next st' = st_next st" "lb_peerIdCounter st' = lb_peerIdCounter st"
    and "lb_rooms st' = lb_rooms st \<or> rooms_ok st'" "lb_sessions st' = lb_sessions st \<or> sessions_ok st'"
      "lb_pending st' = lb_pending st \<or> pending_ok st'" "lb_listeners st' = lb_listeners st \<or> listeners_ok st'"
  shows "lobby_inv env st'"
proof -
  have "heap_inv env st'" by (rule heap_inv_cong [of _ st]) (use assms in \<open>simp_all add: lobby_inv_def\<close>)
  moreover have "rooms_ok st'" using assms by (auto simp: lobby_inv_def rooms_ok_def Room_getName_def)
  moreover have "sessions_ok st'" using assms by (auto simp: lobby_inv_def sessions_ok_def session_member_def)
  moreover have "pending_ok st'" "listeners_ok st'"
    using assms by (auto simp: lobby_inv_def pending_ok_def listeners_ok_def)
  ultimately show ?thesis by (simp add: lobby_inv_def)
qed

section \<open>Pending transports and listeners\<close>

lemma pending_inv:
  assumes "lobby_inv env st" and "um_valid ps" "\<And>k p. (k, p) \<in> set ps \<Longrightarrow> pr_socket p = k"
  shows "lobby_inv env (st\<lparr>lb_pending := ps\<rparr>)"
  by (rule registry_inv [OF assms(1)]) (use assms in \<open>auto simp: pending_ok_def\<close>)

lemma transports_frame:
  assumes "st_peers st' = st_peers st" "lb_sessions st' = lb_sessions st" "lb_listeners st' = lb_listeners st"
  shows "transports_ok X st' = transports_ok X st"
  by (simp add: transports_ok_def sessions_of_def transport_ok_def assms cong: option.case_cong)

lemma transports_pending [simp]: "transports_ok X (st\<lparr>lb_pending := ps\<rparr>) = transports_ok X st"
  by (rule transports_frame) simp_all

lemma transports_mono: "transports_ok X st \<Longrightarrow> X \<subseteq> Y \<Longrightarrow> transports_ok Y st"
  by (auto simp: transports_ok_def)

lemma erase_pending_inv: "lobby_inv env st \<Longrightarrow> lobby_inv env (st\<lparr>lb_pending := um_erase socket (lb_pending st)\<rparr>)"
  by (rule pending_inv) (auto simp: lobby_inv_def pending_ok_def um.valid_erase um_erase_set)

lemma takePending_cases:
  assumes "hello_takePending now socket st = (st', b)"
  obtains (refused) "st' = st" "\<not> b"
  | (taken) pending where "um_find (lb_pending st) socket = Some pending" "now < pr_deadline pending"
      "st' = st\<lparr>lb_pending := um_erase socket (lb_pending st)\<rparr>" "b"
proof (cases "um_find (lb_pending st) socket")
  case None
  show ?thesis by (rule refused) (use None assms in \<open>auto simp: hello_takePending_def\<close>)
next
  case (Some p)
  show ?thesis
  proof (cases "now < pr_deadline p")
    case True
    show ?thesis by (rule taken [OF Some True]) (use Some True assms in \<open>auto simp: hello_takePending_def\<close>)
  next
    case False
    show ?thesis by (rule refused) (use Some False assms in \<open>auto simp: hello_takePending_def\<close>)
  qed
qed

lemma takePending_inv:
  assumes "lobby_inv env st" and "hello_takePending now socket st = (st', b)"
  shows "lobby_inv env st'" and "transports_ok X st \<Longrightarrow> transports_ok X st'" and "undisturbed S P st st'"
    and "lb_listeners st' = lb_listeners st" "st_rooms st' = st_rooms st"
    "lb_peerIdCounter st' = lb_peerIdCounter st" "lb_rooms st' = lb_rooms st" "lb_sessions st' = lb_sessions st"
    "st_peers st' = st_peers st"
  using assms erase_pending_inv [OF assms(1)] by (auto elim!: takePending_cases intro: undisturbed_same)

lemma listeners_inv:
  assumes "lobby_inv env st" and "\<And>socket pr. ls socket = Some (PeerListener pr) \<Longrightarrow> pr < st_next st"
  shows "lobby_inv env (st\<lparr>lb_listeners := ls\<rparr>)"
  by (rule registry_inv [OF assms(1)]) (use assms(2) in \<open>simp_all add: listeners_ok_def\<close>)

definition peer_listens :: "Server \<Rightarrow> socket_ref \<Rightarrow> bool" where
  "peer_listens st socket \<longleftrightarrow> (\<exists>pr. lb_listeners st socket = Some (PeerListener pr))"

lemma set_pending_hello_inv:
  assumes "\<not> peer_listens st socket"
  shows "lobby_inv env st \<Longrightarrow> lobby_inv env (set_pending_hello socket h st)"
    and "transports_ok X st \<Longrightarrow> transports_ok X (set_pending_hello socket h st)"
    and "\<not> peer_listens (set_pending_hello socket h st) socket"
    and "socket \<notin> S \<Longrightarrow> undisturbed S P st (set_pending_hello socket h st)"
proof -
  show "lobby_inv env (set_pending_hello socket h st)" if "lobby_inv env st"
    unfolding set_pending_hello_def
    by (rule listeners_inv [OF that]) (use that in \<open>auto simp: lobby_inv_def listeners_ok_def split: if_splits\<close>)
  show "transports_ok X st \<Longrightarrow> transports_ok X (set_pending_hello socket h st)"
    using assms by (auto simp: set_pending_hello_def peer_listens_def transports_ok_def sessions_of_def
        transport_ok_def split: option.splits)
  show "\<not> peer_listens (set_pending_hello socket h st) socket"
    by (simp add: set_pending_hello_def peer_listens_def)
  show "socket \<notin> S \<Longrightarrow> undisturbed S P st (set_pending_hello socket h st)"
    by (auto simp: set_pending_hello_def undisturbed_def sessions_of_def)
qed

text \<open>The transport of a hello is handed to the peer it was bound to.\<close>

lemma listen_inv:
  assumes "lobby_inv env st" "transports_ok X st" "\<not> peer_listens st socket" "bound st socket pr" "pr \<in> X"
  shows "lobby_inv env (hello_listen socket pr st)" "transports_ok X (hello_listen socket pr st)"
    "transports_ok (X - {pr}) (hello_listen socket pr st)"
    "bound (hello_listen socket pr st) socket pr"
    and "socket \<notin> S \<Longrightarrow> undisturbed S P st (hello_listen socket pr st)"
proof -
  have pr: "pr < st_next st" using in_room_less assms(1,4) by (simp add: bound_def)
  show "lobby_inv env (hello_listen socket pr st)"
    unfolding hello_listen_def
    by (rule listeners_inv [OF assms(1)]) (use pr assms(1) in \<open>auto simp: lobby_inv_def listeners_ok_def split: if_splits\<close>)
  have "transport_ok (hello_listen socket pr st) s" if s: "s \<in> sessions_of st" "sr_peer s \<notin> X - {pr}" for s
  proof (cases "sr_peer s = pr")
    case True
    with assms(4) s(1) show ?thesis by (simp add: transport_ok_def hello_listen_def bound_def attached_def)
  next
    case False
    with assms(2) s have "transport_ok st s" by (auto simp: transports_ok_def)
    with assms(3) show ?thesis
      by (auto simp: transport_ok_def hello_listen_def peer_listens_def split: option.splits)
  qed
  then show "transports_ok (X - {pr}) (hello_listen socket pr st)"
    by (simp add: transports_ok_def) (simp add: sessions_of_def hello_listen_def)
  then show "transports_ok X (hello_listen socket pr st)" by (rule transports_mono) auto
  show "bound (hello_listen socket pr st) socket pr"
    using assms(4) by (simp add: bound_def in_room_def attached_def sessions_of_def hello_listen_def)
  show "socket \<notin> S \<Longrightarrow> undisturbed S P st (hello_listen socket pr st)"
    by (auto simp: hello_listen_def undisturbed_def sessions_of_def)
qed

section \<open>The registry of rooms\<close>

lemma heap_inv_new_room:
  assumes "heap_inv env st"
  shows "heap_inv env ((upd_room (st_next st) (Room_new name) st)\<lparr>st_next := Suc (st_next st)\<rparr>)"
    (is "heap_inv env ?st'")
proof -
  note h = heap_invD [OF assms]
  have "files_ok rr ?st'" for rr
  proof (cases "rr = st_next st")
    case True
    then show ?thesis by (simp add: files_ok_def room_peers_def Room_new_def)
  next
    case False
    with h(1) [of rr] show ?thesis
      by (auto simp: files_ok_def file_entry_ok_def member_files_ok_def room_peers_def)
  qed
  moreover have "members_ok rr ?st'" for rr
    using h(2) [of rr] by (cases "rr = st_next st") (auto simp: members_ok_def Room_new_def)
  moreover have "history_ok (history_limit env) (st_rooms ?st' rr)" for rr
    using h(3) [of rr] by simp
  ultimately show ?thesis using h(4) by (simp add: heap_inv_def room_inv_def)
qed

text \<open>The rooms below the next reference and the peers stay as they are.\<close>

lemma getOrCreateRoom_cases:
  assumes "getOrCreateRoom name st = (st', r)"
  obtains (found) rr where "getRoom name st = Some rr" "st' = st" "r = Some rr"
  | (full) "getRoom name st = None" "length (lb_rooms st) \<ge> Limits_rooms" "st' = st" "r = None"
  | (created) st0 where "getRoom name st = None" "length (lb_rooms st) < Limits_rooms"
      "st0 = upd_room (st_next st) (Room_new name) st" "r = Some (st_next st)"
      "st' = (emit [Count EVENT_ROOM_CREATED] st0)
         \<lparr>st_next := Suc (st_next st), lb_rooms := lb_rooms st @ [(name, st_next st)]\<rparr>"
proof (cases "um_find (lb_rooms st) name")
  case (Some rr)
  show ?thesis by (rule found [of rr]) (use Some assms in \<open>simp_all add: getOrCreateRoom_def getRoom_def\<close>)
next
  case None
  show ?thesis
  proof (cases "hasCapacity (length (lb_rooms st)) Limits_rooms")
    case False
    with None assms show ?thesis
      by (intro full) (auto simp: getOrCreateRoom_def getRoom_def hasCapacity_def)
  next
    case True
    show ?thesis
      by (rule created) (use None True assms in
          \<open>auto simp: getOrCreateRoom_def getRoom_def hasCapacity_def Let_def um_emplace_fresh\<close>)
  qed
qed

lemma room_below: "lobby_inv env st \<Longrightarrow> getRoom name st = Some rr \<Longrightarrow> Room_getName rr st = name \<and> rr < st_next st"
  by (force simp: getRoom_def lobby_inv_def rooms_ok_def dest: um_find_SomeD)

lemma member_below: "lobby_inv env st \<Longrightarrow> um_find (rm_peerById (st_rooms st rr)) i = Some pr \<Longrightarrow> rr < st_next st"
  by (rule ccontr) (auto simp: lobby_inv_def rooms_ok_def)

lemma session_room_below: "lobby_inv env st \<Longrightarrow> (k, s) \<in> set (lb_sessions st) \<Longrightarrow> sr_room s < st_next st"
  using sessionsD(2) member_below by (fastforce simp: session_member_def)

lemma new_room_inv:
  assumes inv: "lobby_inv env st" and free: "getRoom name st = None" "length (lb_rooms st) < Limits_rooms"
    and st': "st' = (emit [Count EVENT_ROOM_CREATED] (upd_room (st_next st) (Room_new name) st))
         \<lparr>st_next := Suc (st_next st), lb_rooms := lb_rooms st @ [(name, st_next st)]\<rparr>"
  shows "lobby_inv env st'" and "undisturbed S P st st'"
proof -
  have other: "st_rooms st' rr = st_rooms st rr" if "rr < st_next st" for rr using that by (simp add: st')
  have empty: "um_find (rm_peerById (st_rooms st (st_next st))) i = None" for i
    using inv by (simp add: lobby_inv_def rooms_ok_def)
  have "heap_inv env st'"
    by (rule heap_inv_cong [OF _ _ _ _ heap_inv_new_room [of env st name]])
       (use inv in \<open>simp_all add: st' lobby_inv_def\<close>)
  moreover have "length (lb_rooms st') \<le> Limits_rooms" using free(2) by (simp add: st')
  then have "rooms_ok st'"
    using inv free(1) by (auto simp: lobby_inv_defs st' um_valid_def um_find_None less_SucI Room_new_def)
  moreover have "session_member st' s" if "session_member st s" for s
    using member_below [OF inv] that other [of "sr_room s"] by (simp only: session_member_def) (simp add: st')
  then have "sessions_ok st'" using inv by (auto simp: lobby_inv_def sessions_ok_def st')
  moreover have "pending_ok st'" "listeners_ok st'"
    using inv by (auto simp: lobby_inv_def pending_ok_def listeners_ok_def st' less_SucI)
  ultimately show "lobby_inv env st'" by (simp add: lobby_inv_def)
  show "undisturbed S P st st'"
    using empty other by (auto simp: undisturbed_def sessions_of_def st')
qed

lemma getOrCreateRoom_inv:
  assumes inv: "lobby_inv env st" and "getOrCreateRoom name st = (st', r)"
  shows "lobby_inv env st'" and "transports_ok X st \<Longrightarrow> transports_ok X st'" and "undisturbed S P st st'"
    and "r = Some rr \<Longrightarrow> getRoom name st' = Some rr \<and> Room_getName rr st' = name \<and> rr < st_next st'"
    and "st_peers st' = st_peers st" "lb_sessions st' = lb_sessions st" "lb_listeners st' = lb_listeners st"
    and "r' < st_next st \<Longrightarrow> st_rooms st' r' = st_rooms st r'"
proof -
  have all: "lobby_inv env st' \<and> (transports_ok X st \<longrightarrow> transports_ok X st') \<and> undisturbed S P st st'
    \<and> (r = Some rr \<longrightarrow> getRoom name st' = Some rr \<and> Room_getName rr st' = name \<and> rr < st_next st')
    \<and> st_peers st' = st_peers st \<and> lb_sessions st' = lb_sessions st \<and> lb_listeners st' = lb_listeners st
    \<and> (r' < st_next st \<longrightarrow> st_rooms st' r' = st_rooms st r')"
    using assms(2)
  proof (cases rule: getOrCreateRoom_cases)
    case (found rr')
    with inv room_below [OF inv found(1)] show ?thesis by (auto simp: undisturbed.frame_refl)
  next
    case full
    with inv show ?thesis by (simp add: undisturbed.frame_refl)
  next
    case (created st0)
    note n = new_room_inv [OF inv created(1,2) created(5) [unfolded created(3)]]
    have same: "st_peers st' = st_peers st" "lb_sessions st' = lb_sessions st" "lb_listeners st' = lb_listeners st"
      by (simp_all add: created)
    have "getRoom name st' = Some (st_next st) \<and> Room_getName (st_next st) st' = name \<and> st_next st < st_next st'"
      using created(1) by (simp add: created getRoom_def Room_getName_def um_find_def map_add_Some_iff Room_new_def)
    moreover have "r' < st_next st \<longrightarrow> st_rooms st' r' = st_rooms st r'" by (simp add: created)
    ultimately show ?thesis
      using n transports_frame [OF same] same created(4) by auto
  qed
  show "lobby_inv env st'" "transports_ok X st \<Longrightarrow> transports_ok X st'" "undisturbed S P st st'"
    "r = Some rr \<Longrightarrow> getRoom name st' = Some rr \<and> Room_getName rr st' = name \<and> rr < st_next st'"
    "st_peers st' = st_peers st" "lb_sessions st' = lb_sessions st" "lb_listeners st' = lb_listeners st"
    "r' < st_next st \<Longrightarrow> st_rooms st' r' = st_rooms st r'"
    using all by simp_all
qed

lemma deleteRoom_cases:
  obtains (kept) "deleteRoomIfEmpty rr st = st"
  | (deleted) "getRoom (Room_getName rr st) st = Some rr" "Room_isEmpty rr st"
      "deleteRoomIfEmpty rr st = st\<lparr>lb_rooms := um_erase (Room_getName rr st) (lb_rooms st)\<rparr>"
  by (cases "um_find (lb_rooms st) (Room_getName rr st) = Some rr \<and> Room_isEmpty rr st")
     (auto simp: deleteRoomIfEmpty_def getRoom_def Let_def)

lemma deleteRoom_sel [simp]:
  "st_rooms (deleteRoomIfEmpty rr st) = st_rooms st" "st_peers (deleteRoomIfEmpty rr st) = st_peers st"
  "st_next (deleteRoomIfEmpty rr st) = st_next st" "lb_listeners (deleteRoomIfEmpty rr st) = lb_listeners st"
  "lb_sessions (deleteRoomIfEmpty rr st) = lb_sessions st" "lb_pending (deleteRoomIfEmpty rr st) = lb_pending st"
  by (simp_all add: deleteRoomIfEmpty_def Let_def)

lemma erase_room_inv:
  assumes inv: "lobby_inv env st"
  shows "lobby_inv env (st\<lparr>lb_rooms := um_erase name (lb_rooms st)\<rparr>)"
proof -
  have rooms: "rooms_ok st" using inv by (simp add: lobby_inv_def)
  then have valid: "um_valid (lb_rooms st)" by (simp add: rooms_ok_def)
  have "length (um_erase name (lb_rooms st)) \<le> Limits_rooms"
    using um.count_erase_le [OF valid, of name] rooms by (simp add: rooms_ok_def)
  with rooms um.valid_erase [OF valid] have "rooms_ok (st\<lparr>lb_rooms := um_erase name (lb_rooms st)\<rparr>)"
    by (simp add: rooms_ok_def Room_getName_def um_erase_set)
  then show ?thesis by (intro registry_inv [OF inv]) simp_all
qed

lemma deleteRoom_inv:
  assumes inv: "lobby_inv env st"
  shows "lobby_inv env (deleteRoomIfEmpty rr st)"
    and "transports_ok X st \<Longrightarrow> transports_ok X (deleteRoomIfEmpty rr st)"
    and "undisturbed S P st (deleteRoomIfEmpty rr st)"
proof -
  show "lobby_inv env (deleteRoomIfEmpty rr st)"
    by (cases rule: deleteRoom_cases [of rr st]) (simp_all add: inv erase_room_inv)
  show "transports_ok X st \<Longrightarrow> transports_ok X (deleteRoomIfEmpty rr st)"
    using transports_frame [of "deleteRoomIfEmpty rr st" st X] by simp
  show "undisturbed S P st (deleteRoomIfEmpty rr st)" by (rule undisturbed_same) simp_all
qed

section \<open>Resuming\<close>

lemma heap_inv_upd_peer:
  assumes inv: "heap_inv env st" and id: "identity p = identity (st_peers st pr)" and p: "peer_inv env p"
  shows "heap_inv env (upd_peer pr p st)"
proof -
  note h = heap_invD [OF inv]
  have v: "p_peerId (st_peers (upd_peer pr p st) q) = p_peerId (st_peers st q)"
    "p_room (st_peers (upd_peer pr p st) q) = p_room (st_peers st q)"
    "p_files (st_peers (upd_peer pr p st) q) = p_files (st_peers st q)" for q
    using id by (simp_all add: identity_iff)
  have "files_ok rr (upd_peer pr p st)" for rr
    using h(1) [of rr]
    by (simp add: files_ok_def file_entry_ok_def member_files_ok_def room_peers_def v del: upd_sel(1))
  moreover have "members_ok rr (upd_peer pr p st)" for rr
    using h(2) [of rr] by (simp add: members_ok_def v del: upd_sel(1))
  ultimately show ?thesis using h(3,4) p by (simp add: heap_inv_def room_inv_def)
qed

text \<open>A step of one peer that changes its transport at most: a handoff or a detachment.\<close>

lemma peer_step_inv:
  assumes inv: "lobby_inv env st" and step: "Peer_step (env_jsonBytes env) e (st_peers st pr) = (p, es)"
  shows "lobby_inv env (upd_peer pr p st)" and "transports_ok X st \<Longrightarrow> pr \<in> X \<Longrightarrow> transports_ok X (upd_peer pr p st)"
    and "pr \<notin> P \<Longrightarrow> undisturbed S P st (upd_peer pr p st)"
    and "in_room (upd_peer pr p st) q = in_room st q" "attached (upd_peer pr p st) q = attached st q"
proof -
  have id: "identity p = identity (st_peers st pr)" by (rule identity_step [OF step])
  then have pid: "p_peerId (st_peers (upd_peer pr p st) q) = p_peerId (st_peers st q)"
    "p_room (st_peers (upd_peer pr p st) q) = p_room (st_peers st q)" for q
    by (simp_all add: identity_iff)
  have heap: "heap_inv env st" using inv by (simp add: lobby_inv_def)
  have "peer_inv env p"
    using peer_inv_step [OF heap_invD(4) [OF heap] step] id by (simp add: identity_iff)
  from heap_inv_upd_peer [OF heap id this] have "heap_inv env (upd_peer pr p st)" .
  moreover have "rooms_ok (upd_peer pr p st)" "pending_ok (upd_peer pr p st)" "listeners_ok (upd_peer pr p st)"
    using inv by (simp_all add: lobby_inv_def rooms_ok_def pending_ok_def listeners_ok_def Room_getName_def)
  moreover have "sessions_ok (upd_peer pr p st)"
    using inv pid by (simp add: lobby_inv_def sessions_ok_def session_member_def del: upd_sel(1))
  ultimately show "lobby_inv env (upd_peer pr p st)" by (simp add: lobby_inv_def)
  show "transports_ok X (upd_peer pr p st)" if "transports_ok X st" "pr \<in> X"
  proof -
    have "transport_ok (upd_peer pr p st) s = transport_ok st s" if "sr_peer s \<noteq> pr" for s
      using that by (simp add: transport_ok_def cong: option.case_cong)
    moreover have "sessions_of (upd_peer pr p st) = sessions_of st" by (simp add: sessions_of_def)
    ultimately show ?thesis using that by (metis transports_ok_def)
  qed
  show "pr \<notin> P \<Longrightarrow> undisturbed S P st (upd_peer pr p st)" by (auto simp: undisturbed_def sessions_of_def)
  show "in_room (upd_peer pr p st) q = in_room st q" by (simp only: in_room_def pid) simp
  show "attached (upd_peer pr p st) q = attached st q" by (simp add: attached_def sessions_of_def)
qed

lemma assign_lease_sessions:
  assumes "um_valid ss" "um_find ss k = Some s"
  shows "map fst (um_assign k (s\<lparr>sr_lease := l\<rparr>) ss) = map fst ss"
    "map (sr_peer \<circ> snd) (um_assign k (s\<lparr>sr_lease := l\<rparr>) ss) = map (sr_peer \<circ> snd) ss"
  using assms
  by (induction ss) (auto simp: um_assign_def um_find_def um_valid_def split: if_splits)

lemma lookup_cases:
  assumes "hello_lookup env now roomName token st = (st', r)"
  obtains (refused) "st' = st" "r = None"
  | (found) digest session deadline where
      "validBase64UrlId token 32" "digest = digestToken (env_sha256 env) token"
      "um_find (lb_sessions st) (digestKey digest) = Some session" "sr_digest session = digest"
      "Room_getName (sr_room session) st = roomName"
      "sr_lease session = Some deadline" "now < deadline" "r = Some (sr_peer session)"
      "st' = st\<lparr>lb_sessions := um_assign (digestKey digest) (session\<lparr>sr_lease := None\<rparr>) (lb_sessions st)\<rparr>"
proof -
  let ?digest = "digestToken (env_sha256 env) token"
  consider "\<not> validBase64UrlId token 32" | "validBase64UrlId token 32" "um_find (lb_sessions st) (digestKey ?digest) = None"
    | session where "validBase64UrlId token 32" "um_find (lb_sessions st) (digestKey ?digest) = Some session"
    by blast
  then show ?thesis
  proof cases
    case (3 session)
    show ?thesis
    proof (cases "sr_digest session = ?digest \<and> Room_getName (sr_room session) st = roomName
        \<and> SessionLease_canResume now (sr_lease session)")
      case False
      show ?thesis
        by (rule refused) (use 3 False assms in \<open>auto simp: hello_lookup_def
            constantTimeDigestEqual_def SessionLease_resume_def Let_def split: if_splits\<close>)
    next
      case True
      then obtain deadline where d: "sr_lease session = Some deadline" "now < deadline"
        by (auto simp: SessionLease_canResume_def split: option.splits)
      show ?thesis
        by (rule found [OF 3(1) refl 3(2) _ _ d])
           (use 3 True assms in \<open>auto simp: hello_lookup_def constantTimeDigestEqual_def
               SessionLease_resume_def Let_def split: if_splits\<close>)
    qed
  qed (use assms in \<open>simp_all add: hello_lookup_def refused\<close>)
qed

text \<open>A session that is resumed was detached: no other call holds its peer.\<close>

lemma lookup_inv:
  assumes inv: "lobby_inv env st" and tr: "transports_ok X st" and busy: "\<forall>pr \<in> X. attached st pr"
    and lookup: "hello_lookup env now roomName token st = (st', Some pr)"
  shows "lobby_inv env st'" and "transports_ok (insert pr X) st'" and "pr \<notin> X"
    and "p_socket (st_peers st' pr) = None" "in_room st' pr" "attached st' pr"
    and "pr \<notin> P \<Longrightarrow> undisturbed S P st st'"
    and "st_rooms st' = st_rooms st" "st_peers st' = st_peers st" "lb_listeners st' = lb_listeners st"
      "lb_pending st' = lb_pending st" "lb_rooms st' = lb_rooms st" "lb_peerIdCounter st' = lb_peerIdCounter st"
proof -
  from lookup obtain digest s deadline where f:
      "um_find (lb_sessions st) (digestKey digest) = Some s" "sr_digest s = digest" "sr_lease s = Some deadline"
      "pr = sr_peer s"
      "st' = st\<lparr>lb_sessions := um_assign (digestKey digest) (s\<lparr>sr_lease := None\<rparr>) (lb_sessions st)\<rparr>"
    by (cases rule: lookup_cases) auto
  let ?k = "digestKey digest" and ?s = "s\<lparr>sr_lease := None\<rparr>"
  have valid: "um_valid (lb_sessions st)" using inv by (simp add: lobby_inv_def sessions_ok_def)
  have mem: "(?k, s) \<in> set (lb_sessions st)" using um_find_SomeD [OF f(1)] .
  note sD = sessionsD [OF inv mem]
  have old: "sr_peer t = pr \<longleftrightarrow> t = s" if "(k, t) \<in> set (lb_sessions st)" for k t
    using session_unique [OF inv that mem] f(4) by auto
  have new: "set (lb_sessions st') = insert (?k, ?s) {e \<in> set (lb_sessions st). fst e \<noteq> ?k}"
    by (simp add: f(5) um_assign_set [OF valid])
  have view: "e = (?k, ?s) \<or> e \<in> set (lb_sessions st) \<and> sr_peer (snd e) \<noteq> pr" if "e \<in> set (lb_sessions st')" for e
    using that new session_unique [OF inv _ mem, of "fst e" "snd e"] f(4) by auto
  have member: "session_member st' t = session_member st t" for t by (simp add: session_member_def f(5))
  have "fst e = digestKey (sr_digest (snd e)) \<and> session_member st (snd e)" if "e \<in> set (lb_sessions st')" for e
    using view [OF that]
  proof
    assume "e = (?k, ?s)"
    with sD(2) f(2) show ?thesis by (simp add: session_member_def)
  next
    assume "e \<in> set (lb_sessions st) \<and> sr_peer (snd e) \<noteq> pr"
    then have "(fst e, snd e) \<in> set (lb_sessions st)" by simp
    from sessionsD(1,2) [OF inv this] show ?thesis by (rule conjI)
  qed
  moreover have "um_valid (lb_sessions st')" "distinct (map (sr_peer \<circ> snd) (lb_sessions st'))"
    using assign_lease_sessions [OF valid f(1), of None] inv
    by (simp_all add: lobby_inv_def sessions_ok_def um_valid_def f(5))
  ultimately have "sessions_ok st'" by (auto simp: sessions_ok_def member)
  then show "lobby_inv env st'" by (intro registry_inv [OF inv]) (simp_all add: f(5))
  show other: "pr \<notin> X" using busy mem f(3,4) by (force simp: attached_def sessions_of_def SessionLease_disconnected_def)
  have tr': "transport_ok st s" using tr mem other f(4) by (force simp: transports_ok_def sessions_of_def)
  then show "p_socket (st_peers st' pr) = None"
    using f(3,4) by (auto simp: transport_ok_def f(5) SessionLease_disconnected_def split: option.splits)
  show "in_room st' pr" using sD(6) by (simp add: in_room_def f(4,5))
  have own: "t = ?s" if "t \<in> sessions_of st'" "sr_peer t = pr" for t
    using view that by (fastforce simp: sessions_of_def)
  show "attached st' pr"
    unfolding attached_def
  proof (intro ballI impI)
    fix t assume "t \<in> sessions_of st'" "sr_peer t = pr"
    then have "t = ?s" by (rule own)
    then show "\<not> SessionLease_disconnected (sr_lease t)" by (simp add: SessionLease_disconnected_def)
  qed
  have rest: "t \<in> sessions_of st" if "t \<in> sessions_of st'" "sr_peer t \<noteq> pr" for t
    using view that f(4) by (force simp: sessions_of_def)
  have "transport_ok st' t = transport_ok st t" for t
    by (simp add: transport_ok_def f(5) cong: option.case_cong)
  with rest tr show "transports_ok (insert pr X) st'" by (auto simp: transports_ok_def)
  show "pr \<notin> P \<Longrightarrow> undisturbed S P st st'"
    using rest by (auto simp: undisturbed_def) (auto simp: f(5))
  show "st_rooms st' = st_rooms st" "st_peers st' = st_peers st" "lb_listeners st' = lb_listeners st"
    "lb_pending st' = lb_pending st" "lb_rooms st' = lb_rooms st" "lb_peerIdCounter st' = lb_peerIdCounter st"
    by (simp_all add: f(5))
qed

lemma bind_sel [simp]:
  "lb_listeners (hello_bind now2 socket pr st) = lb_listeners st"
  "lb_pending (hello_bind now2 socket pr st) = lb_pending st"
  "lb_sessions (hello_bind now2 socket pr st) = lb_sessions st"
  "lb_rooms (hello_bind now2 socket pr st) = lb_rooms st"
  "lb_peerIdCounter (hello_bind now2 socket pr st) = lb_peerIdCounter st"
  "st_rooms (hello_bind now2 socket pr st) = st_rooms st"
  by (simp_all add: hello_bind_def Let_def split: prod.split option.split)

lemma bind_cases:
  obtains p es where "p = fst (Peer_replaceSocket (Some socket) now2 (st_peers st pr))" "p_socket p = Some socket"
    "Peer_step jb (PeerReplace socket now2) (st_peers st pr) = (p, [])"
    "hello_bind now2 socket pr st = emit es (upd_peer pr p st)"
    "es = (case p_socket (st_peers st pr) of
       None \<Rightarrow> [] | Some old \<Rightarrow> if old = socket then [] else [Invalidate old])"
  by (rule that [OF refl])
     (auto simp: hello_bind_def Peer_replaceSocket_def TransportGeneration_replace_def Let_def split: option.split)

lemma bind_inv:
  assumes inv: "lobby_inv env st" and pr: "pr \<in> X" "in_room st pr" "attached st pr"
  shows "lobby_inv env (hello_bind now2 socket pr st)"
    and "transports_ok X st \<Longrightarrow> transports_ok X (hello_bind now2 socket pr st)"
    and "bound (hello_bind now2 socket pr st) socket pr"
    and "pr \<notin> P \<Longrightarrow> undisturbed S P st (hello_bind now2 socket pr st)"
    and "p_peerId (st_peers (hello_bind now2 socket pr st) q) = p_peerId (st_peers st q)"
proof -
  obtain p es where b: "p_socket p = Some socket"
      "Peer_step (env_jsonBytes env) (PeerReplace socket now2) (st_peers st pr) = (p, [])"
      "hello_bind now2 socket pr st = emit es (upd_peer pr p st)"
    by (rule bind_cases)
  note u = peer_step_inv [OF inv b(2)]
  note e = sound_lobby [OF sound_emit u(1)]
  show "lobby_inv env (hello_bind now2 socket pr st)" unfolding b(3) by (rule e(1))
  show "transports_ok X st \<Longrightarrow> transports_ok X (hello_bind now2 socket pr st)"
    unfolding b(3) by (rule e(3) [OF u(2)]) (use pr in simp_all)
  show "bound (hello_bind now2 socket pr st) socket pr"
    using u(4,5) [of pr] pr(2,3) by (simp add: b(3) bound_def in_room_def attached_def sessions_of_def b(1))
  show "pr \<notin> P \<Longrightarrow> undisturbed S P st (hello_bind now2 socket pr st)"
    unfolding b(3) by (rule undisturbed.frame_trans [OF u(3) e(4)])
  have "identity p = identity (st_peers st pr)" by (rule identity_step [OF b(2)])
  then show "p_peerId (st_peers (hello_bind now2 socket pr st) q) = p_peerId (st_peers st q)"
    by (simp add: b(3) identity_iff)
qed

section \<open>Enrolling\<close>

text \<open>A new peer at the next reference.\<close>

definition fresh_peer :: "Peer \<Rightarrow> Server \<Rightarrow> Server" where
  "fresh_peer p st = (upd_peer (st_next st) p st)
     \<lparr>st_peerAlive := (st_peerAlive st)(st_next st := True), st_next := Suc (st_next st),
      lb_peerIdCounter := lb_peerIdCounter st + 1\<rparr>"

lemma fresh_peer_sel [simp]:
  "st_rooms (fresh_peer p st) = st_rooms st" "st_files (fresh_peer p st) = st_files st"
  "st_peers (fresh_peer p st) = (st_peers st)(st_next st := p)"
  "st_next (fresh_peer p st) = Suc (st_next st)" "lb_rooms (fresh_peer p st) = lb_rooms st"
  "lb_sessions (fresh_peer p st) = lb_sessions st" "lb_pending (fresh_peer p st) = lb_pending st"
  "lb_listeners (fresh_peer p st) = lb_listeners st"
  "lb_peerIdCounter (fresh_peer p st) = lb_peerIdCounter st + 1"
  by (simp_all add: fresh_peer_def)

lemma fresh_peer_heap:
  assumes heap: "heap_inv env st" and p: "peer_inv env p"
  shows "heap_inv env (fresh_peer p st)"
proof -
  let ?st' = "fresh_peer p st"
  note h = heap_invD [OF heap]
  have old: "pr < st_next st" if "pr \<in> set (room_peers rr st)" for pr rr
    using member_room [OF h(2) that] by simp
  have "files_ok rr ?st'" for rr
  proof -
    have "file_entry_ok rr ?st' i fr" if "file_entry_ok rr st i fr" for i fr
    proof -
      have "f_host (st_files st fr) < st_next st"
        by (rule old [of _ rr]) (use that in \<open>simp add: file_entry_ok_def\<close>)
      with that show ?thesis by (simp add: file_entry_ok_def room_peers_def)
    qed
    moreover have "member_files_ok rr ?st' q" if "q \<in> set (room_peers rr st)" "member_files_ok rr st q" for q
      using that old [OF that(1)] by (auto simp: member_files_ok_def)
    ultimately show ?thesis using h(1) [of rr] by (auto simp: files_ok_def room_peers_def)
  qed
  moreover have "members_ok rr ?st'" for rr
    using h(2) [of rr] by (auto simp: members_ok_def)
  ultimately show ?thesis using h(3,4) p by (simp add: heap_inv_def room_inv_def)
qed

lemma fresh_peer_inv:
  assumes inv: "lobby_inv env st" and p: "peer_inv env p"
  shows "lobby_inv env (fresh_peer p st)"
    and "transports_ok X st \<Longrightarrow> transports_ok X (fresh_peer p st)"
    and "\<forall>pr \<in> P. pr < st_next st \<Longrightarrow> undisturbed S P st (fresh_peer p st)"
proof -
  let ?st' = "fresh_peer p st"
  have heap': "heap_inv env ?st'" by (rule fresh_peer_heap) (use inv p in \<open>simp_all add: lobby_inv_def\<close>)
  have rooms': "rooms_ok ?st'"
  proof -
    have "rooms_ok st" using inv by (simp add: lobby_inv_def)
    then show ?thesis by (fastforce simp: rooms_ok_def Room_getName_def)
  qed
  have same: "st_peers ?st' (sr_peer s) = st_peers st (sr_peer s)" if "(k, s) \<in> set (lb_sessions st)" for k s
    using sessionsD(4) [OF inv that] by simp
  have "session_member ?st' s" if "(k, s) \<in> set (lb_sessions st)" for k s
    using sessionsD(2) [OF inv that] same [OF that]
    by (simp only: session_member_def fresh_peer_sel(1))
  then have "sessions_ok ?st'"
    using inv by (auto simp: lobby_inv_def sessions_ok_def)
  moreover have "pending_ok ?st'" "listeners_ok ?st'"
    using inv by (auto simp: lobby_inv_def pending_ok_def listeners_ok_def less_SucI)
  ultimately show "lobby_inv env ?st'" using heap' rooms' by (simp add: lobby_inv_def)
  show "transports_ok X ?st'" if "transports_ok X st"
    unfolding transports_ok_def
  proof (intro ballI impI)
    fix s assume s: "s \<in> sessions_of ?st'" "sr_peer s \<notin> X"
    then obtain k where k: "(k, s) \<in> set (lb_sessions st)" by (auto simp: sessions_of_def)
    from k s(2) that have "transport_ok st s" by (force simp: transports_ok_def sessions_of_def)
    with same [OF k] show "transport_ok ?st' s"
      by (simp only: transport_ok_def fresh_peer_sel)
  qed
  show "\<forall>pr \<in> P. pr < st_next st \<Longrightarrow> undisturbed S P st ?st'"
    by (auto simp: undisturbed_def sessions_of_def)
qed

text \<open>Adding a peer that is in no room yet to its room.\<close>

lemma add_peer_heap:
  assumes heap: "heap_inv env st" and room: "length (rm_peerById (st_rooms st rr)) < Limits_peersPerRoom"
    and pr: "pr < st_next st" "p_room (st_peers st pr) = rr" "p_files (st_peers st pr) = []"
    and fresh: "um_find (rm_peerById (st_rooms st rr)) (p_peerId (st_peers st pr)) = None"
  shows "heap_inv env (upd_room rr ((st_rooms st rr)\<lparr>rm_peerById :=
           um_assign (p_peerId (st_peers st pr)) pr (rm_peerById (st_rooms st rr))\<rparr>) st)" (is "heap_inv env ?st'")
proof -
  let ?rm = "st_rooms st rr" and ?i = "p_peerId (st_peers st pr)"
  define ps where "ps = um_assign ?i pr (rm_peerById ?rm)"
  note h = heap_invD [OF heap]
  have valid: "um_valid (rm_peerById ?rm)" using h(1) [of rr] by (simp add: files_ok_def)
  have set_ps: "set ps = insert (?i, pr) (set (rm_peerById ?rm))"
    using fresh unfolding ps_def um_assign_set [OF valid] by (force simp: um_find_None)
  have len: "length ps \<le> Limits_peersPerRoom"
    using um.count_store [OF valid, of ?i pr] fresh room by (simp add: ps_def)
  have "files_ok r ?st'" for r
  proof (cases "r = rr")
    case True
    have "file_entry_ok rr ?st' i fr" if "file_entry_ok rr st i fr" for i fr
      using that set_ps by (auto simp: file_entry_ok_def room_peers_def ps_def [symmetric])
    moreover have "member_files_ok rr ?st' pr" by (simp add: member_files_ok_def pr(3))
    moreover have "member_files_ok rr ?st' q" if "member_files_ok rr st q" for q
      using that by (auto simp: member_files_ok_def)
    ultimately have "files_ok rr ?st'"
      using h(1) [of rr] um.valid_store [OF valid, of ?i pr] set_ps
      by (auto simp: files_ok_def room_peers_def ps_def [symmetric])
    with True show ?thesis by simp
  next
    case False
    with h(1) [of r] show ?thesis
      by (auto simp: files_ok_def file_entry_ok_def member_files_ok_def room_peers_def)
  qed
  moreover have "members_ok r ?st'" for r
    using h(2) [of r] pr len by (cases "r = rr") (auto simp: members_ok_def set_ps ps_def [symmetric])
  moreover have "history_ok (history_limit env) (st_rooms ?st' r)" for r
    using h(3) [of r] by (cases "r = rr") (simp_all add: history_ok_def del: upt_Suc)
  ultimately show ?thesis using h(4) by (simp add: heap_inv_def room_inv_def)
qed

lemma add_peer_inv:
  assumes inv: "lobby_inv env st" and add: "Room_addPeer rr pr st = (st', True)"
    and pr: "pr < st_next st" "p_room (st_peers st pr) = rr" "p_files (st_peers st pr) = []"
    and fresh: "um_find (rm_peerById (st_rooms st rr)) (p_peerId (st_peers st pr)) = None"
    and ids: "0 < p_peerId (st_peers st pr)" "p_peerId (st_peers st pr) < lb_peerIdCounter st"
    and rr: "rr < st_next st"
  shows "lobby_inv env st'" and "transports_ok X st \<Longrightarrow> transports_ok X st'" and "undisturbed S P st st'"
    and "st' = upd_room rr (st_rooms st' rr) st" "in_room st' pr"
    and "rm_sequencer (st_rooms st' rr) = rm_sequencer (st_rooms st rr)"
      "rm_name (st_rooms st' r) = rm_name (st_rooms st r)"
proof -
  let ?rm = "st_rooms st rr" and ?i = "p_peerId (st_peers st pr)"
  define ps where "ps = um_assign ?i pr (rm_peerById ?rm)"
  have heap: "heap_inv env st" using inv by (simp add: lobby_inv_def)
  have valid: "um_valid (rm_peerById ?rm)" using heap_invD(1) [OF heap, of rr] by (simp add: files_ok_def)
  have room: "length (rm_peerById ?rm) < Limits_peersPerRoom"
    and st': "st' = upd_room rr (?rm\<lparr>rm_peerById := ps\<rparr>) st"
    using add by (auto simp: Room_addPeer_def Let_def hasCapacity_def ps_def split: if_splits)
  have set_ps: "set ps = insert (?i, pr) (set (rm_peerById ?rm))"
    using fresh unfolding ps_def um_assign_set [OF valid] by (force simp: um_find_None)
  have heap': "heap_inv env st'"
    unfolding st' ps_def by (rule add_peer_heap [OF heap room pr fresh])
  have names: "Room_getName r st' = Room_getName r st" for r by (simp add: Room_getName_def st')
  have rooms: "rooms_ok st'"
  proof -
    have "rooms_ok st" using inv by (simp add: lobby_inv_def)
    moreover have "rm_peerById (st_rooms st' r) = (if r = rr then ps else rm_peerById (st_rooms st r))" for r
      by (simp add: st')
    ultimately show ?thesis using ids set_ps rr unfolding rooms_ok_def names by (auto simp: st')
  qed
  have kept: "um_find (rm_peerById (st_rooms st' r)) i = Some q"
    if "um_find (rm_peerById (st_rooms st r)) i = Some q" for r i q
    using that fresh by (cases "r = rr"; cases "i = ?i") (auto simp: st' ps_def um.lookup_store [OF valid])
  then have "session_member st' s" if "session_member st s" for s
    using that by (simp add: session_member_def) (simp add: st')
  then have sess: "sessions_ok st'"
    using inv by (auto simp: lobby_inv_def sessions_ok_def) (auto simp: st')
  have "pending_ok st'" "listeners_ok st'"
    using inv by (simp_all add: lobby_inv_def pending_ok_def listeners_ok_def st')
  with heap' rooms sess show "lobby_inv env st'" by (simp add: lobby_inv_def)
  show "transports_ok X st'" if "transports_ok X st"
    using that transports_frame [of st' st X] by (simp add: st')
  show "undisturbed S P st st'" using kept by (simp add: undisturbed_def sessions_of_def) (simp add: st')
  show "st' = upd_room rr (st_rooms st' rr) st" by (simp add: st')
  show "in_room st' pr"
    using pr by (simp add: in_room_def st' ps_def um.lookup_store [OF valid])
  show "rm_sequencer (st_rooms st' rr) = rm_sequencer ?rm" "rm_name (st_rooms st' r) = rm_name (st_rooms st r)"
    by (simp_all add: st')
qed

lemma Peer_new_sel [simp]:
  "p_socket (Peer_new s r n i now) = Some s" "p_room (Peer_new s r n i now) = r"
  "p_peerId (Peer_new s r n i now) = i" "p_files (Peer_new s r n i now) = []"
  "p_nickname (Peer_new s r n i now) = n"
  by (simp_all add: Peer_new_def Let_def split: prod.split)

lemma enter_fresh:
  assumes "lb_peerIdCounter st < 2 ^ 63 - 1"
    and "hello_enter now2 socket nick rr st = (st', r)"
  obtains added where
    "Room_addPeer rr (st_next st) (fresh_peer (Peer_new socket rr nick (lb_peerIdCounter st) now2) st) = (st', added)"
    "r = (if added then Some (st_next st) else None)" "added = Room_hasPeerCapacity rr st"
proof -
  have succ: "i64_succ (lb_peerIdCounter st) = lb_peerIdCounter st + 1"
    by (rule i64_succ_less) (use assms(1) in simp)
  let ?st1 = "fresh_peer (Peer_new socket rr nick (lb_peerIdCounter st) now2) st"
  have e: "(upd_peer (st_next st) (Peer_new socket rr nick (lb_peerIdCounter st) now2)
      (st\<lparr>lb_peerIdCounter := lb_peerIdCounter st + 1\<rparr>))
      \<lparr>st_peerAlive := (st_peerAlive st)(st_next st := True), st_next := Suc (st_next st)\<rparr> = ?st1"
    by (simp add: fresh_peer_def upd_peer_def)
  obtain st2 added where a: "Room_addPeer rr (st_next st) ?st1 = (st2, added)" by fastforce
  have "added = Room_hasPeerCapacity rr st"
    using a by (simp add: Room_addPeer_def Room_hasPeerCapacity_def Let_def split: if_splits)
  with a assms(2) show thesis
    by (intro that) (auto simp: hello_enter_def obtainNewPeerId_def Let_def succ e split: if_splits)
qed

lemma enter_inv:
  assumes inv: "lobby_inv env st" and rr: "rr < st_next st" and fits: "lb_peerIdCounter st < 2 ^ 63 - 1"
    and enter: "hello_enter now2 socket nick rr st = (st', r)"
  shows "lobby_inv env st'" and "transports_ok X st \<Longrightarrow> transports_ok X st'"
    and "\<forall>pr \<in> P. pr < st_next st \<Longrightarrow> undisturbed S P st st'"
    and "r = (if Room_hasPeerCapacity rr st then Some (st_next st) else None)"
    and "lb_sessions st' = lb_sessions st" "lb_rooms st' = lb_rooms st" "lb_listeners st' = lb_listeners st"
      "lb_pending st' = lb_pending st" "st_next st < st_next st'"
    and "st_peers st' = (st_peers st)(st_next st := Peer_new socket rr nick (lb_peerIdCounter st) now2)"
    and "r = Some pr \<Longrightarrow> in_room st' pr"
    and "rm_sequencer (st_rooms st' q) = rm_sequencer (st_rooms st q)" "rm_name (st_rooms st' q) = rm_name (st_rooms st q)"
proof -
  let ?p = "Peer_new socket rr nick (lb_peerIdCounter st) now2"
  let ?st1 = "fresh_peer ?p st"
  from fits enter obtain added where add: "Room_addPeer rr (st_next st) ?st1 = (st', added)"
    and r: "r = (if added then Some (st_next st) else None)" "added = Room_hasPeerCapacity rr st"
    by (rule enter_fresh)
  note f = fresh_peer_inv [OF inv, of ?p, simplified]
  have pos: "0 < lb_peerIdCounter st" using inv by (simp add: lobby_inv_def rooms_ok_def)
  have "i < lb_peerIdCounter st" if "(i, q) \<in> set (rm_peerById (st_rooms st rr))" for i q
    using inv that by (auto simp: lobby_inv_def rooms_ok_def)
  then have none: "um_find (rm_peerById (st_rooms st rr)) (lb_peerIdCounter st) = None"
    by (force simp: um_find_None)
  have "lobby_inv env st' \<and> (transports_ok X ?st1 \<longrightarrow> transports_ok X st') \<and> undisturbed S P ?st1 st'
    \<and> (\<exists>rm. st' = upd_room rr rm ?st1 \<and> rm_sequencer rm = rm_sequencer (st_rooms st rr) \<and> rm_name rm = rm_name (st_rooms st rr))
    \<and> (r = Some pr \<longrightarrow> in_room st' pr)"
  proof (cases added)
    case True
    note a = add_peer_inv [OF f(1) add [unfolded eqTrueI [OF True]]]
    have "lobby_inv env st'" "transports_ok X ?st1 \<Longrightarrow> transports_ok X st'" "undisturbed S P ?st1 st'"
      "st' = upd_room rr (st_rooms st' rr) ?st1" "in_room st' (st_next st)"
      "rm_sequencer (st_rooms st' rr) = rm_sequencer (st_rooms st rr)" "rm_name (st_rooms st' rr) = rm_name (st_rooms st rr)"
      using a none pos rr by simp_all
    moreover have "r = Some pr \<longrightarrow> pr = st_next st" using r(1) True by simp
    ultimately show ?thesis by blast
  next
    case False
    with add have "st' = ?st1" by (simp add: Room_addPeer_def Let_def split: if_splits)
    moreover have "?st1 = upd_room rr (st_rooms st rr) ?st1" by (simp add: upd_room_def)
    moreover have "r = None" using r(1) False by simp
    moreover have "st_rooms ?st1 = st_rooms st" by simp
    ultimately show ?thesis using f(1) undisturbed.frame_refl by (metis option.distinct(1))
  qed
  then obtain rm where c: "lobby_inv env st'" "transports_ok X ?st1 \<Longrightarrow> transports_ok X st'" "undisturbed S P ?st1 st'"
    "st' = upd_room rr rm ?st1" "rm_sequencer rm = rm_sequencer (st_rooms st rr)" "rm_name rm = rm_name (st_rooms st rr)"
    "r = Some pr \<Longrightarrow> in_room st' pr" by blast
  show "lobby_inv env st'" "transports_ok X st \<Longrightarrow> transports_ok X st'" "r = Some pr \<Longrightarrow> in_room st' pr"
    using c f(2) by simp_all
  show "\<forall>pr \<in> P. pr < st_next st \<Longrightarrow> undisturbed S P st st'" using undisturbed.frame_trans [OF f(3) c(3)] .
  show "r = (if Room_hasPeerCapacity rr st then Some (st_next st) else None)" using r by simp
  show "lb_sessions st' = lb_sessions st" "lb_rooms st' = lb_rooms st" "lb_listeners st' = lb_listeners st"
    "lb_pending st' = lb_pending st" "st_next st < st_next st'"
    "st_peers st' = (st_peers st)(st_next st := ?p)"
    "rm_sequencer (st_rooms st' q) = rm_sequencer (st_rooms st q)" "rm_name (st_rooms st' q) = rm_name (st_rooms st q)"
    by (simp_all add: c(4-6))
qed

lemma um_find_emplace:
  "um_find (um_emplace k v m) j = (if j = k \<and> um_find m k = None then Some v else um_find m j)"
  by (simp add: um_emplace_def um_find_def map_add_def split: option.split)

text \<open>Registering the session of a member that has a transport.\<close>

lemma file_inv:
  assumes inv: "lobby_inv env st" and pr: "in_room st pr" "p_room (st_peers st pr) = rr"
    and new: "\<And>s. s \<in> sessions_of st \<Longrightarrow> sr_peer s \<noteq> pr"
  shows "lobby_inv env (hello_file env token rr pr st)"
    and "transports_ok X st \<Longrightarrow> pr \<in> X \<Longrightarrow> transports_ok X (hello_file env token rr pr st)"
    and "pr \<notin> P \<Longrightarrow> undisturbed S P st (hello_file env token rr pr st)"
    and "attached (hello_file env token rr pr st) pr" "in_room (hello_file env token rr pr st) pr"
    and "st_peers (hello_file env token rr pr st) = st_peers st" "st_rooms (hello_file env token rr pr st) = st_rooms st"
      "lb_listeners (hello_file env token rr pr st) = lb_listeners st" "lb_rooms (hello_file env token rr pr st) = lb_rooms st"
      "lb_pending (hello_file env token rr pr st) = lb_pending st"
proof -
  let ?st' = "hello_file env token rr pr st" and ?digest = "digestToken (env_sha256 env) token"
  let ?k = "digestKey ?digest"
  define s where "s = \<lparr>sr_room = rr, sr_peer = pr, sr_digest = ?digest, sr_lease = SessionLease_new\<rparr>"
  have sess: "lb_sessions ?st' = (if um_find (lb_sessions st) ?k = None
      then lb_sessions st @ [(?k, s)] else lb_sessions st)"
    by (simp add: hello_file_def s_def Let_def um_emplace_def split: option.split)
  then have set: "sessions_of ?st' \<subseteq> insert s (sessions_of st)" by (auto simp: sessions_of_def)
  show frame: "st_peers ?st' = st_peers st" "st_rooms ?st' = st_rooms st"
    "lb_listeners ?st' = lb_listeners st" "lb_rooms ?st' = lb_rooms st" "lb_pending ?st' = lb_pending st"
    by (simp_all add: hello_file_def Let_def)
  have "st_next ?st' = st_next st" by (simp add: hello_file_def Let_def)
  have member: "session_member ?st' q = session_member st q" for q by (simp add: session_member_def frame)
  have "session_member st s" using pr by (simp add: session_member_def in_room_def s_def)
  moreover have "?k = digestKey (sr_digest s)" "sr_peer s = pr" by (simp_all add: s_def)
  moreover have "distinct (map (sr_peer \<circ> snd) (lb_sessions ?st'))"
    using inv new by (auto simp: sess s_def lobby_inv_def sessions_ok_def sessions_of_def image_iff)
  moreover have "um_valid (lb_sessions ?st')"
    using inv by (auto simp: sess um_valid_def um_find_None lobby_inv_def sessions_ok_def)
  ultimately have "sessions_ok ?st'"
    using inv by (auto simp: lobby_inv_def sessions_ok_def member sess)
  then show "lobby_inv env ?st'"
    by (intro registry_inv [OF inv]) (simp_all add: hello_file_def Let_def)
  show "transports_ok X ?st'" if "transports_ok X st" "pr \<in> X"
  proof -
    have "transport_ok ?st' q = transport_ok st q" for q
      by (simp add: transport_ok_def frame cong: option.case_cong)
    with set that show ?thesis by (auto simp: transports_ok_def s_def)
  qed
  show "undisturbed S P st ?st'" if "pr \<notin> P"
    using set that by (auto simp: undisturbed_def frame s_def \<open>st_next ?st' = _\<close>)
  show "attached ?st' pr"
    unfolding attached_def
  proof (intro ballI impI)
    fix t assume "t \<in> sessions_of ?st'" "sr_peer t = pr"
    with set new have "t = s" by blast
    then show "\<not> SessionLease_disconnected (sr_lease t)"
      by (simp add: s_def SessionLease_new_def SessionLease_disconnected_def)
  qed
  show "in_room ?st' pr" using pr(1) by (simp add: in_room_def frame)
qed

section \<open>Detaching\<close>

lemma unbind_cases:
  assumes "detach_unbind socket st = (st', r)"
  obtains (stale) "st' = st" "r = None"
  | (unbound) pr p where "lb_listeners st socket = Some (PeerListener pr)" "r = Some pr"
      "Peer_detachIfCurrent (Some socket) (st_peers st pr) = (p, True)"
      "p_socket (st_peers st pr) = Some socket" "p_socket p = None" "st' = upd_peer pr p st"
proof (cases "\<exists>pr. lb_listeners st socket = Some (PeerListener pr)
    \<and> snd (Peer_detachIfCurrent (Some socket) (st_peers st pr))")
  case False
  then have "st' = st \<and> r = None"
    using assms by (auto simp: detach_unbind_def split: option.splits Listener.splits prod.splits bool.splits)
  then show thesis by (intro stale) simp_all
next
  case True
  then obtain pr p where "lb_listeners st socket = Some (PeerListener pr)"
    "Peer_detachIfCurrent (Some socket) (st_peers st pr) = (p, True)" by (metis prod.collapse)
  with assms show thesis
    by (intro unbound) (auto simp: detach_unbind_def Peer_detachIfCurrent_def Peer_detachIfCurrent_at_def split: if_splits)
qed

text \<open>A peer that no other call holds loses its transport.\<close>

lemma unbind_inv:
  assumes inv: "lobby_inv env st" and tr: "transports_ok X st"
    and unbind: "detach_unbind socket st = (st', Some pr)" and free: "pr \<notin> X"
  shows "lobby_inv env st'" and "transports_ok (insert pr X) st'" and "pr \<notin> P \<Longrightarrow> undisturbed S P st st'"
    and "p_socket (st_peers st' pr) = None" "attached st' pr" "pr < st_next st'"
    and "lb_listeners st' = lb_listeners st" "lb_sessions st' = lb_sessions st" "st_rooms st' = st_rooms st"
      "p_peerId (st_peers st' q) = p_peerId (st_peers st q)" "lb_rooms st' = lb_rooms st" "lb_pending st' = lb_pending st"
    and "lb_listeners st socket = Some (PeerListener pr)"
proof -
  from unbind obtain p where u: "lb_listeners st socket = Some (PeerListener pr)"
      "Peer_detachIfCurrent (Some socket) (st_peers st pr) = (p, True)"
      "p_socket (st_peers st pr) = Some socket" "p_socket p = None" "st' = upd_peer pr p st"
    by (cases rule: unbind_cases) auto
  have step: "Peer_step (env_jsonBytes env) (PeerDetach socket) (st_peers st pr) = (p, [])" by (simp add: u(2))
  note s = peer_step_inv [OF inv step, folded u(5)]
  show "lobby_inv env st'" by (rule s(1))
  show "transports_ok (insert pr X) st'" by (rule s(2)) (use tr in \<open>auto intro: transports_mono\<close>)
  show "pr \<notin> P \<Longrightarrow> undisturbed S P st st'" by (rule s(3))
  show "p_socket (st_peers st' pr) = None" by (simp add: u(4,5))
  have "attached st pr"
    using tr free u(3) by (fastforce simp: attached_def transports_ok_def transport_ok_def)
  then show "attached st' pr" by (simp add: s(5))
  show "pr < st_next st'" using inv u(1) by (auto simp: lobby_inv_def listeners_ok_def u(5))
  have "identity p = identity (st_peers st pr)" by (rule identity_step [OF step])
  then show "p_peerId (st_peers st' q) = p_peerId (st_peers st q)" by (simp add: u(5) identity_iff)
  show "lb_listeners st' = lb_listeners st" "lb_sessions st' = lb_sessions st" "st_rooms st' = st_rooms st"
    "lb_rooms st' = lb_rooms st" "lb_pending st' = lb_pending st"
    by (simp_all add: u(5))
  show "lb_listeners st socket = Some (PeerListener pr)" by (rule u(1))
qed

text \<open>An unbind that takes effect finds its peer free: a peer another call holds has no transport that listens.\<close>

lemma unbind_free:
  assumes "detach_unbind socket st = (st', Some pr)"
    and "\<And>socket. p_socket (st_peers st q) = Some socket \<Longrightarrow> lb_listeners st socket \<noteq> Some (PeerListener q)"
  shows "pr \<noteq> q"
  using assms by (auto elim!: unbind_cases)

definition detach_lease :: "time \<Rightarrow> peer_ref \<Rightarrow> SessionRecord \<Rightarrow> SessionRecord" where
  "detach_lease now pr s =
     (if sr_peer s = pr then s\<lparr>sr_lease := SessionLease_detach now (sr_lease s)\<rparr> else s)"

lemma detach_lease_sel [simp]:
  "sr_peer (detach_lease now pr s) = sr_peer s" "sr_room (detach_lease now pr s) = sr_room s"
  "sr_digest (detach_lease now pr s) = sr_digest s"
  "sr_lease (detach_lease now pr s) = (if sr_peer s = pr then Some (now + gracePeriod) else sr_lease s)"
  by (simp_all add: detach_lease_def SessionLease_detach_def)

lemma detach_session_map:
  assumes "distinct (map (sr_peer \<circ> snd) ss)"
  shows "detach_session now pr ss =
     (map (\<lambda>(k, s). (k, detach_lease now pr s)) ss,
      map_option (sr_room \<circ> snd) (find (\<lambda>(k, s). sr_peer s = pr) ss))"
  using assms
proof (induction ss)
  case (Cons e es)
  obtain k s where e: "e = (k, s)" by fastforce
  show ?case
  proof (cases "sr_peer s = pr")
    case True
    with Cons.prems have "map (\<lambda>(k, s). (k, detach_lease now pr s)) es = es"
      by (intro map_idI) (force simp: e detach_lease_def)
    with True show ?thesis by (simp add: e detach_lease_def)
  next
    case False
    with Cons show ?thesis by (simp add: e detach_lease_def)
  qed
qed simp

lemma registry_map:
  assumes "lobby_inv env st" and "detach_registry now pr st = (st', r)"
  shows "st' = st\<lparr>lb_sessions := map (\<lambda>(k, s). (k, detach_lease now pr s)) (lb_sessions st)\<rparr>"
    and "r = map_option (sr_room \<circ> snd) (find (\<lambda>(k, s). sr_peer s = pr) (lb_sessions st))"
  using assms detach_session_map [of "lb_sessions st" now pr]
  by (auto simp: detach_registry_def lobby_inv_def sessions_ok_def)

text \<open>The lease of the session starts to run, and the peer is free again.\<close>

lemma registry_detach_inv:
  assumes inv: "lobby_inv env st" and reg: "detach_registry now pr st = (st', r)"
    and tr: "transports_ok X st" and pr: "p_socket (st_peers st pr) = None"
  shows "lobby_inv env st'" and "transports_ok (X - {pr}) st'" and "pr \<notin> P \<Longrightarrow> undisturbed S P st st'"
    and "st_peers st' = st_peers st" "st_rooms st' = st_rooms st" "lb_listeners st' = lb_listeners st"
      "lb_rooms st' = lb_rooms st" "lb_pending st' = lb_pending st"
proof -
  let ?f = "\<lambda>(k, s). (k, detach_lease now pr s)"
  note st' = registry_map(1) [OF inv reg]
  have "map fst (map ?f (lb_sessions st)) = map fst (lb_sessions st)"
    "map (sr_peer \<circ> snd) (map ?f (lb_sessions st)) = map (sr_peer \<circ> snd) (lb_sessions st)" by auto
  moreover have "session_member st' (detach_lease now pr s) = session_member st s" for s
    by (simp add: session_member_def st')
  ultimately have "sessions_ok st'"
    using inv by (auto simp: lobby_inv_def sessions_ok_def um_valid_def st' simp del: map_map)
  then show "lobby_inv env st'" by (intro registry_inv [OF inv]) (simp_all add: st')
  have of: "sessions_of st' = detach_lease now pr ` sessions_of st" by (force simp: sessions_of_def st')
  have keep: "detach_lease now pr s = s" if "sr_peer s \<noteq> pr" for s using that by (simp add: detach_lease_def)
  have "transport_ok st' t" if t: "t \<in> sessions_of st'" "sr_peer t \<notin> X - {pr}" for t
  proof -
    obtain s where s: "s \<in> sessions_of st" "t = detach_lease now pr s" using t(1) of by auto
    show ?thesis
    proof (cases "sr_peer s = pr")
      case True
      with pr s(2) show ?thesis by (simp add: transport_ok_def st' SessionLease_disconnected_def)
    next
      case False
      with tr s t(2) have "transport_ok st s" by (auto simp: transports_ok_def)
      with keep [OF False] s(2) show ?thesis by (simp add: transport_ok_def st' cong: option.case_cong)
    qed
  qed
  then show "transports_ok (X - {pr}) st'" by (simp add: transports_ok_def)
  have "s \<in> sessions_of st" if "s \<in> sessions_of st'" "sr_peer s \<noteq> pr" for s
    using that unfolding of by (auto simp: keep)
  then show "pr \<notin> P \<Longrightarrow> undisturbed S P st st'" by (auto simp: undisturbed_def) (auto simp: st')
  show "st_peers st' = st_peers st" "st_rooms st' = st_rooms st" "lb_listeners st' = lb_listeners st"
    "lb_rooms st' = lb_rooms st" "lb_pending st' = lb_pending st" by (simp_all add: st')
qed

section \<open>Expiring\<close>

definition expired_sessions :: "time \<Rightarrow> Server \<Rightarrow> SessionRecord list" where
  "expired_sessions now st = map snd (filter (lease_over now) (lb_sessions st))"

text \<open>What is collected is detached and belongs to no other call.\<close>

lemma collect_inv:
  assumes inv: "lobby_inv env st" and tr: "transports_ok X st" and busy: "\<forall>pr \<in> X. attached st pr"
    and col: "expire_collect now st = (st', sockets, ss)"
  shows "lobby_inv env st'" and "transports_ok X st'" and "undisturbed S P st st'"
    and "ss = expired_sessions now st" "\<forall>s \<in> set ss. session_member st' s" "distinct (map sr_peer ss)"
    and "\<forall>t \<in> sessions_of st'. sr_peer t \<notin> sr_peer ` set ss" "sr_peer ` set ss \<inter> X = {}"
    and "\<forall>s \<in> set ss. p_socket (st_peers st' (sr_peer s)) = None"
    and "st_peers st' = st_peers st" "st_rooms st' = st_rooms st" "lb_listeners st' = lb_listeners st"
      "lb_rooms st' = lb_rooms st" "lb_peerIdCounter st' = lb_peerIdCounter st"
      "lb_sessions st' = filter (\<lambda>e. \<not> lease_over now e) (lb_sessions st)"
      "lb_pending st' = filter (\<lambda>e. now < pr_deadline (snd e)) (lb_pending st)"
proof -
  from col have st': "st' = st\<lparr>lb_pending := filter (\<lambda>e. now < pr_deadline (snd e)) (lb_pending st),
      lb_sessions := filter (\<lambda>e. \<not> lease_over now e) (lb_sessions st)\<rparr>"
    and ss: "ss = expired_sessions now st"
    by (simp_all add: expire_collect_def Let_def expired_sessions_def not_le)
  show "ss = expired_sessions now st" by (rule ss)
  show frame: "st_peers st' = st_peers st" "st_rooms st' = st_rooms st" "lb_listeners st' = lb_listeners st"
    "lb_rooms st' = lb_rooms st" "lb_peerIdCounter st' = lb_peerIdCounter st"
    "lb_sessions st' = filter (\<lambda>e. \<not> lease_over now e) (lb_sessions st)"
    "lb_pending st' = filter (\<lambda>e. now < pr_deadline (snd e)) (lb_pending st)"
    by (simp_all add: st')
  have member: "session_member st' s = session_member st s" for s by (simp add: session_member_def frame)
  have "sessions_ok st'" "pending_ok st'"
    using inv by (auto simp: lobby_inv_def sessions_ok_def pending_ok_def um_valid_def distinct_map_filter member frame)
  then show "lobby_inv env st'" by (intro registry_inv [OF inv]) (simp_all add: st')
  have sub: "sessions_of st' \<subseteq> sessions_of st" by (auto simp: sessions_of_def frame)
  have "transport_ok st' s = transport_ok st s" for s by (simp add: transport_ok_def frame cong: option.case_cong)
  with sub tr show "transports_ok X st'" by (auto simp: transports_ok_def)
  show "undisturbed S P st st'" using sub by (auto simp: undisturbed_def frame) (simp add: st')
  have over: "s \<in> sessions_of st \<and> SessionLease_disconnected (sr_lease s) \<and> session_member st s" if "s \<in> set ss" for s
    using that sessionsD(2) [OF inv]
    by (force simp: ss expired_sessions_def sessions_of_def lease_over_def SessionLease_expires_def
        SessionLease_disconnected_def split: option.splits)
  then show "\<forall>s \<in> set ss. session_member st' s" by (simp add: member)
  have "distinct (map (sr_peer \<circ> snd) (lb_sessions st))"
    using inv by (simp add: lobby_inv_def sessions_ok_def)
  then show "distinct (map sr_peer ss)"
    by (simp add: ss expired_sessions_def distinct_map_filter comp_def)
  show apart: "sr_peer ` set ss \<inter> X = {}" using over busy by (auto simp: attached_def)
  show "\<forall>s \<in> set ss. p_socket (st_peers st' (sr_peer s)) = None"
  proof
    fix s assume "s \<in> set ss"
    with over apart tr have "transport_ok st s" "SessionLease_disconnected (sr_lease s)"
      by (auto simp: transports_ok_def)
    then show "p_socket (st_peers st' (sr_peer s)) = None" by (simp add: transport_ok_def frame split: option.splits)
  qed
  show "\<forall>t \<in> sessions_of st'. sr_peer t \<notin> sr_peer ` set ss"
  proof (intro ballI notI)
    fix t assume "t \<in> sessions_of st'" "sr_peer t \<in> sr_peer ` set ss"
    then obtain k k' s where "(k, t) \<in> set (lb_sessions st)" "\<not> lease_over now (k, t)"
      "(k', s) \<in> set (lb_sessions st)" "lease_over now (k', s)" "sr_peer t = sr_peer s"
      by (auto simp: ss expired_sessions_def sessions_of_def frame)
    with session_unique [OF inv] show False by blast
  qed
qed

lemma remove_inv:
  assumes inv: "lobby_inv env st" and m: "session_member st s"
    and gone: "\<forall>t \<in> sessions_of st. sr_peer t \<noteq> sr_peer s"
    and st': "st' = Room_removePeerById (sr_room s) (p_peerId (st_peers st (sr_peer s))) st"
  shows "lobby_inv env st'" and "transports_ok X st \<Longrightarrow> transports_ok X st'"
    and "sr_peer s \<notin> P \<Longrightarrow> undisturbed S P st st'"
    and "session_member st t \<Longrightarrow> sr_peer t \<noteq> sr_peer s \<Longrightarrow> session_member st' t"
    and "Heap.more st' = Heap.more st"
    and "rm_peerById (st_rooms st' rr) = (if rr = sr_room s
       then um_erase (p_peerId (st_peers st (sr_peer s))) (rm_peerById (st_rooms st rr))
       else rm_peerById (st_rooms st rr))"
    and "p_peerId (st_peers st' pr) = p_peerId (st_peers st pr)" "rm_name (st_rooms st' rr) = rm_name (st_rooms st rr)"
      "p_socket (st_peers st' pr) = p_socket (st_peers st pr)"
proof -
  let ?rr = "sr_room s" and ?i = "p_peerId (st_peers st (sr_peer s))"
  have heap: "heap_inv env st" using inv by (simp add: lobby_inv_def)
  note rem = remove_heap_inv [OF heap, of ?rr ?i, folded st']
  have members: "rm_peerById (st_rooms st' r) = (if r = ?rr then um_erase ?i (rm_peerById (st_rooms st r))
      else rm_peerById (st_rooms st r))" for r
    using rem by simp
  have same: "rm_name (st_rooms st' r) = rm_name (st_rooms st r)" "p_peerId (st_peers st' q) = p_peerId (st_peers st q)"
    "p_socket (st_peers st' q) = p_socket (st_peers st q)" "p_room (st_peers st' q) = p_room (st_peers st q)"
    "st_next st' = st_next st" for r q
    using rem by simp_all
  show more: "Heap.more st' = Heap.more st" using rem by simp
  note lf = lobby_fields [OF more]
  have valid: "um_valid (rm_peerById (st_rooms st r))" for r
    using heap_invD(1) [OF heap, of r] by (simp add: files_ok_def)
  have kept: "um_find (rm_peerById (st_rooms st' r)) i = Some q"
    if q: "um_find (rm_peerById (st_rooms st r)) i = Some q" "q \<noteq> sr_peer s" for r i q
    using q m by (auto simp: members um.lookup_erase [OF valid] session_member_def)
  then show member: "session_member st' t" if t: "session_member st t" "sr_peer t \<noteq> sr_peer s" for t
    using t by (simp add: session_member_def same)
  have "sessions_ok st'"
  proof -
    have "session_member st' t" if t: "(k, t) \<in> set (lb_sessions st)" for k t
      using member [OF sessionsD(2) [OF inv t]] gone t by (force simp: sessions_of_def)
    then show ?thesis using inv by (auto simp: lobby_inv_def sessions_ok_def lf)
  qed
  moreover have "rooms_ok st'"
    using inv by (auto simp: lobby_inv_def rooms_ok_def Room_getName_def lf same members um_erase_set um_erase_def)
  moreover have "pending_ok st'" "listeners_ok st'"
    using inv by (simp_all add: lobby_inv_def pending_ok_def listeners_ok_def lf same)
  ultimately show "lobby_inv env st'" using rem by (simp add: lobby_inv_def)
  show "transports_ok X st \<Longrightarrow> transports_ok X st'"
    by (simp add: transports_ok_def sessions_of_def transport_ok_def lf same cong: option.case_cong)
  show "undisturbed S P st st'" if "sr_peer s \<notin> P"
    using kept that by (auto simp: undisturbed_def sessions_of_def lf same)
  show "rm_peerById (st_rooms st' rr) = (if rr = ?rr then um_erase ?i (rm_peerById (st_rooms st rr))
      else rm_peerById (st_rooms st rr))" by (rule members)
  show "p_peerId (st_peers st' pr) = p_peerId (st_peers st pr)" "rm_name (st_rooms st' rr) = rm_name (st_rooms st rr)"
    "p_socket (st_peers st' pr) = p_socket (st_peers st pr)"
    by (rule same)+
qed

end
