(* ===== verification/Server.thy ===== *)
theory Server
  imports LobbySteps
begin

text \<open>
  The calls of the lobby when each runs alone: the steps of \<open>LobbySteps\<close> composed. The invariant of the whole
  server adds that the room of every session is registered, and that no transport is under way. The directory of
  sessions (\<open>session_view\<close>) is what the clients see.
\<close>

section \<open>Invariant\<close>

definition session_registered :: "Server \<Rightarrow> SessionRecord \<Rightarrow> bool" where
  "session_registered st s \<longleftrightarrow> getRoom (Room_getName (sr_room s) st) st = Some (sr_room s)"

definition registered :: "Server \<Rightarrow> bool" where
  "registered st \<longleftrightarrow> (\<forall>s \<in> sessions_of st. session_registered st s)"

definition server_inv :: "Env \<Rightarrow> Server \<Rightarrow> bool" where
  "server_inv env st \<longleftrightarrow> lobby_inv env st \<and> registered st \<and> transports_ok {} st"

text \<open>What a hello has established when the transport is handed to the peer.\<close>

definition handover :: "Env \<Rightarrow> socket_ref \<Rightarrow> peer_ref \<Rightarrow> Server \<Rightarrow> bool" where
  "handover env socket pr st \<longleftrightarrow> lobby_inv env st \<and> registered st \<and> transports_ok {pr} st \<and> bound st socket pr"

lemma server_inv_new: "server_inv env Server_new"
  using lobby_inv_new
  by (simp add: server_inv_def registered_def transports_ok_def sessions_of_def) (simp add: Server_new_def Heap.extend_def)

lemma registeredD: "registered st \<Longrightarrow> (k, s) \<in> set (lb_sessions st) \<Longrightarrow> session_registered st s"
  by (force simp: registered_def sessions_of_def)

lemma registered_frame:
  assumes "registered st" "lb_rooms st' = lb_rooms st" "\<And>rr. rm_name (st_rooms st' rr) = rm_name (st_rooms st rr)"
    and "sr_room ` sessions_of st' \<subseteq> sr_room ` sessions_of st"
  shows "registered st'"
proof -
  have "session_registered st' s" if s: "s \<in> sessions_of st'" for s
  proof -
    obtain t where "t \<in> sessions_of st" "sr_room t = sr_room s" using s assms(4) by force
    with assms(1) show ?thesis by (auto simp: registered_def session_registered_def getRoom_def Room_getName_def assms(2,3))
  qed
  then show ?thesis by (simp add: registered_def)
qed

lemma sound_registered:
  fixes st st' :: Server
  assumes "sound env st st'" "lobby_inv env st" "registered st"
  shows "registered st'"
proof -
  have k: "keeps st st'" by (rule sound_lobby(2) [OF assms(1,2)])
  then have "Heap.more st' = Heap.more st" by (simp add: keeps_def)
  note f = lobby_fields [OF this]
  show ?thesis by (rule registered_frame [OF assms(3)]) (use k in \<open>simp_all add: f sessions_of_def keeps_def\<close>)
qed

lemma sound_server:
  fixes st st' :: Server
  shows "sound env st st' \<Longrightarrow> server_inv env st \<Longrightarrow> server_inv env st'"
  using sound_lobby sound_registered by (simp add: server_inv_def)

lemma getOrCreateRoom_registered:
  assumes inv: "lobby_inv env st" and reg: "registered st" and "getOrCreateRoom name st = (st', r)"
  shows "registered st'"
  using assms(3)
proof (cases rule: getOrCreateRoom_cases)
  case (created st0)
  have "session_registered st' s" if s: "s \<in> sessions_of st" for s
  proof -
    from reg s have r: "getRoom (Room_getName (sr_room s) st) st = Some (sr_room s)"
      by (simp add: registered_def session_registered_def)
    with room_below [OF inv r] show ?thesis
      by (simp add: session_registered_def created getRoom_def Room_getName_def um_find_def map_add_Some_iff)
  qed
  moreover have "sessions_of st' = sessions_of st" by (simp add: sessions_of_def created)
  ultimately show ?thesis by (simp add: registered_def)
qed (use reg in simp_all)

text \<open>A room with a member is not deleted.\<close>

lemma deleteRoom_registered:
  assumes inv: "lobby_inv env st" and reg: "registered st"
  shows "registered (deleteRoomIfEmpty rr st)"
proof (cases rule: deleteRoom_cases [of rr st])
  case deleted
  have valid: "um_valid (lb_rooms st)" using inv by (simp add: lobby_inv_def rooms_ok_def)
  have "session_registered (deleteRoomIfEmpty rr st) s" if s: "s \<in> sessions_of st" for s
  proof -
    have m: "session_member st s" using s sessionsD(2) [OF inv] by (auto simp: sessions_of_def)
    have r: "getRoom (Room_getName (sr_room s) st) st = Some (sr_room s)"
      using reg s by (simp add: registered_def session_registered_def)
    have "sr_room s \<noteq> rr" using m deleted(2) by (auto simp: session_member_def Room_isEmpty_def)
    with r deleted(1) have "Room_getName (sr_room s) st \<noteq> Room_getName rr st" by auto
    with r show ?thesis
      by (simp add: session_registered_def deleted(3) getRoom_def um.lookup_erase [OF valid] Room_getName_def)
  qed
  then show ?thesis by (simp add: registered_def sessions_of_def)
qed (simp add: reg)

lemma deleteRoom_server: "server_inv env st \<Longrightarrow> server_inv env (deleteRoomIfEmpty rr st)"
  unfolding server_inv_def using deleteRoom_inv(1,2) deleteRoom_registered by blast

section \<open>The directory\<close>

text \<open>The directory of sessions as a client sees it: by the key of its token's digest, the room, the
  identity and the lease of the session.\<close>

definition session_view :: "Server \<Rightarrow> string \<Rightarrow> (string \<times> int \<times> SessionLease) option" where
  "session_view st k = map_option
     (\<lambda>s. (Room_getName (sr_room s) st, p_peerId (st_peers st (sr_peer s)), sr_lease s))
     (um_find (lb_sessions st) k)"

lemma view_cong:
  assumes "lb_sessions st' = lb_sessions st"
    and "\<And>k s. (k, s) \<in> set (lb_sessions st) \<Longrightarrow> Room_getName (sr_room s) st' = Room_getName (sr_room s) st"
    and "\<And>k s. (k, s) \<in> set (lb_sessions st) \<Longrightarrow>
           p_peerId (st_peers st' (sr_peer s)) = p_peerId (st_peers st (sr_peer s))"
  shows "session_view st' = session_view st"
proof
  fix k
  show "session_view st' k = session_view st k"
    using assms um_find_SomeD [of "lb_sessions st" k]
    by (cases "um_find (lb_sessions st) k") (auto simp: session_view_def)
qed

lemma sound_view:
  assumes "sound env st st'" and "lobby_inv env st"
  shows "session_view st' = session_view st"
proof -
  have k: "keeps st st'" by (rule sound_lobby(2) [OF assms])
  then have same: "Heap.more st' = Heap.more st" by (simp add: keeps_def)
  show ?thesis
    by (rule view_cong [OF lobby_fields(2) [OF same]]) (use k in \<open>simp_all add: keeps_def Room_getName_def\<close>)
qed

text \<open>Pending transports are no part of the directory.\<close>

lemma registered_pending [simp]: "registered (st\<lparr>lb_pending := ps\<rparr>) = registered st"
  by (simp add: registered_def sessions_of_def session_registered_def getRoom_def Room_getName_def)

lemma view_pending [simp]: "session_view (st\<lparr>lb_pending := ps\<rparr>) = session_view st"
  by (rule view_cong) (simp_all add: Room_getName_def)

lemma connect_server:
  "server_inv env st \<Longrightarrow> um_find (lb_pending st) socket = None \<Longrightarrow>
     server_inv env (st\<lparr>lb_pending := um_emplace socket \<lparr>pr_socket = socket, pr_deadline = d\<rparr> (lb_pending st)\<rparr>)"
  unfolding server_inv_def
  by (intro conjI pending_inv)
     (auto simp: lobby_inv_def pending_ok_def um_emplace_fresh um_valid_def um_find_None)

lemma erase_pending_server:
  "server_inv env st \<Longrightarrow> server_inv env (st\<lparr>lb_pending := um_erase socket (lb_pending st)\<rparr>)"
  by (simp add: server_inv_def erase_pending_inv)

lemma set_pending_server:
  assumes "server_inv env st" and "\<not> peer_listens st socket"
  shows "server_inv env (set_pending_hello socket h st)"
    and "session_view (set_pending_hello socket h st) = session_view st"
proof -
  have "registered st" using assms(1) by (simp add: server_inv_def)
  then have "registered (set_pending_hello socket h st)"
    by (rule registered_frame) (simp_all add: set_pending_hello_def sessions_of_def)
  with assms set_pending_hello_inv(1,2) [OF assms(2)] show "server_inv env (set_pending_hello socket h st)"
    by (simp add: server_inv_def)
  show "session_view (set_pending_hello socket h st) = session_view st"
    by (rule view_cong) (simp_all add: set_pending_hello_def Room_getName_def)
qed

section \<open>Resuming\<close>

lemma lookup_view:
  assumes inv: "lobby_inv env st" and "hello_lookup env now roomName token st = (st', Some pr)"
  shows "\<exists>i deadline. now < deadline
      \<and> session_view st (digestKey (digestToken (env_sha256 env) token)) = Some (roomName, i, Some deadline)
      \<and> p_peerId (st_peers st pr) = i
      \<and> session_view st' = (session_view st)(digestKey (digestToken (env_sha256 env) token) \<mapsto> (roomName, i, None))"
proof -
  have valid: "um_valid (lb_sessions st)" using inv by (simp add: lobby_inv_def sessions_ok_def)
  from assms(2) show ?thesis
  proof (cases rule: lookup_cases)
    case (found digest s deadline)
    then show ?thesis
      by (auto simp: session_view_def fun_eq_iff Room_getName_def um.lookup_store [OF valid])
  qed simp
qed

lemma lookup_registered:
  assumes "lobby_inv env st" "registered st" "hello_lookup env now roomName token st = (st', r)"
  shows "registered st'"
  using assms(3)
proof (cases rule: lookup_cases)
  case (found digest s deadline)
  have "s \<in> sessions_of st" using um_find_SomeD [OF found(3)] by (force simp: sessions_of_def)
  moreover have "sessions_of st' \<subseteq> insert (s\<lparr>sr_lease := None\<rparr>) (sessions_of st)"
    using assms(1) found(9) by (auto simp: sessions_of_def um_assign_set lobby_inv_def sessions_ok_def)
  ultimately have "sr_room ` sessions_of st' \<subseteq> sr_room ` sessions_of st" by auto
  then show ?thesis by (rule registered_frame [OF assms(2), rotated -1]) (simp_all add: found(9))
qed (simp add: assms(2))

lemma resume_inv:
  assumes inv: "server_inv env st" and res: "hello_resume env now now2 socket roomName token st = (st', r)"
  shows "r = None \<Longrightarrow> st' = st" and "r = Some pr \<Longrightarrow> handover env socket pr st'"
    and "lb_listeners st' = lb_listeners st" "lb_pending st' = lb_pending st"
    and "r = Some pr \<Longrightarrow> \<exists>i deadline. now < deadline
      \<and> session_view st (digestKey (digestToken (env_sha256 env) token)) = Some (roomName, i, Some deadline)
      \<and> p_peerId (st_peers st' pr) = i
      \<and> session_view st' = (session_view st)(digestKey (digestToken (env_sha256 env) token) \<mapsto> (roomName, i, None))"
proof -
  obtain st1 q where look: "hello_lookup env now roomName token st = (st1, q)" by fastforce
  have lob: "lobby_inv env st" and reg: "registered st" and tr: "transports_ok {} st" using inv by (simp_all add: server_inv_def)
  have res': "r = q" "st' = (case q of None \<Rightarrow> st1 | Some pr \<Rightarrow> hello_bind now2 socket pr st1)"
    using res by (auto simp: hello_resume_def look split: option.splits)
  have none: "st1 = st" if "q = None" using look that by (cases rule: lookup_cases) simp_all
  then show "r = None \<Longrightarrow> st' = st" by (simp add: res')
  have "lb_listeners st1 = lb_listeners st" "lb_pending st1 = lb_pending st"
    using look by (cases rule: lookup_cases; simp)+
  then show "lb_listeners st' = lb_listeners st" "lb_pending st' = lb_pending st"
    by (simp_all add: res'(2) split: option.split)
  assume r: "r = Some pr"
  have q: "q = Some pr" and st': "st' = hello_bind now2 socket pr st1" using r res' by simp_all
  note l = lookup_inv [OF lob tr _ look [unfolded q], simplified]
  note b = bind_inv [OF l(1) insertI1 l(5,6), where ?now2.0 = now2 and socket = socket, folded st']
  have "registered st1" by (rule lookup_registered [OF lob reg look])
  then have "registered st'" by (rule registered_frame) (simp_all add: st' sessions_of_def)
  then show "handover env socket pr st'" using b(1-3) l(2) by (simp add: handover_def)
  have "session_view st' = session_view st1"
    by (rule view_cong) (simp_all add: st' Room_getName_def b(5) [unfolded st'])
  with lookup_view [OF lob look [unfolded q]] show "\<exists>i deadline. now < deadline
      \<and> session_view st (digestKey (digestToken (env_sha256 env) token)) = Some (roomName, i, Some deadline)
      \<and> p_peerId (st_peers st' pr) = i
      \<and> session_view st' = (session_view st)(digestKey (digestToken (env_sha256 env) token) \<mapsto> (roomName, i, None))"
    by (auto simp: b(5) l(9))
qed

section \<open>Enrolling\<close>

lemma openRoom_result:
  assumes "hello_openRoom bytes roomName st = (st', r)"
  shows "st' = st \<and> r = None
    \<or> (\<exists>q. getOrCreateRoom roomName st = (st', q)
         \<and> (\<forall>token rr. r = Some (token, rr) \<longrightarrow> q = Some rr \<and> makeResumeToken bytes = Some token))"
  using assms by (auto simp: hello_openRoom_def split: option.splits prod.splits if_splits)

lemma openRoom_inv:
  assumes inv: "server_inv env st" and op: "hello_openRoom bytes roomName st = (st', r)"
  shows "server_inv env st'" and "session_view st' = session_view st"
    and "r = Some (token, rr) \<Longrightarrow> getRoom (Room_getName rr st') st' = Some rr \<and> rr < st_next st'"
    and "r = Some (token, rr) \<Longrightarrow> Room_getName rr st' = roomName \<and> makeResumeToken bytes = Some token"
proof -
  have lob: "lobby_inv env st" and reg: "registered st" and tr: "transports_ok {} st" using inv by (simp_all add: server_inv_def)
  have "server_inv env st' \<and> session_view st' = session_view st
    \<and> (r = Some (token, rr) \<longrightarrow> getRoom (Room_getName rr st') st' = Some rr \<and> rr < st_next st'
        \<and> Room_getName rr st' = roomName \<and> makeResumeToken bytes = Some token)"
    using openRoom_result [OF op]
  proof (elim disjE exE conjE)
    fix q assume g: "getOrCreateRoom roomName st = (st', q)"
      and q: "\<forall>token rr. r = Some (token, rr) \<longrightarrow> q = Some rr \<and> makeResumeToken bytes = Some token"
    note gi = getOrCreateRoom_inv [OF lob g]
    have "server_inv env st'"
      using gi(1,2) getOrCreateRoom_registered [OF lob reg g] tr by (simp add: server_inv_def)
    moreover have "session_view st' = session_view st"
      by (rule view_cong [OF gi(6)])
         (simp_all add: Room_getName_def gi(5,8) session_room_below [OF lob])
    moreover have "getRoom (Room_getName rr st') st' = Some rr \<and> rr < st_next st'
        \<and> Room_getName rr st' = roomName \<and> makeResumeToken bytes = Some token" if "r = Some (token, rr)"
      using gi(4) q that by auto
    ultimately show ?thesis by blast
  qed (use inv in simp_all)
  then show "server_inv env st'" "session_view st' = session_view st"
    "r = Some (token, rr) \<Longrightarrow> getRoom (Room_getName rr st') st' = Some rr \<and> rr < st_next st'"
    "r = Some (token, rr) \<Longrightarrow> Room_getName rr st' = roomName \<and> makeResumeToken bytes = Some token"
    by auto
qed

lemma sound_handover:
  fixes st st' :: Server
  assumes "sound env st st'" and h: "handover env socket pr st"
  shows "handover env socket pr st'" and "lb_listeners st' = lb_listeners st" "lb_pending st' = lb_pending st"
proof -
  have lob: "lobby_inv env st" using h by (simp add: handover_def)
  note s = sound_lobby [OF assms(1) lob]
  have same: "Heap.more st' = Heap.more st" using s(2) by (simp add: keeps_def)
  show "lb_listeners st' = lb_listeners st" "lb_pending st' = lb_pending st"
    by (rule lobby_fields [OF same])+
  show "handover env socket pr st'"
    using s(1,3) sound_registered [OF assms(1) lob] undisturbed_bound [OF s(4) UNIV_I] h by (simp add: handover_def)
qed

text \<open>The session of a new member in the directory.\<close>

lemma file_view:
  "session_view (hello_file env token rr pr st) =
     (let k = digestKey (digestToken (env_sha256 env) token)
      in if session_view st k = None
         then (session_view st)(k \<mapsto> (Room_getName rr st, p_peerId (st_peers st pr), None)) else session_view st)"
proof -
  have "lb_sessions (hello_file env token rr pr st) =
      um_emplace (digestKey (digestToken (env_sha256 env) token))
        \<lparr>sr_room = rr, sr_peer = pr, sr_digest = digestToken (env_sha256 env) token, sr_lease = SessionLease_new\<rparr>
        (lb_sessions st)"
    by (simp add: hello_file_def Let_def)
  then show ?thesis
    by (auto simp: fun_eq_iff session_view_def um_find_emplace Let_def Room_getName_def SessionLease_new_def)
       (simp_all add: hello_file_def Let_def)
qed

text \<open>The steps of \<open>hello_enrol\<close> in a room that is not at its last message number.\<close>

lemma enrol_cases:
  assumes inv: "server_inv env st"
    and room: "getRoom (Room_getName rr st) st = Some rr"
    and fits: "lb_peerIdCounter st < 2 ^ 63 - 1" "rm_sequencer (st_rooms st rr) \<noteq> - 1"
    and en: "hello_enrol env now2 socket nick token rr st = (st', r)"
  obtains (full) "\<not> Room_hasPeerCapacity rr st" "r = Inr None" "server_inv env st'"
      "session_view st' = session_view st"
  | (enrolled) "Room_hasPeerCapacity rr st" "r = Inr (Some (st_next st))" "handover env socket (st_next st) st'"
      "lb_listeners st' = lb_listeners st" "lb_pending st' = lb_pending st"
      "session_view st' = (let k = digestKey (digestToken (env_sha256 env) token)
         in if session_view st k = None
            then (session_view st)(k \<mapsto> (Room_getName rr st, lb_peerIdCounter st, None)) else session_view st)"
proof -
  have lob: "lobby_inv env st" and reg: "registered st" and tr: "transports_ok {} st" using inv by (simp_all add: server_inv_def)
  let ?pr = "st_next st"
  obtain st2 q where enter: "hello_enter now2 socket nick rr st = (st2, q)" by fastforce
  note e = enter_inv [OF lob room_below [OF lob room, THEN conjunct2] fits(1) enter]
  have reg2: "registered st2"
    by (rule registered_frame [OF reg e(6)]) (simp_all add: sessions_of_def e(5,13))
  have v2: "session_view st2 = session_view st"
    by (rule view_cong [OF e(5)]) (use sessionsD(4) [OF lob] in \<open>force simp: Room_getName_def e(10,13)\<close>)+
  show ?thesis
  proof (cases "Room_hasPeerCapacity rr st")
    case False
    with en enter e(1,2,4) tr reg2 v2 show ?thesis by (intro full) (auto simp: hello_enrol_def server_inv_def)
  next
    case True
    then have q: "q = Some ?pr" using e(4) by simp
    define st3 where "st3 = hello_file env token rr ?pr st2"
    have new: "sr_peer s \<noteq> ?pr" if "s \<in> sessions_of st2" for s
      using that sessionsD(4) [OF lob] by (force simp: sessions_of_def e(5))
    have proom: "p_room (st_peers st2 ?pr) = rr" by (simp add: e(10))
    note f = file_inv [OF e(1) e(11) [OF q] proom new, where token = token, folded st3_def]
    have "registered st3"
    proof (rule ccontr)
      assume "\<not> registered st3"
      then obtain s where s: "s \<in> sessions_of st3" "\<not> session_registered st3 s" by (auto simp: registered_def)
      have frame: "session_registered st3 t = session_registered st2 t" for t
        by (simp add: session_registered_def getRoom_def Room_getName_def f(7,9))
      with s reg2 have "s \<notin> sessions_of st2" by (auto simp: registered_def)
      with s(1) have "sr_room s = rr"
        by (auto simp: st3_def hello_file_def Let_def sessions_of_def um_emplace_def split: option.splits)
      with room have "session_registered st2 s"
        by (simp add: session_registered_def getRoom_def Room_getName_def e(6,13))
      with frame [of s] s(2) show False by blast
    qed
    moreover have "bound st3 socket ?pr" using f(4,5) by (simp add: bound_def f(6) e(10))
    ultimately have h3: "handover env socket ?pr st3"
      using f(1) f(2) [of "{?pr}"] e(2) [of "{}"] tr transports_mono by (auto simp: handover_def)
    obtain st4 x where w: "Room_welcomePeer env rr ?pr st3 = (st4, x)" by fastforce
    have "rm_sequencer (st_rooms st3 rr) \<noteq> - 1" using fits(2) by (simp add: f(7) e(12))
    then have "x = None"
      using w by (auto simp: Room_welcomePeer_def Let_def split: prod.splits sum.splits elim!: publishDurable_plain)
    then have "r = Inr (Some ?pr)" "st' = st4"
      using en enter q w by (simp_all add: hello_enrol_def st3_def)
    moreover have "session_view st4 = session_view st3"
      by (rule sound_view [OF sound_welcome [OF w]]) (use h3 in \<open>simp add: handover_def\<close>)
    moreover have "Room_getName rr st2 = Room_getName rr st" "p_peerId (st_peers st2 ?pr) = lb_peerIdCounter st"
      by (simp_all add: Room_getName_def e(10,13))
    ultimately show ?thesis
      using sound_handover [OF sound_welcome [OF w] h3] True
      by (intro enrolled) (simp_all add: f(8,10) e(7,8) v2 file_view [of env token rr ?pr st2, folded st3_def] Let_def
          cong: if_cong)
  qed
qed

section \<open>The end of a hello\<close>

text \<open>The capability of the page and what follows leave the membership and the transports alone.\<close>

lemma capability_sound:
  assumes "hello_capability capability pr st = (st', changed)"
  shows "sound env st st'" and "p_room (st_peers st' q) = p_room (st_peers st q)"
proof -
  obtain p where p: "Peer_setFileCapability (Some capability) (st_peers st pr) = (p, changed)" "st' = upd_peer pr p st"
    using assms by (auto simp: hello_capability_def split: prod.splits)
  then have c: "\<exists>c. p = (st_peers st pr)\<lparr>p_fileCapabilityId := c\<rparr>"
    by (auto simp: Peer_setFileCapability_def split: if_splits intro: exI [of _ "p_fileCapabilityId p"])
  show "sound env st st'" unfolding p(2) by (rule sound_upd_peer) (use c in auto)
  show "p_room (st_peers st' q) = p_room (st_peers st q)" using c by (auto simp: p(2))
qed

lemma withdraw_changed_sound:
  assumes "(if changed then Room_withdrawPeerFiles env rr pr st else (st, None)) = (st', thrown)"
    and "pr \<in> set (room_peers rr st)"
  shows "sound env st st'"
  using assms withdraw_sound [OF _ assms(2), of env st' thrown] by (cases changed) (simp_all add: sound_def keeps_def)

lemma finish_sound:
  assumes pr: "pr \<in> set (room_peers (p_room (st_peers st pr)) st)"
    and fin: "hello_finish env socket pr resumed cursor capability token st = (st', r)"
  shows "sound env (hello_listen socket pr st) st'"
proof -
  define st1 where "st1 = hello_listen socket pr st"
  obtain st2 changed where cap: "hello_capability capability pr st1 = (st2, changed)" by fastforce
  note c = capability_sound [OF cap]
  let ?rr = "p_room (st_peers st pr)"
  have rr: "p_room (st_peers st2 pr) = ?rr" by (simp add: c(2)) (simp add: st1_def hello_listen_def)
  obtain st3 thrown where w: "(if changed then Room_withdrawPeerFiles env ?rr pr st2 else (st2, None)) = (st3, thrown)"
    by fastforce
  have "rm_peerById (st_rooms st2 q) = rm_peerById (st_rooms st q)" for q
    using cap by (auto simp: hello_capability_def st1_def hello_listen_def split: prod.splits)
  then have "pr \<in> set (room_peers ?rr st2)" using pr by (simp add: room_peers_def)
  from sound_trans [OF c(1) withdraw_changed_sound [OF w this]] have s3: "sound env st1 st3" .
  note fin' = fin [unfolded hello_finish_def Let_def, folded st1_def, unfolded cap prod.case rr, unfolded w prod.case]
  have send: "sound env st1 (emit es (peer_send env pr m st3))" for es m
    by (rule sound_trans [OF sound_trans [OF s3 sound_send] sound_emit])
  have "sound env st1 st'"
  proof (cases "thrown = None \<and> resumed")
    case False
    with fin' s3 send show ?thesis by (cases thrown) auto
  next
    case True
    define st4 where "st4 = peer_send env pr (ready_message st3 pr resumed cursor token) st3"
    define st5 where "st5 = Room_publishConnectionState env ?rr pr True (emit [Count EVENT_PEER_RESUMED] st4)"
    have "sound env st1 st5"
      unfolding st5_def st4_def by (rule sound_trans [OF send sound_connection_state])
    moreover have "st' = (if \<not> changed then Peer_reissueOutstandingFileRequests env pr st5 else st5)"
      using True fin' by (simp add: st5_def st4_def split: if_splits)
    ultimately show ?thesis using sound_trans [OF _ sound_reissuePeer] by (simp split: if_splits)
  qed
  then show ?thesis by (simp add: st1_def)
qed

lemma finish_inv:
  assumes h: "handover env socket pr st" and l: "\<not> peer_listens st socket"
    and fin: "hello_finish env socket pr resumed cursor capability token st = (st', r)"
  shows "server_inv env st'" and "session_view st' = session_view st" and "lb_pending st' = lb_pending st"
proof -
  define st1 where "st1 = hello_listen socket pr st"
  have hd: "lobby_inv env st" "transports_ok {pr} st" "bound st socket pr" using h by (simp_all add: handover_def)
  note li = listen_inv [OF hd(1,2) l hd(3) singletonI, folded st1_def, simplified]
  have "registered st" using h by (simp add: handover_def)
  then have "registered st1" by (rule registered_frame) (simp_all add: st1_def hello_listen_def sessions_of_def)
  then have s1: "server_inv env st1"
    using li(1,3) by (simp add: server_inv_def)
  have snd: "sound env st1 st'"
    unfolding st1_def by (rule finish_sound [OF in_room_peers fin]) (use h in \<open>simp add: handover_def bound_def\<close>)
  from sound_server [OF this s1] show "server_inv env st'" .
  have "session_view st' = session_view st1" using sound_view [OF snd] s1 by (simp add: server_inv_def)
  also have "\<dots> = session_view st" by (rule view_cong) (simp_all add: st1_def hello_listen_def Room_getName_def)
  finally show "session_view st' = session_view st" .
  have "Heap.more st' = Heap.more st1"
    using sound_lobby(2) [OF snd] s1 by (simp add: server_inv_def keeps_def)
  from lobby_fields(3) [OF this] show "lb_pending st' = lb_pending st" by (simp add: st1_def hello_listen_def)
qed

text \<open>No counter is at its end: the identifiers are 63-bit, the messages of a room 64-bit.\<close>

definition counters_fit :: "Server \<Rightarrow> bool" where
  "counters_fit st \<longleftrightarrow> lb_peerIdCounter st < 2 ^ 63 - 1
     \<and> (\<forall>rr. rm_fileIdCounter (st_rooms st rr) + int Limits_filesPerPeer < 2 ^ 63
           \<and> rm_sequencer (st_rooms st rr) \<noteq> - 1)"

lemma openRoom_sequencer:
  assumes "hello_openRoom bytes roomName st = (st', r)"
    and "rm_sequencer (st_rooms st rr) \<noteq> - 1"
  shows "rm_sequencer (st_rooms st' rr) \<noteq> - 1" and "lb_listeners st' = lb_listeners st"
    and "lb_peerIdCounter st' = lb_peerIdCounter st" and "lb_pending st' = lb_pending st"
proof -
  have "st' = st \<or> (\<exists>r0. getOrCreateRoom roomName st = (st', r0))"
    using assms(1) by (auto simp: hello_openRoom_def split: option.splits prod.splits if_splits)
  then have "rm_sequencer (st_rooms st' rr) \<noteq> - 1 \<and> lb_listeners st' = lb_listeners st
    \<and> lb_peerIdCounter st' = lb_peerIdCounter st \<and> lb_pending st' = lb_pending st"
  proof (elim disjE exE)
    fix r0 assume "getOrCreateRoom roomName st = (st', r0)"
    then show ?thesis
      by (cases rule: getOrCreateRoom_cases) (use assms(2) in \<open>auto simp: Room_new_def RoomSequencer_new_def\<close>)
  qed (use assms(2) in simp)
  then show "rm_sequencer (st_rooms st' rr) \<noteq> - 1" "lb_listeners st' = lb_listeners st"
    "lb_peerIdCounter st' = lb_peerIdCounter st" "lb_pending st' = lb_pending st" by simp_all
qed

text \<open>A new session: its room, then its peer.\<close>

lemma new_session_cases:
  assumes inv: "server_inv env st" and fit: "counters_fit st" and l: "\<not> peer_listens st socket"
    and op: "hello_openRoom bytes roomName st = (st2, Some (token, rr))"
    and en: "hello_enrol env now2 socket nick token rr st2 = (st3, x)"
  obtains (full) "x = Inr None" "server_inv env st3" "session_view st3 = session_view st"
  | (enrolled) "x = Inr (Some (st_next st2))" "session_view st2 = session_view st" "Room_getName rr st2 = roomName"
      "handover env socket (st_next st2) st3" "\<not> peer_listens st3 socket" "lb_pending st3 = lb_pending st"
      "session_view st3 = (let k = digestKey (digestToken (env_sha256 env) token)
         in if session_view st k = None
            then (session_view st)(k \<mapsto> (roomName, lb_peerIdCounter st2, None)) else session_view st)"
proof -
  note oi = openRoom_inv [OF inv op]
  have seq: "rm_sequencer (st_rooms st rr) \<noteq> - 1" using fit by (simp add: counters_fit_def)
  note sq = openRoom_sequencer [OF op seq]
  have pid: "lb_peerIdCounter st2 < 2 ^ 63 - 1" using fit sq(3) by (simp add: counters_fit_def)
  from oi(1) oi(3) [OF refl, THEN conjunct1] pid sq(1) en show thesis
  proof (cases rule: enrol_cases)
    case full
    with oi(2) show thesis by (intro that(1)) simp_all
  next
    case enrolled
    have "\<not> peer_listens st3 socket" using l sq(2) enrolled(4) by (simp add: peer_listens_def)
    with enrolled oi(2) oi(4) [OF refl] sq(4) show thesis by (intro that(2)) (simp_all add: Let_def)
  qed
qed

text \<open>The three outcomes of a hello.\<close>

lemma acceptSessionHello_cases:
  assumes inv: "server_inv env st" and fit: "counters_fit st" and l: "\<not> peer_listens st socket"
    and acc: "acceptSessionHello env now now2 bytes socket roomName nick hello st = (st', r)"
  obtains (refused) "r = Inr None" "server_inv env st'" "session_view st' = session_view st"
  | (resumed) m cursor capability token pr st1 st2 where
      "hello_accepted hello = Some (m, cursor, capability)" "mb_resumeToken (msg_body m) = Some token"
      "hello_takePending now socket st = (st1, True)" "server_inv env st1" "session_view st1 = session_view st"
      "hello_resume env now now2 socket roomName token st1 = (st2, Some pr)"
      "handover env socket pr st2" "\<not> peer_listens st2 socket"
      "hello_finish env socket pr True cursor capability token st2 = (st', r)"
      "lb_pending st' = lb_pending st1"
  | (enrolled) m cursor capability token rr st1 st2 st3 where
      "hello_accepted hello = Some (m, cursor, capability)" "mb_resumeToken (msg_body m) = None"
      "hello_takePending now socket st = (st1, True)" "session_view st1 = session_view st"
      "hello_openRoom bytes roomName st1 = (st2, Some (token, rr))"
      "session_view st2 = session_view st" "Room_getName rr st2 = roomName"
      "hello_enrol env now2 socket nick token rr st2 = (st3, Inr (Some (st_next st2)))"
      "session_view st3 = (let k = digestKey (digestToken (env_sha256 env) token)
         in if session_view st k = None
            then (session_view st)(k \<mapsto> (roomName, lb_peerIdCounter st2, None)) else session_view st)"
      "handover env socket (st_next st2) st3" "\<not> peer_listens st3 socket"
      "hello_finish env socket (st_next st2) False cursor capability token st3 = (st', r)"
      "lb_pending st' = lb_pending st1"
proof (cases "hello_accepted hello")
  case None
  show thesis by (rule refused) (use acc inv None in \<open>simp_all add: acceptSessionHello_def\<close>)
next
  case (Some triple)
  then obtain m cursor capability where hello: "hello_accepted hello = Some (m, cursor, capability)"
    by (cases triple) auto
  have lob: "lobby_inv env st" and reg: "registered st" using inv by (simp_all add: server_inv_def)
  obtain st1 b where t: "hello_takePending now socket st = (st1, b)" by fastforce
  note ti = takePending_inv [OF lob t]
  have "registered st1" by (rule registered_frame [OF reg]) (simp_all add: ti sessions_of_def)
  with inv ti(1,2) have s1: "server_inv env st1" by (simp add: server_inv_def)
  have l1: "\<not> peer_listens st1 socket" using l ti(4) by (simp add: peer_listens_def)
  have v1: "session_view st1 = session_view st"
    by (rule view_cong [OF ti(8)]) (simp_all add: ti Room_getName_def)
  note acc' = acc [unfolded acceptSessionHello_def hello option.case prod.case t]
  show thesis
  proof (cases b)
    case False
    show thesis by (rule refused) (use acc' s1 v1 False in simp_all)
  next
    case True
    show thesis
    proof (cases "mb_resumeToken (msg_body m)")
      case (Some token)
      obtain st2 q where res: "hello_resume env now now2 socket roomName token st1 = (st2, q)" by fastforce
      note ri = resume_inv [OF s1 res]
      show thesis
      proof (cases q)
        case None
        show thesis by (rule refused) (use acc' True Some res ri(1) s1 v1 None in simp_all)
      next
        case q: (Some pr)
        have "\<not> peer_listens st2 socket" using l1 ri(3) by (simp add: peer_listens_def)
        moreover have fin: "hello_finish env socket pr True cursor capability token st2 = (st', r)"
          using t True res acc' Some q by simp
        ultimately show thesis
          using finish_inv(3) [OF ri(2) [OF q] _ fin] ri(4) t True res q
          by (intro resumed [OF hello Some _ s1 v1 _ ri(2) [OF q] _ fin]) simp_all
      qed
    next
      case None
      obtain st2 q where op: "hello_openRoom bytes roomName st1 = (st2, q)" by fastforce
      show thesis
      proof (cases q)
        case q: None
        show thesis
          by (rule refused) (use acc' True None op openRoom_inv(1,2) [OF s1 op] v1 q in simp_all)
      next
        case (Some tr)
        then obtain token rr where q: "q = Some (token, rr)" by (cases tr) simp
        have fit1: "counters_fit st1" using fit ti(5,6) by (simp add: counters_fit_def)
        obtain st3 x where en: "hello_enrol env now2 socket nick token rr st2 = (st3, x)" by fastforce
        from s1 fit1 l1 op [unfolded q] en show thesis
        proof (cases rule: new_session_cases)
          case full
          show thesis by (rule refused) (use acc' True None op q en full v1 in simp_all)
        next
          case en': enrolled
          have fin: "hello_finish env socket (st_next st2) False cursor capability token st3 = (st', r)"
            using acc' True None op q en en'(1) by simp
          show thesis
            by (rule enrolled [OF hello None _ v1 _ _ en'(3) _ _ en'(4,5) fin])
               (use True op q en en' t v1 finish_inv(3) [OF en'(4,5) fin] in \<open>simp_all add: Let_def\<close>)
        qed
      qed
    qed
  qed
qed

lemma acceptSessionHello_inv:
  assumes "server_inv env st" "counters_fit st" "\<not> peer_listens st socket"
    and "acceptSessionHello env now now2 bytes socket roomName nick hello st = (st', r)"
  shows "server_inv env st'"
  using assms
proof (cases rule: acceptSessionHello_cases)
  case resumed
  from finish_inv(1) [OF resumed(7-9)] show ?thesis .
next
  case enrolled
  from finish_inv(1) [OF enrolled(10-12)] show ?thesis .
qed

section \<open>Detaching and expiring\<close>

lemma registry_view:
  assumes inv: "lobby_inv env st" and reg: "detach_registry now pr st = (st', r)" and att: "attached st pr"
  shows "session_view st' = session_view st
    \<or> (\<exists>k room i. session_view st k = Some (room, i, None)
         \<and> session_view st' = (session_view st)(k \<mapsto> (room, i, Some (now + gracePeriod))))"
proof -
  note st' = registry_map(1) [OF inv reg]
  have view: "session_view st' k = map_option (\<lambda>s. (Room_getName (sr_room s) st,
      p_peerId (st_peers st (sr_peer s)), sr_lease (detach_lease now pr s))) (um_find (lb_sessions st) k)" for k
    by (simp add: session_view_def st' um_find_def map_of_map Room_getName_def option.map_comp comp_def)
  note old = session_view_def [of st]
  show ?thesis
  proof (cases "\<exists>k s. (k, s) \<in> set (lb_sessions st) \<and> sr_peer s = pr")
    case False
    then have "sr_peer s \<noteq> pr" if "um_find (lb_sessions st) k = Some s" for k s
      using um_find_SomeD [OF that] by auto
    then have "session_view st' = session_view st"
      by (auto simp: fun_eq_iff view old map_option_case split: option.split)
    then show ?thesis ..
  next
    case True
    then obtain k s where s: "(k, s) \<in> set (lb_sessions st)" "sr_peer s = pr" by blast
    have valid: "um_valid (lb_sessions st)" using inv by (simp add: lobby_inv_def sessions_ok_def)
    have here: "um_find (lb_sessions st) k = Some s" using s(1) by (simp add: um_find_in [OF valid])
    have "sr_lease s = None"
      using att s by (force simp: attached_def sessions_of_def SessionLease_disconnected_def)
    then have "session_view st k = Some (Room_getName (sr_room s) st, p_peerId (st_peers st pr), None)"
      using here s(2) by (simp add: session_view_def)
    moreover have "sr_peer t \<noteq> pr" if "um_find (lb_sessions st) j = Some t" "j \<noteq> k" for j t
      using session_unique [OF inv um_find_SomeD [OF that(1)] s(1)] that(2) s(2) by auto
    then have "session_view st' = (session_view st)(k \<mapsto>
        (Room_getName (sr_room s) st, p_peerId (st_peers st pr), Some (now + gracePeriod)))"
      using here s(2) by (auto simp: fun_eq_iff view old map_option_case split: option.split)
    ultimately show ?thesis by blast
  qed
qed

lemma detach_cases:
  obtains (stale) "detachSessionTransport env now socket st = st"
  | (detached) pr st1 st2 room where "detach_unbind socket st = (st1, Some pr)"
      "detach_registry now pr st1 = (st2, room)"
      "detachSessionTransport env now socket st = (case room of None \<Rightarrow> st2
         | Some rr \<Rightarrow> Room_publishConnectionState env rr pr False (emit [Count EVENT_PEER_DISCONNECTED] st2))"
proof -
  obtain st1 q where u: "detach_unbind socket st = (st1, q)" by fastforce
  show thesis
  proof (cases q)
    case None
    have "st1 = st" using u None by (cases rule: unbind_cases) simp_all
    then show thesis by (intro stale) (simp add: detachSessionTransport_def u None)
  next
    case (Some pr)
    obtain st2 room where "detach_registry now pr st1 = (st2, room)" by fastforce
    with u Some show thesis
      by (intro detached) (simp_all add: detachSessionTransport_def split: option.split)
  qed
qed

lemma sound_announce:
  "sound env st (case room of None \<Rightarrow> st
     | Some rr \<Rightarrow> Room_publishConnectionState env rr pr b (emit es st))"
  by (cases room) (simp_all add: sound_trans [OF sound_emit sound_connection_state])

lemma detach_inv:
  assumes inv: "server_inv env st"
  shows "server_inv env (detachSessionTransport env now socket st)"
    and "session_view (detachSessionTransport env now socket st) = session_view st
      \<or> (\<exists>k room i. session_view st k = Some (room, i, None)
           \<and> session_view (detachSessionTransport env now socket st)
             = (session_view st)(k \<mapsto> (room, i, Some (now + gracePeriod))))"
proof -
  have lob: "lobby_inv env st" and reg: "registered st" and tr: "transports_ok {} st" using inv by (simp_all add: server_inv_def)
  have "server_inv env (detachSessionTransport env now socket st)
    \<and> (session_view (detachSessionTransport env now socket st) = session_view st
      \<or> (\<exists>k room i. session_view st k = Some (room, i, None)
           \<and> session_view (detachSessionTransport env now socket st)
             = (session_view st)(k \<mapsto> (room, i, Some (now + gracePeriod)))))"
  proof (cases rule: detach_cases [of env now socket st])
    case stale
    with inv show ?thesis by simp
  next
    case (detached pr st1 st2 room)
    note u = unbind_inv [OF lob tr detached(1), simplified]
    note r = registry_detach_inv [OF u(1) detached(2) u(2,4)]
    have "registered st1" by (rule registered_frame [OF reg]) (simp_all add: u sessions_of_def)
    moreover have "sr_room ` sessions_of st2 \<subseteq> sr_room ` sessions_of st1"
      by (force simp: registry_map(1) [OF u(1) detached(2)] sessions_of_def)
    ultimately have "registered st2" by (intro registered_frame [of st1 st2]) (simp_all add: r)
    with r(1,2) have s2: "server_inv env st2" by (simp add: server_inv_def)
    have "session_view st1 = session_view st" by (rule view_cong) (simp_all add: u Room_getName_def)
    with registry_view [OF u(1) detached(2) u(5)] show ?thesis
      using sound_server [OF sound_announce s2] sound_view [OF sound_announce r(1)]
      by (simp add: detached(3))
  qed
  then show "server_inv env (detachSessionTransport env now socket st)"
    "session_view (detachSessionTransport env now socket st) = session_view st
      \<or> (\<exists>k room i. session_view st k = Some (room, i, None)
           \<and> session_view (detachSessionTransport env now socket st)
             = (session_view st)(k \<mapsto> (room, i, Some (now + gracePeriod))))" by simp_all
qed

lemma expire_session_inv:
  assumes inv: "server_inv env st" and m: "session_member st s"
    and gone: "\<forall>t \<in> sessions_of st. sr_peer t \<noteq> sr_peer s"
    and ex: "expire_session env s st = (st', r)"
  shows "server_inv env st'"
    and "session_member st t \<Longrightarrow> sr_peer t \<noteq> sr_peer s \<Longrightarrow> session_member st' t"
    and "lb_sessions st' = lb_sessions st" "lb_pending st' = lb_pending st"
    and "rm_peerById (st_rooms st' rr) = (if rr = sr_room s
       then um_erase (p_peerId (st_peers st (sr_peer s))) (rm_peerById (st_rooms st rr))
       else rm_peerById (st_rooms st rr))"
    and "p_peerId (st_peers st' pr) = p_peerId (st_peers st pr)" "rm_name (st_rooms st' rr) = rm_name (st_rooms st rr)"
proof -
  have lob: "lobby_inv env st" and reg: "registered st" and tr: "transports_ok {} st" using inv by (simp_all add: server_inv_def)
  define st1 where "st1 = Room_removePeerById (sr_room s) (p_peerId (st_peers st (sr_peer s))) st"
  note rem = remove_inv [OF lob m gone st1_def]
  note lf1 = lobby_fields [OF rem(5)]
  have "registered st1" by (rule registered_frame [OF reg]) (simp_all add: lf1 rem(8) sessions_of_def)
  with rem(1,2) tr have s1: "server_inv env st1" by (simp add: server_inv_def)
  obtain st2 e where g: "Room_goodbyePeer env (sr_room s) (sr_peer s) st1 = (st2, e)" by fastforce
  have s2: "server_inv env st2" by (rule sound_server [OF sound_goodbye [OF g] s1])
  have k: "keeps st1 st2" by (rule sound_lobby(2) [OF sound_goodbye [OF g] rem(1)])
  then have lf: "lb_sessions st2 = lb_sessions st" "lb_pending st2 = lb_pending st"
    using lobby_fields [of st2 st] rem(5) by (simp_all add: keeps_def)
  have st': "st' = st2 \<or> st' = deleteRoomIfEmpty (sr_room s) (emit [Count EVENT_SESSION_EXPIRED] st2)"
    using ex g by (auto simp: expire_session_def st1_def Let_def split: option.splits)
  then show "server_inv env st'"
    using s2 deleteRoom_server [OF sound_server [OF sound_emit s2]] by auto
  have heap2: "st_rooms st' = st_rooms st2" "st_peers st' = st_peers st2" "lb_sessions st' = lb_sessions st2"
    "lb_pending st' = lb_pending st2" using st' by auto
  then show "lb_sessions st' = lb_sessions st" "lb_pending st' = lb_pending st" using lf by simp_all
  show "rm_peerById (st_rooms st' rr) = (if rr = sr_room s
       then um_erase (p_peerId (st_peers st (sr_peer s))) (rm_peerById (st_rooms st rr))
       else rm_peerById (st_rooms st rr))" using k rem(6) [of rr] by (simp add: heap2 keeps_def)
  show "p_peerId (st_peers st' pr) = p_peerId (st_peers st pr)"
    using k rem(7) [of pr] by (simp add: heap2 keeps_def)
  show "rm_name (st_rooms st' rr) = rm_name (st_rooms st rr)"
    using k rem(8) [of rr] by (simp add: heap2 keeps_def)
  show "session_member st' t" if "session_member st t" "sr_peer t \<noteq> sr_peer s"
    using rem(4) [OF that] k by (simp add: session_member_def heap2 keeps_def)
qed

lemma erase_member:
  assumes h: "heap_inv env st" and m: "session_member st s"
  shows "(if rr = sr_room s then um_erase (p_peerId (st_peers st (sr_peer s))) (rm_peerById (st_rooms st rr))
      else rm_peerById (st_rooms st rr))
    = filter (\<lambda>e. snd e \<noteq> sr_peer s) (rm_peerById (st_rooms st rr))"
proof -
  let ?ps = "rm_peerById (st_rooms st rr)"
  have valid: "um_valid ?ps" using heap_invD(1) [OF h, of rr] by (simp add: files_ok_def)
  have entry: "p_peerId (st_peers st q) = i \<and> p_room (st_peers st q) = rr" if "(i, q) \<in> set ?ps" for i q
    using heap_invD(2) [OF h, of rr] that by (auto simp: members_ok_def)
  show ?thesis
  proof (cases "rr = sr_room s")
    case True
    have "(fst e \<noteq> p_peerId (st_peers st (sr_peer s))) = (snd e \<noteq> sr_peer s)" if "e \<in> set ?ps" for e
    proof -
      obtain i q where e: "e = (i, q)" by fastforce
      have "um_find ?ps i = Some q" using that e um_find_in [OF valid] by simp
      moreover have "um_find ?ps (p_peerId (st_peers st (sr_peer s))) = Some (sr_peer s)"
        using m True by (simp add: session_member_def)
      moreover have "p_peerId (st_peers st q) = i" using entry that e by simp
      ultimately show ?thesis unfolding e fst_conv snd_conv by (metis option.inject)
    qed
    then have "um_erase (p_peerId (st_peers st (sr_peer s))) ?ps = filter (\<lambda>e. snd e \<noteq> sr_peer s) ?ps"
      unfolding um_erase_def by (intro filter_cong) simp_all
    then show ?thesis unfolding if_P [OF True] .
  next
    case False
    then have "snd e \<noteq> sr_peer s" if "e \<in> set ?ps" for e
      using entry [of "fst e" "snd e"] that session_peer(2) [OF h m] by auto
    with False show ?thesis by (simp add: filter_id_conv)
  qed
qed

lemma expire_all_inv:
  assumes "server_inv env st" and "\<forall>s \<in> set ss. session_member st s"
    and "distinct (map sr_peer ss)" "\<forall>t \<in> sessions_of st. sr_peer t \<notin> sr_peer ` set ss"
    and "expire_all env ss st = (st', r)"
  shows "server_inv env st' \<and> lb_sessions st' = lb_sessions st \<and> lb_pending st' = lb_pending st
    \<and> (\<forall>pr. p_peerId (st_peers st' pr) = p_peerId (st_peers st pr))
    \<and> (\<forall>rr. rm_name (st_rooms st' rr) = rm_name (st_rooms st rr))
    \<and> (r = None \<longrightarrow> (\<forall>rr. rm_peerById (st_rooms st' rr)
         = filter (\<lambda>e. snd e \<notin> sr_peer ` set ss) (rm_peerById (st_rooms st rr))))"
  using assms
proof (induction ss arbitrary: st)
  case (Cons s ss)
  obtain st1 r1 where e: "expire_session env s st = (st1, r1)" by fastforce
  have m: "session_member st s" and gone: "\<forall>t \<in> sessions_of st. sr_peer t \<noteq> sr_peer s"
    using Cons.prems by auto
  note x = expire_session_inv [OF Cons.prems(1) m gone e]
  have heap: "heap_inv env st" using Cons.prems(1) by (simp add: server_inv_def lobby_inv_def)
  show ?case
  proof (cases r1)
    case (Some exc)
    with Cons.prems(5) e have "st' = st1" "r \<noteq> None" by auto
    with x(1,3,4,6,7) show ?thesis by auto
  next
    case None
    have rest: "expire_all env ss st1 = (st', r)" using Cons.prems(5) e None by simp
    have "session_member st1 t" if "t \<in> set ss" for t
    proof -
      have "sr_peer s \<notin> sr_peer ` set ss" using Cons.prems(3) by simp
      with that have "sr_peer t \<noteq> sr_peer s" by (metis image_eqI)
      with x(2) Cons.prems(2) that show ?thesis by simp
    qed
    then have IH: "server_inv env st' \<and> lb_sessions st' = lb_sessions st1 \<and> lb_pending st' = lb_pending st1
      \<and> (\<forall>pr. p_peerId (st_peers st' pr) = p_peerId (st_peers st1 pr))
      \<and> (\<forall>rr. rm_name (st_rooms st' rr) = rm_name (st_rooms st1 rr))
      \<and> (r = None \<longrightarrow> (\<forall>rr. rm_peerById (st_rooms st' rr)
         = filter (\<lambda>e. snd e \<notin> sr_peer ` set ss) (rm_peerById (st_rooms st1 rr))))"
      by (intro Cons.IH [OF x(1) _ _ _ rest]) (use Cons.prems(3,4) x(3) in \<open>auto simp: sessions_of_def\<close>)
    have "rm_peerById (st_rooms st1 rr) = filter (\<lambda>e. snd e \<noteq> sr_peer s) (rm_peerById (st_rooms st rr))" for rr
      using x(5) [of rr] erase_member [OF heap m, of rr] by simp
    with IH show ?thesis
      by (simp add: x(3,4,6,7) conj_commute)
  qed
qed simp

text \<open>The two registries without what is over.\<close>

definition swept :: "time \<Rightarrow> Server \<Rightarrow> Server" where
  "swept now st = (case expire_collect now st of (st, sockets, _) \<Rightarrow> emit (map Invalidate sockets) st)"

lemma expireSessions_swept:
  "expireSessions env now st = expire_all env (expired_sessions now st) (swept now st)"
  by (simp add: expireSessions_def swept_def expire_collect_def expired_sessions_def Let_def)

lemma swept_sel [simp]:
  "st_peers (swept now st) = st_peers st" "st_rooms (swept now st) = st_rooms st"
  "lb_rooms (swept now st) = lb_rooms st"
  "lb_sessions (swept now st) = filter (\<lambda>e. \<not> lease_over now e) (lb_sessions st)"
  "lb_pending (swept now st) = filter (\<lambda>e. now < pr_deadline (snd e)) (lb_pending st)"
  by (simp_all add: swept_def expire_collect_def Let_def not_le)

lemma swept_inv:
  assumes inv: "server_inv env st"
  shows "server_inv env (swept now st)"
    and "\<forall>s \<in> set (expired_sessions now st). session_member (swept now st) s"
    and "distinct (map sr_peer (expired_sessions now st))"
    and "\<forall>t \<in> sessions_of (swept now st). sr_peer t \<notin> sr_peer ` set (expired_sessions now st)"
proof -
  obtain st1 sockets ss where col: "expire_collect now st = (st1, sockets, ss)" by (metis prod_cases3)
  have lob: "lobby_inv env st" and reg: "registered st" and tr: "transports_ok {} st" using inv by (simp_all add: server_inv_def)
  note c = collect_inv [OF lob tr _ col, simplified]
  have swept: "swept now st = emit (map Invalidate sockets) st1" by (simp add: swept_def col)
  have "sr_room ` sessions_of st1 \<subseteq> sr_room ` sessions_of st" by (auto simp: sessions_of_def c)
  then have "registered st1" by (rule registered_frame [OF reg, rotated -1]) (simp_all add: c)
  with c(1,2) have "server_inv env st1" by (simp add: server_inv_def)
  then show "server_inv env (swept now st)" unfolding swept by (rule sound_server [OF sound_emit])
  show "\<forall>s \<in> set (expired_sessions now st). session_member (swept now st) s"
    using c(4,5) by (simp add: swept session_member_def)
  show "distinct (map sr_peer (expired_sessions now st))" using c(4,6) by simp
  show "\<forall>t \<in> sessions_of (swept now st). sr_peer t \<notin> sr_peer ` set (expired_sessions now st)"
    using c(4,7) by (simp add: swept sessions_of_def)
qed

lemma expireSessions_inv:
  assumes inv: "server_inv env st" and ex: "expireSessions env now st = (st', r)"
  shows "server_inv env st'"
    and "lb_sessions st' = filter (\<lambda>e. \<not> lease_over now e) (lb_sessions st)"
    and "lb_pending st' = filter (\<lambda>e. now < pr_deadline (snd e)) (lb_pending st)"
    and "p_peerId (st_peers st' pr) = p_peerId (st_peers st pr)"
    and "rm_name (st_rooms st' rr) = rm_name (st_rooms st rr)"
    and "r = None \<Longrightarrow> rm_peerById (st_rooms st' rr) =
       filter (\<lambda>e. \<forall>s \<in> set (lb_sessions st). lease_over now s \<longrightarrow> sr_peer (snd s) \<noteq> snd e)
         (rm_peerById (st_rooms st rr))"
proof -
  note x = expire_all_inv [OF swept_inv [OF inv] ex [unfolded expireSessions_swept]]
  show "server_inv env st'" "lb_sessions st' = filter (\<lambda>e. \<not> lease_over now e) (lb_sessions st)"
    "lb_pending st' = filter (\<lambda>e. now < pr_deadline (snd e)) (lb_pending st)"
    "p_peerId (st_peers st' pr) = p_peerId (st_peers st pr)" "rm_name (st_rooms st' rr) = rm_name (st_rooms st rr)"
    using x by simp_all
  show "rm_peerById (st_rooms st' rr) =
       filter (\<lambda>e. \<forall>s \<in> set (lb_sessions st). lease_over now s \<longrightarrow> sr_peer (snd s) \<noteq> snd e)
         (rm_peerById (st_rooms st rr))" if "r = None"
    using x that by (auto simp: expired_sessions_def image_iff intro!: filter_cong) blast
qed

end
