(* ===== verification/ServerRuns.thy ===== *)
theory ServerRuns
  imports Server
begin

text \<open>
  Runs of the server: the step relation of \<^verbatim>\<open>Lobby.cpp\<close> and the objects below it, its reachable
  states, and the refinement of an abstract directory of sessions.
  A step is one call of a listener, one executor step of a coroutine, or one iteration of the
  maintenance loop, on any state; \<open>InterleavedRuns\<close> takes the calls of the lobby apart.
\<close>

section \<open>Steps\<close>

text \<open>The destructor of a room counts it, once no registry holds it any more.\<close>

definition Room_destroy :: "Server \<Rightarrow> Server" where
  "Room_destroy st = emit [Count EVENT_ROOM_DELETED] st"

text \<open>What a step may do to the sessions depends on its kind, on the clock it reads and, for a hello, on the
  room its transport asked for.\<close>

datatype ServerAction =
    SessionHello time string
  | SessionExpiry time
  | TransportDestroyed time
  | OtherAction

inductive server_step :: "Env \<Rightarrow> ServerAction \<Rightarrow> Server \<Rightarrow> Server \<Rightarrow> bool" for env where
  connect: "lb_listeners st socket = None \<Longrightarrow> um_find (lb_pending st) socket = None \<Longrightarrow>
     server_step env OtherAction st (onAfterCreate now socket roomName nickname st)"
| hello_frame: "lb_listeners st socket = Some (PendingHelloListener h) \<Longrightarrow>
     PendingHello_readMessage env now now2 bytes socket h frame st = (st', r) \<Longrightarrow> server_step env (SessionHello now (h_roomName h)) st st'"
| peer_frame: "lb_listeners st socket = Some (PeerListener pr) \<Longrightarrow>
     Peer_readMessage env now tick pr socket frame st = (st', r) \<Longrightarrow> server_step env OtherAction st st'"
| transport: "\<not> handoff_event e \<Longrightarrow>
     server_step env OtherAction st (peer_do pr (Peer_step (env_jsonBytes env) e) st)"
| sweep: "server_step env OtherAction st (runPingIteration now st)"
| expire: "expireSessions env now st = (st', r) \<Longrightarrow> server_step env (SessionExpiry now) st st'"
| destroy: "server_step env (TransportDestroyed now) st (onBeforeDestroy env now socket st)"
| subscribe: "File_subscribe_at fr st = (st', s) \<Longrightarrow> server_step env OtherAction st st'"
| read_chunk: "Subscriber_readChunk_at env sub n st = (st', x) \<Longrightarrow> server_step env OtherAction st st'"
| end_download: "server_step env OtherAction st (Subscriber_destroy sub st)"
| free_peer: "\<forall>s \<in> snd ` set (lb_sessions st). sr_peer s \<noteq> pr \<Longrightarrow> \<forall>rr. pr \<notin> set (room_peers rr st) \<Longrightarrow>
     server_step env OtherAction st (st\<lparr>st_peerAlive := (st_peerAlive st)(pr := False)\<rparr>)"
| free_room: "rr \<notin> snd ` set (lb_rooms st) \<Longrightarrow> server_step env OtherAction st (Room_destroy st)"

text \<open>The abstract directory: what a client may rely on about its session.\<close>

inductive directory_step :: "ServerAction \<Rightarrow>
   (string \<Rightarrow> (string \<times> int \<times> SessionLease) option) \<Rightarrow>
   (string \<Rightarrow> (string \<times> int \<times> SessionLease) option) \<Rightarrow> bool" where
  idle: "\<forall>now. a \<noteq> SessionExpiry now \<Longrightarrow> directory_step a d d"
| enrol: "d k = None \<Longrightarrow> directory_step (SessionHello now room) d (d(k \<mapsto> (room, i, None)))"
| resume: "d k = Some (room, i, Some deadline) \<Longrightarrow> now < deadline \<Longrightarrow>
     directory_step (SessionHello now room) d (d(k \<mapsto> (room, i, None)))"
| detach: "d k = Some (room, i, None) \<Longrightarrow>
     directory_step (TransportDestroyed now) d (d(k \<mapsto> (room, i, Some (now + gracePeriod))))"
| expire: "directory_step (SessionExpiry now) d (\<lambda>k. case d k of
       Some (room, i, lease) \<Rightarrow> if SessionLease_expires now lease then None else d k
     | None \<Rightarrow> None)"

inductive reachable :: "Env \<Rightarrow> Server \<Rightarrow> bool" for env where
  start: "reachable env Server_new"
| step: "reachable env st \<Longrightarrow> counters_fit st \<Longrightarrow> server_step env a st st' \<Longrightarrow> reachable env st'"

text \<open>Read backwards: what a step of each kind has done to the directory.\<close>

inductive_cases directory_otherE: "directory_step OtherAction d d'"
inductive_cases directory_expiryE: "directory_step (SessionExpiry now) d d'"

lemma directory_other: "directory_step OtherAction d d' \<longleftrightarrow> d' = d"
  by (auto elim: directory_otherE intro: directory_step.idle)

lemma directory_expiry: "directory_step (SessionExpiry now) d d' \<longleftrightarrow> (\<forall>k. d' k = (case d k of
     Some (room, i, lease) \<Rightarrow> if SessionLease_expires now lease then None else d k | None \<Rightarrow> None))"
proof
  assume "\<forall>k. d' k = (case d k of
     Some (room, i, lease) \<Rightarrow> if SessionLease_expires now lease then None else d k | None \<Rightarrow> None)"
  then have "d' = (\<lambda>k. case d k of
     Some (room, i, lease) \<Rightarrow> if SessionLease_expires now lease then None else d k | None \<Rightarrow> None)" by auto
  then show "directory_step (SessionExpiry now) d d'" by (simp add: directory_step.expire)
qed (auto elim: directory_expiryE)

lemma directory_identity:
  "directory_step a d d' \<Longrightarrow> d k = Some (room, i, lease) \<Longrightarrow>
     d' k = None \<and> lease \<noteq> None \<or> (\<exists>lease'. d' k = Some (room, i, lease'))"
proof (induction rule: directory_step.induct)
  case (expire now d)
  then show ?case by (cases lease) (simp_all add: SessionLease_expires_def)
qed (auto split: if_splits)

section \<open>Preservation\<close>

lemma pending_readMessage_cases:
  assumes "PendingHello_readMessage env now now2 bytes socket h frame st = (st', r)"
  obtains (dropped) "st' = emit [Invalidate socket] st"
  | (more) "frame \<noteq> []" "st' = set_pending_hello socket (h\<lparr>h_buffer := h_buffer h @ frame\<rparr>) st"
  | (unread) "frame = []" "st' = set_pending_hello socket (h\<lparr>h_consumed := True\<rparr>) st"
  | (hello) hello r0 where "\<not> h_consumed h" "frame = []"
      "env_readFromString env (h_buffer h) = Inr hello"
      "acceptSessionHello env now now2 bytes socket (h_roomName h) (h_nickname h) hello
         (set_pending_hello socket (h\<lparr>h_consumed := True\<rparr>) st) = (st', r0)"
proof (cases "h_consumed h \<or> frame \<noteq> []")
  case True
  show thesis
  proof (cases "h_consumed h \<or> frame_too_large env (h_buffer h) frame")
    case True
    show thesis
      by (rule dropped) (use True \<open>_ \<or> frame \<noteq> []\<close> assms in
          \<open>auto simp: PendingHello_readMessage_def split: if_splits\<close>)
  next
    case False
    show thesis
      by (rule more) (use False \<open>_ \<or> frame \<noteq> []\<close> assms in
          \<open>auto simp: PendingHello_readMessage_def split: if_splits\<close>)
  qed
next
  case False
  show thesis
  proof (cases "env_readFromString env (h_buffer h)")
    case (Inl e)
    show thesis
      by (rule unread) (use False Inl assms in
          \<open>auto simp: PendingHello_readMessage_def Let_def split: if_splits\<close>)
  next
    case (Inr m)
    obtain st1 r1 where a: "acceptSessionHello env now now2 bytes socket (h_roomName h) (h_nickname h) m
        (set_pending_hello socket (h\<lparr>h_consumed := True\<rparr>) st) = (st1, r1)" by fastforce
    have "st1 = st'"
      using False Inr a assms
      by (auto simp: PendingHello_readMessage_def Let_def split: if_splits sum.splits option.splits)
    with a False show thesis by (intro hello [OF _ _ Inr, of r1]) simp_all
  qed
qed

lemma set_pending_fields [simp]:
  "lb_sessions (set_pending_hello socket h st) = lb_sessions st"
  "lb_pending (set_pending_hello socket h st) = lb_pending st"
  "lb_peerIdCounter (set_pending_hello socket h st) = lb_peerIdCounter st"
  "st_rooms (set_pending_hello socket h st) = st_rooms st"
  "st_peers (set_pending_hello socket h st) = st_peers st"
  by (simp_all add: set_pending_hello_def)

text \<open>One hello in the directory.\<close>

lemma hello_directory:
  assumes "server_inv env st" "counters_fit st" "\<not> peer_listens st socket"
    and "acceptSessionHello env now now2 bytes socket roomName nick hello st = (st', r)"
  shows "directory_step (SessionHello now roomName) (session_view st) (session_view st')"
  using assms
proof (cases rule: acceptSessionHello_cases)
  case refused
  then show ?thesis by (simp add: directory_step.idle)
next
  case (resumed m cursor capability token pr st1 st2)
  from resume_inv(5) [OF resumed(4,6) refl] obtain i deadline where
    "now < deadline" "session_view st1 (digestKey (digestToken (env_sha256 env) token)) = Some (roomName, i, Some deadline)"
    "session_view st2 = (session_view st1)(digestKey (digestToken (env_sha256 env) token) \<mapsto> (roomName, i, None))"
    by blast
  with finish_inv(2) [OF resumed(7-9)] resumed(5) show ?thesis
    by (simp add: directory_step.resume)
next
  case enrolled
  with finish_inv(2) [OF enrolled(10-12)] show ?thesis
    by (simp add: Let_def directory_step.idle directory_step.enrol)
qed

lemma counters_pending: "counters_fit (set_pending_hello socket h st) = counters_fit st"
  by (simp add: counters_fit_def)

lemma sound_directory:
  "sound env st st' \<Longrightarrow> server_inv env st \<Longrightarrow> \<forall>now. a \<noteq> SessionExpiry now \<Longrightarrow>
     server_inv env st' \<and> directory_step a (session_view st) (session_view st')"
  using sound_server [of env st st'] sound_view [of env st st']
  by (simp add: server_inv_def directory_step.idle)

lemma sound_ping_iteration: "sound env st (runPingIteration now st)"
  unfolding runPingIteration_def by (rule sound.loop) simp

lemma sound_alive: "sound env st (st\<lparr>st_peerAlive := a\<rparr>)"
  by (rule soundI) (auto simp: room_view_same_def)

text \<open>An expiry in the directory.\<close>

lemma um_find_filter:
  "um_valid m \<Longrightarrow> um_find (filter P m) k = (case um_find m k of None \<Rightarrow> None | Some v \<Rightarrow> if P (k, v) then Some v else None)"
  by (induction m) (auto simp: um_find_def um_valid_def map_of_eq_None_iff image_iff split: option.split)

lemma expired_view:
  assumes "um_valid (lb_sessions st)" "lb_sessions st' = filter (\<lambda>e. \<not> lease_over now e) (lb_sessions st)"
    and "\<And>rr. rm_name (st_rooms st' rr) = rm_name (st_rooms st rr)"
    and "\<And>pr. p_peerId (st_peers st' pr) = p_peerId (st_peers st pr)"
  shows "session_view st' k = (case session_view st k of
       Some (room, i, lease) \<Rightarrow> if SessionLease_expires now lease then None else session_view st k
     | None \<Rightarrow> None)"
  by (simp add: session_view_def assms(2-4) um_find_filter [OF assms(1)] lease_over_def Room_getName_def split: option.split)

lemma step_preserves:
  assumes "server_step env a st st'" and inv: "server_inv env st" and fit: "counters_fit st"
  shows "server_inv env st' \<and> directory_step a (session_view st) (session_view st')"
  using assms(1)
proof cases
  case (connect socket now roomName nickname)
  note p = connect_server [OF inv connect(4), of "now + seconds 10"]
  from set_pending_server [OF p, of socket] connect(3) show ?thesis
    by (simp add: connect(1,2) onAfterCreate_def Let_def peer_listens_def directory_step.idle)
next
  case (hello_frame socket h now now2 bytes frame r)
  have l: "\<not> peer_listens st socket" using hello_frame(2) by (simp add: peer_listens_def)
  note p = set_pending_server [OF inv l]
  from hello_frame(3) show ?thesis
  proof (cases rule: pending_readMessage_cases)
    case dropped
    with sound_directory [OF sound_emit inv, where a = a] show ?thesis by (simp add: hello_frame(1))
  next
    case more
    with p show ?thesis by (simp add: hello_frame(1) directory_step.idle)
  next
    case unread
    with p show ?thesis by (simp add: hello_frame(1) directory_step.idle)
  next
    case (hello m r0)
    let ?st1 = "set_pending_hello socket (h\<lparr>h_consumed := True\<rparr>) st"
    have s1: "server_inv env ?st1" "session_view ?st1 = session_view st" by (rule p)+
    have f1: "counters_fit ?st1" using fit by (simp add: counters_pending)
    have l1: "\<not> peer_listens ?st1 socket" by (rule set_pending_hello_inv(3) [OF l])
    show ?thesis
      using acceptSessionHello_inv [OF s1(1) f1 l1 hello(4)] hello_directory [OF s1(1) f1 l1 hello(4)] s1(2)
      by (simp add: hello_frame(1))
  qed
next
  case (peer_frame socket pr now tick frame r)
  have "rm_fileIdCounter (st_rooms st (p_room (st_peers st pr))) + int Limits_filesPerPeer < 2 ^ 63"
    using fit by (simp add: counters_fit_def)
  from sound_directory [OF sound_readMessage [OF this peer_frame(3)] inv, where a = a] show ?thesis by (simp add: peer_frame(1))
next
  case (transport e pr)
  with sound_directory [OF sound_transport_step [OF transport(3)] inv, where a = a] show ?thesis by (simp add: transport)
next
  case (sweep now)
  with sound_directory [OF sound_ping_iteration inv, where a = a] show ?thesis by (simp add: sweep)
next
  case (expire now r)
  note x = expireSessions_inv [OF inv expire(2)]
  have "um_valid (lb_sessions st)" using inv by (simp add: server_inv_def lobby_inv_def sessions_ok_def)
  from expired_view [OF this x(2,5,4)] have "directory_step (SessionExpiry now) (session_view st) (session_view st')"
    by (simp add: directory_expiry)
  with x(1) show ?thesis by (simp add: expire(1))
next
  case (destroy now socket)
  note p = erase_pending_server [OF inv, of socket]
  from detach_inv [OF p, of now socket] show ?thesis
    unfolding destroy onBeforeDestroy_def view_pending
    by (auto simp: directory_step.idle intro: directory_step.detach)
next
  case (subscribe fr s)
  with sound_directory [OF sound_subscribe [OF subscribe(2)] inv, where a = a] show ?thesis by (simp add: subscribe(1))
next
  case (read_chunk sub n x)
  with sound_directory [OF sound_readChunk [OF read_chunk(2)] inv, where a = a] show ?thesis by (simp add: read_chunk(1))
next
  case (end_download sub)
  with sound_directory [OF sound_destroySubscriber inv, where a = a] show ?thesis by (simp add: end_download)
next
  case (free_peer pr)
  with sound_directory [OF sound_alive inv, where a = a] show ?thesis by (simp add: free_peer)
next
  case (free_room rr)
  with sound_directory [OF sound_emit inv, where a = a] show ?thesis by (simp add: free_room Room_destroy_def)
qed

lemma reachable_inv: "reachable env st \<Longrightarrow> server_inv env st"
  by (induction rule: reachable.induct) (simp_all add: server_inv_new step_preserves)

end
