(* ===== verification/Tallies.thy ===== *)
theory Tallies
  imports ServerRuns
begin

text \<open>
  The four counters that account for sessions (connected, resumed, disconnected, expired), and the frame
  \<open>tallied\<close>: an operation that leaves them alone. One lemma per operation of the peer, room and file
  components; \<open>Accounting\<close> follows them through the lobby.
\<close>

section \<open>Counters that only sessions touch\<close>

definition session_events :: "Counter set" where
  "session_events = {EVENT_PEER_CONNECTED, EVENT_PEER_RESUMED, EVENT_PEER_DISCONNECTED, EVENT_SESSION_EXPIRED}"

definition plain :: "Effect list \<Rightarrow> bool" where
  "plain es \<longleftrightarrow> (\<forall>c \<in> session_events. Count c \<notin> set es)"

lemma plain_simps [simp]:
  "plain []" "plain (es @ fs) = (plain es \<and> plain fs)"
  "plain (Count c # es) = (c \<notin> session_events \<and> plain es)" "plain (Invalidate s # es) = plain es"
  "plain (WriteText s m # es) = plain es" "plain (WriteClose s # es) = plain es"
  "plain (WritePing s # es) = plain es" "plain (WritePong s d # es) = plain es"
  by (auto simp: plain_def)

lemma plain_map_count [simp]: "c \<notin> session_events \<Longrightarrow> plain (map (\<lambda>_. Count c) xs)"
  by (auto simp: plain_def)

lemma other_events [simp]:
  "EVENT_PEER_TRANSPORT_CLOSED \<notin> session_events" "EVENT_PEER_ZOMBIE_DROPPED \<notin> session_events"
  "EVENT_PEER_SEND_MESSAGE \<notin> session_events" "EVENT_PEER_SHARE_FILE \<notin> session_events"
  "EVENT_ROOM_CREATED \<notin> session_events" "EVENT_ROOM_DELETED \<notin> session_events"
  by (simp_all add: session_events_def)

lemma counted: "Count c \<notin> set es \<Longrightarrow> fold apply_effect es m c = m c"
proof (induction es arbitrary: m)
  case (Cons e es)
  then show ?case by (cases e) (auto simp: counter_add_def)
qed simp

definition tallied :: "'z Heap_scheme \<Rightarrow> 'z Heap_scheme \<Rightarrow> bool" where
  "tallied st st' \<longleftrightarrow> (\<forall>c \<in> session_events. st_counters st' c = st_counters st c)"

interpretation tallied: frame_relation tallied
  by unfold_locales (auto simp: tallied_def)

lemma tallied_same: "st_counters st' = st_counters st \<Longrightarrow> tallied st st'"
  by (simp add: tallied_def)

lemma tallied_refl [simp]: "tallied st st"
  by (simp add: tallied_def)

lemma tallied_upd [simp]:
  "tallied st (upd_peer r p st)" "tallied st (upd_room r rm st)" "tallied st (upd_file r f st)"
  "tallied st (upd_subscriber r s st)"
  by (simp_all add: tallied_def)

lemma tallied_emit: "plain es \<Longrightarrow> tallied st (emit es st)"
  by (auto simp: tallied_def emit_def plain_def counted)

lemma tallied_peer_do: "plain (snd (f (st_peers st r))) \<Longrightarrow> tallied st (peer_do r f st)"
  by (auto simp: peer_do_def split: prod.splits intro: tallied.frame_trans [OF tallied_upd(1) tallied_emit])

text \<open>The effects of a transport.\<close>

lemma plain_close [simp]: "plain (close_effects s b)"
  by (simp add: close_effects_def split: option.split)

lemma plain_drainStep: "plain (snd (Peer_drainStep jb i p))"
  by (auto simp: Peer_drainStep_def split: prod.splits option.splits)

lemma plain_send: "plain (snd (Peer_sendMessageAsync jb m p))"
  by (auto simp: Peer_sendMessageAsync_def Let_def invalidateIf_pair split: option.split)

lemma plain_starter [simp]: "plain (starter_effects s)"
  by (auto simp: starter_effects_def split: Starter.split option.split)

lemma plain_step: "plain (snd (Peer_step jb e p))"
proof -
  obtain q es where s: "Peer_step jb e p = (q, es)" by fastforce
  consider m where "e = PeerSend m" | i where "e = PeerDrain i" | i where "e = PeerDrainError i"
    | "\<not> queue_event e" by (cases e) auto
  then show ?thesis
  proof cases
    case (3 i)
    with s have "Peer_drainError jb i p = (q, es)" by simp
    then have "plain es"
    proof (cases rule: drainError_cases)
      case (stale f)
      with plain_drainStep [of jb i p] show ?thesis by simp
    next
      case (current f fs)
      with plain_drainStep [of jb i "closing WRITE_ERROR p"] show ?thesis by simp
    qed simp
    then show ?thesis by (simp add: s)
  next
    case 4
    then show ?thesis
      by (cases e) (auto simp: peer_transport_defs Let_def split: prod.splits option.splits if_splits)
  qed (simp_all add: plain_send plain_drainStep)
qed

lemma tallied_send [simp]: "tallied st (peer_send env pr m st)"
  by (simp add: peer_send_def tallied_peer_do plain_send)

lemma tallied_send_opt [simp]: "tallied st (peer_send_opt env pr m st)"
  by (simp add: peer_send_opt_def split: option.split)

lemma tallied_broadcast [simp]: "tallied st (Room_sendMessageAsync env rr m ex st)"
  unfolding Room_sendMessageAsync_def by (rule tallied.loop) simp

lemma tallied_connection_state [simp]: "tallied st (Room_publishConnectionState env rr pr b st)"
  by (simp add: Room_publishConnectionState_def)

lemma tallied_ack [simp]: "tallied st (Peer_sendMessageAck env pr c n st)"
  by (simp add: Peer_sendMessageAck_def)

lemma tallied_apiError: "Peer_onApiError pr e c st = (st', r) \<Longrightarrow> tallied st st'"
  using plain_step [of undefined PeerProtocolError] by (auto simp: Peer_onApiError_def Let_def intro: tallied_peer_do)

section \<open>Rooms\<close>

lemma tallied_publish:
  assumes before: "\<And>n st. tallied st (fst (before n st))"
    and pub: "Room_publishDurable env rr m ex before st = (st', r)"
  shows "tallied st st'"
proof -
  obtain st1 r1 where add: "Room_addHistoryMessage env rr m st = (st1, r1)" by fastforce
  have s1: "tallied st st1"
    using add by (auto simp: Room_addHistoryMessage_def Let_def split: prod.splits option.splits if_splits)
  show ?thesis
  proof (cases r1)
    case (Inl e)
    with pub add s1 show ?thesis by (simp add: Room_publishDurable_def)
  next
    case (Inr msg)
    let ?n = "case msg_serverSeq msg of Some n \<Rightarrow> n | None \<Rightarrow> 0"
    obtain st2 t where b: "before ?n st1 = (st2, t)" by fastforce
    have "tallied st1 st2" using before [of st1 ?n] b by simp
    moreover have "tallied st2 st'"
      using pub add Inr b by (cases t) (auto simp: Room_publishDurable_def)
    ultimately show ?thesis using s1 by (blast intro: tallied.frame_trans)
  qed
qed

lemma tallied_no_callback: "tallied st (fst (no_callback n st))"
  by (simp add: no_callback_def)

lemma tallied_remember: "tallied st (fst (Peer_rememberCommand pr cid n st))"
  by (simp add: Peer_rememberCommand_def Let_def split: prod.split)

lemma tallied_goodbye: "Room_goodbyePeer env rr pr st = (st', r) \<Longrightarrow> tallied st st'"
  by (auto simp: Room_goodbyePeer_def Let_def split: prod.splits sum.splits
      intro: tallied_publish [OF tallied_no_callback])

lemma tallied_welcome: "Room_welcomePeer env rr pr st = (st', r) \<Longrightarrow> tallied st st'"
  by (auto simp: Room_welcomePeer_def Let_def split: prod.splits sum.splits
      intro: tallied_publish [OF tallied_no_callback])

lemma tallied_pingPeer [simp]: "tallied st (Room_pingPeer now pr st)"
proof -
  obtain p es t where ping: "Peer_sendPingAsync now (st_peers st pr) = (p, es, t)"
    by (cases "Peer_sendPingAsync now (st_peers st pr)") auto
  have "plain es" using plain_step [of undefined "PeerTick now" "st_peers st pr"] ping by simp
  then have s1: "tallied st (emit es (upd_peer pr p st))"
    by (rule tallied.frame_trans [OF tallied_upd(1) tallied_emit])
  have s2: "tallied s (emit fs (upd_peer pr q s))"
    "tallied s (emit [Count EVENT_PEER_ZOMBIE_DROPPED] (emit fs (upd_peer pr q s)))"
    if "plain fs" for s :: "'a Heap_scheme" and fs q
  proof -
    show first: "tallied s (emit fs (upd_peer pr q s))"
      by (rule tallied.frame_trans [OF tallied_upd(1) tallied_emit [OF that]])
    show "tallied s (emit [Count EVENT_PEER_ZOMBIE_DROPPED] (emit fs (upd_peer pr q s)))"
      by (rule tallied.frame_trans [OF first tallied_emit]) simp
  qed
  from s1 show ?thesis
    by (auto simp: Room_pingPeer_def ping Let_def invalidateIf_pair split: prod.splits
        intro: tallied.frame_trans [OF s1 tallied_upd(1)] tallied.frame_trans [OF s1 s2(1)] tallied.frame_trans [OF s1 s2(2)])
qed

lemma tallied_pingAll [simp]: "tallied st (Room_pingAllPeers now rr st)"
  unfolding Room_pingAllPeers_def by (rule tallied.loop) simp

section \<open>Files\<close>

lemma tallied_readChunk: "Subscriber_readChunk_at env r n st = (st', x) \<Longrightarrow> tallied st st'"
  by (auto simp: Subscriber_readChunk_at_def Let_def split: prod.splits
      intro: tallied.frame_trans [OF tallied_upd(4) tallied_send_opt])

lemma tallied_reissue [simp]: "tallied st (Subscriber_reissue_at env r st)"
  by (auto simp: Subscriber_reissue_at_def Let_def split: prod.splits
      intro: tallied.frame_trans [OF tallied_upd(4) tallied_send_opt])

lemma tallied_destroySubscriber [simp]: "tallied st (Subscriber_destroy r st)"
  by (rule tallied_same) (simp add: Subscriber_destroy_def Let_def)

lemma tallied_subscribe: "File_subscribe_at fr st = (st', x) \<Longrightarrow> tallied st st'"
  by (rule tallied_same) (auto simp: File_subscribe_at_def Let_def split: prod.splits option.splits)

lemma tallied_provide: "File_provideFileChunk fr sid i p n d st = (st', x) \<Longrightarrow> tallied st st'"
  by (rule tallied_same) (auto simp: File_provideFileChunk_def Let_def split: prod.splits option.splits if_splits)

lemma tallied_invalidate [simp]: "tallied st (Subscriber_invalidate_at r st)"
  by (simp add: Subscriber_invalidate_at_def)

lemma tallied_clear [simp]: "tallied st (File_clearSubscribers fr st)"
  unfolding File_clearSubscribers_def Let_def
  by (rule tallied.frame_trans [OF tallied_upd(3) tallied.loop]) simp

lemma tallied_reissueFile [simp]: "tallied st (File_reissueOutstandingRequests env fr st)"
  unfolding File_reissueOutstandingRequests_def Let_def
  by (rule tallied.frame_trans [OF tallied_upd(3) tallied.loop]) simp

lemma tallied_reissuePeer [simp]: "tallied st (Peer_reissueOutstandingFileRequests env pr st)"
  unfolding Peer_reissueOutstandingFileRequests_def by (rule tallied.loop) simp

lemma tallied_createFiles: "Room_createFiles rr host ds st = (st', frs) \<Longrightarrow> tallied st st'"
proof (induction ds arbitrary: st st' frs)
  case (Cons d ds)
  obtain st1 fr where c: "Room_createFile rr host d st = (st1, fr)" by fastforce
  then have "tallied st st1" by (intro tallied_same) (auto simp: Room_createFile_def Let_def)
  with Cons c show ?case by (auto split: prod.splits intro: tallied.frame_trans)
qed simp

lemma tallied_share:
  assumes "Room_shareFiles rr i ds st = (st', r)"
  shows "tallied st st'"
proof (cases "\<exists>host xs. Room_getPeerById rr i st = Some host \<and> ds = Some xs
    \<and> hasCapacityFor (length (Peer_getFilesSnapshot (st_peers st host))) (length xs) Limits_filesPerPeer")
  case False
  with assms show ?thesis by (auto simp: Room_shareFiles_def split: option.splits if_splits)
next
  case True
  then obtain host xs where h: "Room_getPeerById rr i st = Some host" "ds = Some xs"
    "hasCapacityFor (length (Peer_getFilesSnapshot (st_peers st host))) (length xs) Limits_filesPerPeer" by blast
  obtain st1 frs where c: "Room_createFiles rr host xs st = (st1, frs)" by fastforce
  have s1: "tallied st (upd_room rr rm (upd_peer host p st1))" for rm p
    by (rule tallied.frame_trans [OF tallied.frame_trans [OF tallied_createFiles [OF c] tallied_upd(1)] tallied_upd(2)])
  have s2: "tallied st (emit (map (\<lambda>_. Count EVENT_PEER_SHARE_FILE) frs) (upd_room rr rm (upd_peer host p st1)))" for rm p
    by (rule tallied.frame_trans [OF s1 tallied_emit]) simp
  from assms h c s1 s2 show ?thesis
    by (auto simp: Room_shareFiles_def Let_def split: prod.splits if_splits)
qed

lemma tallied_takeFiles: "Room_takeFiles rr pr st = (st', frs) \<Longrightarrow> tallied st st'"
  by (rule tallied_same) (auto simp: Room_takeFiles_def Room_eraseFiles_def Let_def split: prod.splits)

lemma tallied_withdraw:
  assumes "Room_withdrawPeerFiles env rr pr st = (st', r)"
  shows "tallied st st'"
proof (cases "Peer_getFilesSnapshot (st_peers st pr) = []")
  case True
  with assms show ?thesis by (simp add: Room_withdrawPeerFiles_def)
next
  case False
  obtain st1 frs where t: "Room_takeFiles rr pr st = (st1, frs)" by fastforce
  define st2 where "st2 = fold File_clearSubscribers frs st1"
  have "tallied st st2"
    unfolding st2_def by (rule tallied.frame_trans [OF tallied_takeFiles [OF t] tallied.loop]) simp
  moreover have "tallied st2 st'"
    using assms False t
    by (auto simp: Room_withdrawPeerFiles_def Let_def st2_def split: prod.splits sum.splits
        intro: tallied_publish [OF tallied_no_callback])
  ultimately show ?thesis by (rule tallied.frame_trans)
qed

lemma tallied_remove [simp]: "tallied st (Room_removePeerById rr i st)"
proof (cases "um_find (rm_peerById (st_rooms st rr)) i")
  case None
  then show ?thesis by (simp add: Room_removePeerById_def)
next
  case (Some pr)
  define st1 where "st1 = upd_room rr ((st_rooms st rr)\<lparr>rm_peerById := um_erase i (rm_peerById (st_rooms st rr))\<rparr>) st"
  obtain st2 frs where t: "Room_takeFiles rr pr st1 = (st2, frs)" by fastforce
  have "tallied st st1" by (simp add: st1_def)
  then have "tallied st (fold File_clearSubscribers frs st2)"
    by (rule tallied.frame_trans [OF tallied.frame_trans [OF _ tallied_takeFiles [OF t]] tallied.loop]) simp
  with Some t show ?thesis by (simp add: Room_removePeerById_def Let_def st1_def)
qed

section \<open>Commands\<close>

lemma tallied_publish_command:
  "Room_publishDurable env rr m None (Peer_rememberCommand pr cid) st = (st', r) \<Longrightarrow> tallied st st'"
  by (rule tallied_publish [OF tallied_remember])

lemma tallied_handlePeerMessage:
  assumes h: "Peer_handlePeerMessage env pr m st = (st', r)"
  shows "tallied st st'"
proof -
  have sent: "tallied s (emit [Count EVENT_PEER_SEND_MESSAGE] (Peer_sendMessageAck env pr cid n s'))"
    if "Room_publishDurable env rr m None (Peer_rememberCommand pr cid) s = (s', x)"
    for s s' :: "'a Heap_scheme" and rr cid n x
    by (rule tallied.frame_trans [OF tallied.frame_trans [OF tallied_publish_command [OF that] tallied_ack] tallied_emit]) simp
  show ?thesis
    using h tallied_apiError tallied_publish_command sent
    by (auto simp: Peer_handlePeerMessage_def Let_def split: if_splits option.splits prod.splits sum.splits)
qed

lemma tallied_handleFiles:
  assumes h: "Peer_handleFilesMessage env tick pr msg st = (st', r)"
  shows "tallied st st'"
  using h
proof (cases rule: handleFiles_cases)
  case (bad e c)
  then show ?thesis by (rule tallied_apiError)
next
  case (retry cid n)
  then show ?thesis by simp
next
  case (failed i ds e)
  from tallied_share [OF failed(1)] show ?thesis .
next
  case (limit i ds st1 e c)
  from tallied.frame_trans [OF tallied_share [OF limit(1)] tallied_apiError [OF limit(2)]] show ?thesis .
next
  case (go cid i ds st1 frs m st2 r2)
  have "tallied st st2"
    by (rule tallied.frame_trans [OF tallied_share [OF go(4)] tallied_publish_command [OF go(6)]])
  moreover have "tallied st2 st'" using go(7) by (cases r2) auto
  ultimately show ?thesis by (rule tallied.frame_trans)
qed

lemma tallied_handleChunk:
  assumes h: "Peer_handleFileChunkMessage env pr msg st = (st', r)"
  shows "tallied st st'"
  using h
proof (cases rule: handleChunk_cases)
  case (bad e c)
  then show ?thesis by (rule tallied_apiError)
next
  case (fed fileId fr sid position sz requestId bytes st1 result)
  have s1: "tallied st st1" by (rule tallied_provide [OF fed(5)])
  from fed(6) have "tallied st1 st'" by (auto intro: tallied_apiError)
  with s1 show ?thesis by (rule tallied.frame_trans)
qed simp_all

lemma tallied_handleMessage:
  assumes h: "Peer_handleMessage env tick pr msg st = (st', r)"
  shows "tallied st st'"
proof (cases "\<exists>m c. msg = Some m \<and> msg_code m = Some c")
  case False
  then obtain e where "Peer_onApiError pr e None st = (st', r)"
    using h by (auto simp: Peer_handleMessage_def split: option.splits)
  then show ?thesis by (rule tallied_apiError)
next
  case True
  then obtain m c where m: "msg = Some m" "msg_code m = Some c" by auto
  note h' = h [unfolded Peer_handleMessage_def m option.case]
  show ?thesis
    using h' tallied_handlePeerMessage tallied_handleFiles tallied_handleChunk tallied_apiError
    by (cases c) (auto simp only: MessageCodes.case prod.inject tallied_broadcast)
qed

lemma tallied_readMessage:
  assumes h: "Peer_readMessage env now tick pr socket frame st = (st', r)"
  shows "tallied st st'"
proof (cases "Some socket = p_socket (st_peers st pr)")
  case False
  with h show ?thesis by (simp add: Peer_readMessage_def)
next
  case True
  have two: "tallied s (upd_peer pr q (upd_peer pr p s))" for s :: "'a Heap_scheme" and p q
    by (rule tallied.frame_trans [OF tallied_upd(1) tallied_upd(1)])
  have err: "tallied s s'" if "Peer_onApiError pr e c (upd_peer pr p s) = (s', x)" for s s' :: "'a Heap_scheme" and e c p x
    by (rule tallied.frame_trans [OF tallied_upd(1) tallied_apiError [OF that]])
  have err2: "tallied s s'" if "Peer_onApiError pr e c (upd_peer pr q (upd_peer pr p s)) = (s', x)"
    for s s' :: "'a Heap_scheme" and e c p q x
    by (rule tallied.frame_trans [OF two tallied_apiError [OF that]])
  have run: "tallied s s'" if "Peer_handleMessage env tick pr m (upd_peer pr q (upd_peer pr p s)) = (s', x)"
    for s s' :: "'a Heap_scheme" and m p q x
    by (rule tallied.frame_trans [OF two tallied_handleMessage [OF that]])
  from h True two err err2 run show ?thesis
    unfolding Peer_readMessage_def Let_def if_not_P [OF not_not [THEN iffD2 [OF _ True]]]
    by (auto split: if_splits sum.splits option.splits)
qed

end
