(* ===== verification/LobbyProps.thy ===== *)
theory LobbyProps
  imports ServerRuns
begin

text \<open>
  The properties of the lobby over the reachable states of \<open>ServerRuns\<close>, with a concrete run for
  their witnesses: one transport connects to the room \<open>r\<close>, sends its hello, is lost, and its session
  is resumed or expires.
\<close>

section \<open>A concrete run\<close>

definition demo_hello :: "string option \<Rightarrow> MessageDto" where
  "demo_hello token = message CODE_SESSION_HELLO (\<lambda>b. b\<lparr>mb_protocolVersion := Some 2,
     mb_lastServerSeq := Some 0, mb_fileCapabilityId := Some (replicate 22 CHR ''A''),
     mb_resumeToken := token\<rparr>)"

definition demo_token :: string where "demo_token = replicate 43 CHR ''A''"

definition demo_bytes :: "string option" where "demo_bytes = Some (replicate 32 CHR 0x00)"

text \<open>The environment reads the buffer \<open>resume\<close> as a hello with the token, any other as a new one.\<close>

definition demo_lobby_env :: Env where
  "demo_lobby_env = demo_env\<lparr>env_readFromString := (\<lambda>s. Inr (Some
     (demo_hello (if s = ''resume'' then Some demo_token else None)))), env_sha256 := (\<lambda>t. ''D'')\<rparr>"

definition demo_pending :: PendingHello where
  "demo_pending = \<lparr>h_roomName = ''r'', h_nickname = ''n'', h_buffer = [], h_consumed = False\<rparr>"

definition demo_connected :: Server where
  "demo_connected = onAfterCreate 0 5 ''r'' ''n'' Server_new"

definition demo_joined :: Server where
  "demo_joined = fst (PendingHello_readMessage demo_lobby_env 1 1 demo_bytes 5 demo_pending [] demo_connected)"

definition demo_detached :: Server where
  "demo_detached = onBeforeDestroy demo_lobby_env 2 5 demo_joined"

definition demo_second :: Server where
  "demo_second = onAfterCreate 3 6 ''r'' ''n'' demo_detached"

lemma counters_fit_new: "counters_fit Server_new"
  by (simp add: counters_fit_def Server_new_def Heap.extend_def Heap_new_def Room_new_def
      Limits_filesPerPeer_def RoomSequencer_new_def)

lemma counters_fit_connect: "counters_fit (onAfterCreate now socket roomName nick st) = counters_fit st"
  by (simp add: onAfterCreate_def Let_def counters_pending) (simp add: counters_fit_def)

lemma demo_rooms:
  "rm_sequencer (st_rooms demo_joined rr) = (if rr = 0 then 1 else 0)"
  "rm_fileIdCounter (st_rooms demo_joined rr) = 1"
  "rm_sequencer (st_rooms demo_detached rr) = (if rr = 0 then 1 else 0)"
  "rm_fileIdCounter (st_rooms demo_detached rr) = 1"
  by (code_simp, cases "rr = 0"; simp)+

lemma demo_counters: "lb_peerIdCounter demo_joined = 2" "lb_peerIdCounter demo_detached = 2"
  by code_simp+

lemma counters_fit_demo: "counters_fit demo_joined" "counters_fit demo_detached"
  by (simp_all add: counters_fit_def demo_rooms demo_counters Limits_filesPerPeer_def)

lemma reachable_connected: "reachable env demo_connected"
  unfolding demo_connected_def
  by (rule reachable.step [OF reachable.start counters_fit_new server_step.connect])
     (simp_all add: Server_new_def Heap.extend_def)

lemma joined_step: "server_step demo_lobby_env (SessionHello 1 (h_roomName demo_pending)) demo_connected demo_joined"
proof -
  have "lb_listeners demo_connected 5 = Some (PendingHelloListener demo_pending)"
    by (simp add: demo_connected_def onAfterCreate_def set_pending_hello_def demo_pending_def Let_def)
  moreover obtain r where
    "PendingHello_readMessage demo_lobby_env 1 1 demo_bytes 5 demo_pending [] demo_connected = (demo_joined, r)"
    by (metis demo_joined_def prod.collapse)
  ultimately show ?thesis by (rule server_step.hello_frame)
qed

lemma reachable_joined: "reachable demo_lobby_env demo_joined"
  by (rule reachable.step [OF reachable_connected _ joined_step])
     (simp add: demo_connected_def counters_fit_connect counters_fit_new)

lemma reachable_detached: "reachable demo_lobby_env demo_detached"
  unfolding demo_detached_def
  by (rule reachable.step [OF reachable_joined counters_fit_demo(1) server_step.destroy])

lemma reachable_second: "reachable demo_lobby_env demo_second"
proof -
  have "lb_listeners demo_detached 6 = None" "um_find (lb_pending demo_detached) 6 = None" by code_simp+
  then show ?thesis
    unfolding demo_second_def
    by (rule reachable.step [OF reachable_detached counters_fit_demo(2) server_step.connect])
qed

section \<open>Properties\<close>

text \<open>C1: the sessions the clients see are a directory with a simple contract. In every reachable state, a
  session hello at time \<open>now\<close> for a room leaves the directory alone, adds a session of this room under an
  unused key, or resumes a detached session of this room before its deadline; the loss of a transport changes
  nothing or starts the grace period of five minutes of one connected session; the expiry drops exactly the
  sessions whose lease is over at its time; and nothing else the server does touches the directory. The room and
  the identity behind a key never change, and only a detached session is ever dropped.\<close>

theorem session_directory_refined:
  assumes "reachable env st" and "counters_fit st" and "server_step env action st st'"
  shows "directory_step action (session_view st) (session_view st')
    \<and> (\<forall>k room i lease. session_view st k = Some (room, i, lease) \<longrightarrow>
         session_view st' k = None \<and> lease \<noteq> None \<or> (\<exists>lease'. session_view st' k = Some (room, i, lease')))"
  using step_preserves [OF assms(3) reachable_inv [OF assms(1)] assms(2)] directory_identity by blast

theorem session_directory_refined_witness:
  "directory_step (TransportDestroyed 2) (session_view demo_joined) (session_view demo_detached)"
  unfolding demo_detached_def
  using session_directory_refined [OF reachable_joined counters_fit_demo(1) server_step.destroy] by blast


lemma demo_sessions:
  "lb_sessions demo_joined = [(''D'', \<lparr>sr_room = 0, sr_peer = 1, sr_digest = ''D'', sr_lease = None\<rparr>)]"
  "lb_sessions demo_second = [(''D'', \<lparr>sr_room = 0, sr_peer = 1, sr_digest = ''D'',
      sr_lease = Some (2 + gracePeriod)\<rparr>)]"
  "p_socket (st_peers demo_joined 1) = Some 5"
  by code_simp+


text \<open>C11: one iteration of the expiry removes exactly what is over. A pending transport goes when its ten
  seconds have passed, a session when its lease has; when no exception interrupts it, the members
  that leave the rooms are exactly the peers of the expired sessions.\<close>

theorem expiry_exact:
  assumes "reachable env st" and "expireSessions env now st = (st', r)"
  shows "lb_pending st' = filter (\<lambda>(_, p). now < pr_deadline p) (lb_pending st)
    \<and> lb_sessions st' = filter (\<lambda>(_, s). \<not> SessionLease_expires now (sr_lease s)) (lb_sessions st)
    \<and> (r = None \<longrightarrow> room_peers rr st' = filter (\<lambda>pr. \<forall>(_, s) \<in> set (lb_sessions st).
           SessionLease_expires now (sr_lease s) \<longrightarrow> sr_peer s \<noteq> pr) (room_peers rr st))"
proof -
  note x = expireSessions_inv [OF reachable_inv [OF assms(1)] assms(2)]
  have "lb_pending st' = filter (\<lambda>(_, p). now < pr_deadline p) (lb_pending st)"
    unfolding x(3) by (intro filter_cong) auto
  moreover have "lb_sessions st' = filter (\<lambda>(_, s). \<not> SessionLease_expires now (sr_lease s)) (lb_sessions st)"
    unfolding x(2) by (intro filter_cong) (auto simp: lease_over_def)
  moreover have "room_peers rr st' = filter (\<lambda>pr. \<forall>(_, s) \<in> set (lb_sessions st).
           SessionLease_expires now (sr_lease s) \<longrightarrow> sr_peer s \<noteq> pr) (room_peers rr st)" if "r = None"
    unfolding room_peers_def x(6) [OF that] filter_map comp_def
    by (intro arg_cong [where f = "map snd"] filter_cong) (auto simp: lease_over_def)
  ultimately show ?thesis by blast
qed

theorem expiry_exact_witness:
  "lb_sessions (fst (expireSessions demo_lobby_env (2 + gracePeriod) demo_second)) = []"
  using expiry_exact [OF reachable_second surjective_pairing, of "2 + gracePeriod"]
  by (simp add: demo_sessions SessionLease_expires_def)

text \<open>A client that is connected is never expired: in a reachable state the session of a peer with a transport
  survives every expiry at any time, and the peer stays a member of its room.\<close>

theorem connected_session_survives:
  assumes "reachable env st" and "(k, s) \<in> set (lb_sessions st)"
    and "p_socket (st_peers st (sr_peer s)) \<noteq> None" and "expireSessions env now st = (st', r)"
  shows "(k, s) \<in> set (lb_sessions st') \<and> sr_peer s \<in> set (room_peers (sr_room s) st')
    \<and> getRoom (Room_getName (sr_room s) st') st' = Some (sr_room s)"
proof -
  have inv: "lobby_inv env st" "registered st" "transports_ok {} st"
    using reachable_inv [OF assms(1)] by (simp_all add: server_inv_def)
  note x = expireSessions_inv [OF reachable_inv [OF assms(1)] assms(4)]
  have "transport_ok st s" using inv(3) assms(2) by (force simp: transports_ok_def sessions_of_def)
  with assms(3) have "sr_lease s = None"
    by (auto simp: transport_ok_def SessionLease_disconnected_def)
  with assms(2) have in': "(k, s) \<in> set (lb_sessions st')"
    by (simp add: x(2) lease_over_def SessionLease_expires_def)
  have inv': "lobby_inv env st'" "registered st'" using x(1) by (simp_all add: server_inv_def)
  from sessionsD(5) [OF inv'(1) in'] registeredD [OF inv'(2) in'] in' show ?thesis by (simp add: session_registered_def)
qed

theorem connected_session_survives_witness:
  "1 \<in> set (room_peers 0 (fst (expireSessions demo_lobby_env 9 demo_joined)))"
  using connected_session_survives [OF reachable_joined _ _ surjective_pairing, of "''D''"
      "\<lparr>sr_room = 0, sr_peer = 1, sr_digest = ''D'', sr_lease = None\<rparr>" 9]
  by (simp add: demo_sessions del: One_nat_def)

text \<open>A transport gets at most one session hello, and only within ten seconds. If a hello gives a peer,
  the transport was pending and its deadline had not passed; afterwards it is pending no more, so any further
  hello on it is refused and changes nothing.\<close>

theorem hello_once_in_time:
  assumes "reachable env st" "counters_fit st" "lb_listeners st socket = Some (PendingHelloListener h)"
    and "acceptSessionHello env now now2 bytes socket roomName nick hello st = (st', Inr (Some pr))"
  shows "(\<exists>pending. um_find (lb_pending st) socket = Some pending \<and> now < pr_deadline pending)
    \<and> um_find (lb_pending st') socket = None
    \<and> acceptSessionHello env later later2 bytes' socket roomName' nick' hello' st' = (st', Inr None)"
proof -
  have l: "\<not> peer_listens st socket" using assms(3) by (simp add: peer_listens_def)
  have inv: "server_inv env st" by (rule reachable_inv [OF assms(1)])
  obtain st1 where take: "hello_takePending now socket st = (st1, True)" and p: "lb_pending st' = lb_pending st1"
    using inv assms(2) l assms(4)
  proof (cases rule: acceptSessionHello_cases)
    case refused
    then show thesis by simp
  next
    case resumed
    then show thesis by (intro that) simp_all
  next
    case enrolled
    then show thesis by (intro that) simp_all
  qed
  from take obtain pending where "um_find (lb_pending st) socket = Some pending" "now < pr_deadline pending"
    "lb_pending st1 = um_erase socket (lb_pending st)"
    by (cases rule: takePending_cases) auto
  moreover have "um_valid (lb_pending st)" using inv by (simp add: server_inv_def lobby_inv_def pending_ok_def)
  ultimately have gone: "um_find (lb_pending st') socket = None" by (simp add: p um.lookup_erase)
  then have "hello_takePending later socket st' = (st', False)" by (simp add: hello_takePending_def)
  with gone take p \<open>um_find (lb_pending st) socket = _\<close> \<open>now < _\<close> show ?thesis
    by (auto simp: acceptSessionHello_def split: option.split)
qed

lemma demo_accepts:
  "lb_listeners demo_connected 5 = Some (PendingHelloListener demo_pending)"
  "snd (acceptSessionHello demo_lobby_env 1 1 demo_bytes 5 ''r'' ''n'' (Some (demo_hello None)) demo_connected)
     = Inr (Some 1)"
  "lb_listeners demo_second 6 = Some (PendingHelloListener demo_pending)"
  "snd (acceptSessionHello demo_lobby_env 4 4 demo_bytes 6 ''r'' ''n'' (Some (demo_hello (Some demo_token))) demo_second)
     = Inr (Some 1)"
  "snd (acceptSessionHello demo_lobby_env 4 4 demo_bytes 6 ''other'' ''n'' (Some (demo_hello (Some demo_token))) demo_second)
     = Inr None"
  by code_simp+

lemma counters_fit_steps: "counters_fit demo_connected" "counters_fit demo_second"
  by (simp_all add: demo_connected_def demo_second_def counters_fit_connect counters_fit_new counters_fit_demo)

theorem hello_once_in_time_witness:
  "um_find (lb_pending (fst (acceptSessionHello demo_lobby_env 1 1 demo_bytes 5 ''r'' ''n''
     (Some (demo_hello None)) demo_connected))) 5 = None"
proof -
  obtain st where "acceptSessionHello demo_lobby_env 1 1 demo_bytes 5 ''r'' ''n'' (Some (demo_hello None)) demo_connected
      = (st, Inr (Some 1))"
    using demo_accepts(2) by (metis prod.collapse)
  from hello_once_in_time [OF reachable_connected counters_fit_steps(1) demo_accepts(1) this] this
  show ?thesis by simp
qed

text \<open>C12: a session is resumed only by its own token, in its own room, before its deadline. When a hello with a
  token succeeds, the directory held a detached session of this very room under the digest of the
  token, with a deadline still ahead; the peer that gets the transport has its identity, and the lease is
  stopped. In particular a token cannot be used in another room.\<close>

theorem resume_isolated:
  assumes "reachable env st" "counters_fit st" "lb_listeners st socket = Some (PendingHelloListener h)"
    and "acceptSessionHello env now now2 bytes socket roomName nick (Some m) st = (st', Inr (Some pr))"
    and "mb_resumeToken (msg_body m) = Some token"
  shows "\<exists>i deadline. session_view st (digestKey (digestToken (env_sha256 env) token)) = Some (roomName, i, Some deadline)
    \<and> now < deadline \<and> p_peerId (st_peers st' pr) = i
    \<and> session_view st' = (session_view st)(digestKey (digestToken (env_sha256 env) token) \<mapsto> (roomName, i, None))"
proof -
  have l: "\<not> peer_listens st socket" using assms(3) by (simp add: peer_listens_def)
  have m: "m' = m" if "hello_accepted (Some m) = Some (m', c, cap)" for m' c cap
    using that by (auto simp: hello_accepted_def split: option.splits if_splits)
  from reachable_inv [OF assms(1)] assms(2) l assms(4) show ?thesis
  proof (cases rule: acceptSessionHello_cases)
    case (resumed m' cursor capability token' pr' st1 st2)
    have eq: "m' = m" "token' = token" using m [OF resumed(1)] resumed(2) assms(5) by auto
    let ?k = "digestKey (digestToken (env_sha256 env) token)"
    obtain i deadline where i: "now < deadline" "session_view st ?k = Some (roomName, i, Some deadline)"
      "p_peerId (st_peers st2 pr') = i" "session_view st2 = (session_view st)(?k \<mapsto> (roomName, i, None))"
      using resume_inv(5) [OF resumed(4,6) refl] by (auto simp: eq resumed(5))
    have "pr' = pr"
      using resumed(9) by (auto simp: hello_finish_def Let_def split: prod.splits option.splits if_splits)
    moreover define st3 where "st3 = hello_listen socket pr' st2"
    have h: "lobby_inv env st2" "transports_ok {pr'} st2" "bound st2 socket pr'"
      using resumed(7) by (simp_all add: handover_def)
    have "sound env st3 st'"
      unfolding st3_def by (rule finish_sound [OF in_room_peers resumed(9)]) (use h(3) in \<open>simp add: bound_def\<close>)
    moreover have "lobby_inv env st3"
      unfolding st3_def by (rule listen_inv(1) [OF h(1,2) resumed(8) h(3)]) simp
    ultimately have "p_peerId (st_peers st' pr) = p_peerId (st_peers st2 pr)"
      using sound_lobby(2) by (fastforce simp: keeps_def st3_def hello_listen_def)
    with i finish_inv(2) [OF resumed(7-9)] \<open>pr' = pr\<close> show ?thesis by auto
  next
    case (enrolled m' cursor capability)
    with m assms(5) show ?thesis by fastforce
  qed simp
qed

theorem resume_isolated_witness:
  "p_peerId (st_peers (fst (acceptSessionHello demo_lobby_env 4 4 demo_bytes 6 ''r'' ''n''
      (Some (demo_hello (Some demo_token))) demo_second)) 1) = 1
   \<and> snd (acceptSessionHello demo_lobby_env 4 4 demo_bytes 6 ''other'' ''n''
      (Some (demo_hello (Some demo_token))) demo_second) = Inr None"
proof -
  obtain st where acc: "acceptSessionHello demo_lobby_env 4 4 demo_bytes 6 ''r'' ''n'' (Some (demo_hello (Some demo_token))) demo_second
      = (st, Inr (Some 1))"
    using demo_accepts(4) by (metis prod.collapse)
  have token: "mb_resumeToken (msg_body (demo_hello (Some demo_token))) = Some demo_token"
    by (simp add: demo_hello_def message_def)
  have "p_peerId (st_peers demo_second 1) = 1" by code_simp
  with resume_isolated [OF reachable_second counters_fit_steps(2) demo_accepts(3) acc token]
  have "p_peerId (st_peers st 1) = 1"
    by (auto simp: session_view_def demo_sessions um_find_def digestKey_def split: if_splits)
  with acc demo_accepts(5) show ?thesis by simp
qed

text \<open>C5: what a client is told when its session is ready. In every reachable state the \<open>SESSION_READY\<close> for a
  peer carries its identity and the token, and its history is exactly the messages of the room
  numbered after the client's cursor, in order; it asks for a resynchronisation exactly when the
  cursor is ahead of the room or a missed message is no longer retained, and then carries all that
  is retained.\<close>

theorem ready_replays_exactly:
  assumes "reachable env st" and "rr = p_room (st_peers st pr)"
    and "ready_message st pr resumed cursor token = MessageDto body (Some msgs)"
  shows "mb_peerId body = Some (p_peerId (st_peers st pr)) \<and> mb_resumeToken body = Some token
    \<and> mb_latestServerSeq body = Some (Room_latestServerSeq rr st)
    \<and> (mb_resyncRequired body = Some False \<longrightarrow>
         map seq_of msgs = [Suc (unat cursor) ..< Suc (unat (Room_latestServerSeq rr st))])
    \<and> (mb_resyncRequired body = Some True \<longleftrightarrow> unat (Room_latestServerSeq rr st) < unat cursor
         \<or> unat cursor + length (rm_history (st_rooms st rr)) < unat (Room_latestServerSeq rr st))
    \<and> (mb_resyncRequired body = Some True \<longrightarrow> msgs = rm_history (st_rooms st rr))"
proof -
  have "heap_inv env st" using reachable_inv [OF assms(1)] by (simp add: server_inv_def lobby_inv_def)
  note h = heap_invD(3) [OF this, of rr]
  obtain history resync where after: "Room_getHistoryAfter rr cursor st = (history, resync)" by fastforce
  note x = history_after_exact [OF h after]
  have "history = msgs" "mb_resyncRequired body = Some resync" "mb_peerId body = Some (p_peerId (st_peers st pr))"
    "mb_resumeToken body = Some token" "mb_latestServerSeq body = Some (Room_latestServerSeq rr st)"
    using assms(3) after by (auto simp: ready_message_def ready_reply_def Let_def assms(2) message_def MessageBody_empty_def)
  with x show ?thesis by auto
qed

theorem ready_replays_exactly_witness:
  "\<exists>body msgs. ready_message demo_joined 1 True 0 demo_token = MessageDto body (Some msgs)
     \<and> map seq_of msgs = [1]"
proof -
  obtain body msgs where r: "ready_message demo_joined 1 True 0 demo_token = MessageDto body (Some msgs)"
    by (cases "Room_getHistoryAfter (p_room (st_peers demo_joined 1)) 0 demo_joined")
       (simp add: ready_message_def ready_reply_def Let_def del: One_nat_def)
  have latest: "unat (Room_latestServerSeq 0 demo_joined) = 1" "length (rm_history (st_rooms demo_joined 0)) = 1"
    "p_room (st_peers demo_joined 1) = 0"
    by code_simp+
  have "mb_resyncRequired body = Some True \<or> mb_resyncRequired body = Some False"
    using r by (auto simp: ready_message_def ready_reply_def Let_def message_def split: prod.splits)
  with ready_replays_exactly [OF reachable_joined latest(3) [symmetric] r] r latest(1,2)
  show ?thesis by auto
qed

end
