(* ===== verification/Statistics.thy ===== *)
theory Statistics
  imports Effects TorText
begin

text \<open>
  The retained statistics (\<^verbatim>\<open>server/src/utils/Statistics.cpp\<close>): sampling the counters into a bounded window
  of points, and saving and restoring the window. \<open>StatPointDto\<close> is the transfer object of
  \<^verbatim>\<open>server/src/dto/DTOs.hpp\<close>; its fields may be null. The JSON mapper is the pair of parameters \<open>writeJson\<close>
  and \<open>readJson\<close> (\<open>None\<close>: it throws; \<open>Some None\<close>: it yields null), the clock is the parameter \<open>now\<close>.
  \<^verbatim>\<open>writeAll\<close> is the same loop as in the onion service.
\<close>

section \<open>State\<close>

record StatPointDto =
  sp_timestamp :: "int option"
  sp_evFrontpageLoaded :: "u64 option"
  sp_evPeerConnected :: "u64 option"
  sp_evPeerDisconnected :: "u64 option"
  sp_evPeerZombieDropped :: "u64 option"
  sp_evPeerTransportClosed :: "u64 option"
  sp_evPeerResumed :: "u64 option"
  sp_evSessionExpired :: "u64 option"
  sp_evPeerSendMessage :: "u64 option"
  sp_evPeerShareFile :: "u64 option"
  sp_evRoomCreated :: "u64 option"
  sp_evRoomDeleted :: "u64 option"
  sp_fileServedBytes :: "u64 option"

definition StatPoint_createShared :: StatPointDto where
  "StatPoint_createShared = \<lparr>sp_timestamp = None, sp_evFrontpageLoaded = None, sp_evPeerConnected = None,
     sp_evPeerDisconnected = None, sp_evPeerZombieDropped = None, sp_evPeerTransportClosed = None,
     sp_evPeerResumed = None, sp_evSessionExpired = None, sp_evPeerSendMessage = None,
     sp_evPeerShareFile = None, sp_evRoomCreated = None, sp_evRoomDeleted = None, sp_fileServedBytes = None\<rparr>"

record Statistics =
  st_counters :: Counters
  st_dataPoints :: "StatPointDto list"
  st_maxPeriod :: int
  st_pushInterval :: int

definition hours :: "int \<Rightarrow> int" where "hours n = n * 3600 * 1000000"

definition Statistics_new :: "int \<Rightarrow> int \<Rightarrow> Statistics" where
  "Statistics_new maxPeriod pushInterval = \<lparr>st_counters = Counters_new, st_dataPoints = [],
     st_maxPeriod = maxPeriod, st_pushInterval = pushInterval\<rparr>"

definition Statistics_default :: Statistics where
  "Statistics_default = Statistics_new (hours (7 * 24)) (hours 1)"

definition MAX_STATE_BYTES :: nat where "MAX_STATE_BYTES = 1024 * 1024"
definition MAX_STATE_POINTS :: nat where "MAX_STATE_POINTS = 1000"

section \<open>Sampling\<close>

definition fillPoint :: "Counters \<Rightarrow> StatPointDto \<Rightarrow> StatPointDto" where
  "fillPoint counters point = point\<lparr>
     sp_evFrontpageLoaded := Some (counters EVENT_FRONT_PAGE_LOADED),
     sp_evPeerConnected := Some (counters EVENT_PEER_CONNECTED),
     sp_evPeerDisconnected := Some (counters EVENT_PEER_DISCONNECTED),
     sp_evPeerZombieDropped := Some (counters EVENT_PEER_ZOMBIE_DROPPED),
     sp_evPeerTransportClosed := Some (counters EVENT_PEER_TRANSPORT_CLOSED),
     sp_evPeerResumed := Some (counters EVENT_PEER_RESUMED),
     sp_evSessionExpired := Some (counters EVENT_SESSION_EXPIRED),
     sp_evPeerSendMessage := Some (counters EVENT_PEER_SEND_MESSAGE),
     sp_evPeerShareFile := Some (counters EVENT_PEER_SHARE_FILE),
     sp_evRoomCreated := Some (counters EVENT_ROOM_CREATED),
     sp_evRoomDeleted := Some (counters EVENT_ROOM_DELETED),
     sp_fileServedBytes := Some (counters FILE_SERVED_BYTES)\<rparr>"

text \<open>The loop that drops points older than the period. \<open>None\<close> is undefined behaviour: \<^verbatim>\<open>front()\<close> of an empty list
  or a null time stamp.\<close>

fun dropExpired :: "int \<Rightarrow> int \<Rightarrow> StatPointDto list \<Rightarrow> StatPointDto list option" where
  "dropExpired now maxPeriod [] = None"
| "dropExpired now maxPeriod (p # ps) =
     (case sp_timestamp p of
        None \<Rightarrow> None
      | Some t \<Rightarrow> if now - t > maxPeriod then dropExpired now maxPeriod ps else Some (p # ps))"

text \<open>The point that is filled is the last one of the list: the one found there, or the one just pushed.\<close>

definition fillLast :: "Counters \<Rightarrow> StatPointDto list \<Rightarrow> StatPointDto list" where
  "fillLast counters ps = butlast ps @ [fillPoint counters (last ps)]"

definition takeSample :: "int \<Rightarrow> Statistics \<Rightarrow> Statistics option" where
  "takeSample now s =
     (let points = st_dataPoints s;
          reuse = (if points = [] then Some False
                   else map_option (\<lambda>t. now - t < st_pushInterval s) (sp_timestamp (last points)))
      in case reuse of
           None \<Rightarrow> None
         | Some True \<Rightarrow> Some (s\<lparr>st_dataPoints := fillLast (st_counters s) points\<rparr>)
         | Some False \<Rightarrow>
             map_option (\<lambda>ps. s\<lparr>st_dataPoints := fillLast (st_counters s) ps\<rparr>)
               (dropExpired now (st_maxPeriod s)
                  (points @ [StatPoint_createShared\<lparr>sp_timestamp := Some now\<rparr>])))"

definition runStatIteration :: "int \<Rightarrow> Statistics \<Rightarrow> Statistics option" where
  "runStatIteration now s = takeSample now s"

section \<open>Restoring\<close>

definition validPoint :: "StatPointDto option \<Rightarrow> bool" where
  "validPoint point =
     (case point of
        None \<Rightarrow> False
      | Some p \<Rightarrow>
          sp_timestamp p \<noteq> None \<and> sp_evFrontpageLoaded p \<noteq> None \<and> sp_evPeerConnected p \<noteq> None
        \<and> sp_evPeerDisconnected p \<noteq> None \<and> sp_evPeerZombieDropped p \<noteq> None
        \<and> sp_evPeerSendMessage p \<noteq> None \<and> sp_evPeerShareFile p \<noteq> None \<and> sp_evRoomCreated p \<noteq> None
        \<and> sp_evRoomDeleted p \<noteq> None \<and> sp_fileServedBytes p \<noteq> None \<and> the (sp_timestamp p) > 0)"

fun validPoints :: "int \<Rightarrow> StatPointDto option list \<Rightarrow> bool" where
  "validPoints previousTimestamp [] = True"
| "validPoints previousTimestamp (point # points) =
     (validPoint point \<and> the (sp_timestamp (the point)) \<ge> previousTimestamp
      \<and> validPoints (the (sp_timestamp (the point))) points)"

text \<open>The three newer counters may be missing in an older state.\<close>

definition or_zero :: "u64 option \<Rightarrow> u64" where
  "or_zero x = (case x of None \<Rightarrow> 0 | Some n \<Rightarrow> n)"

definition restoreCounters :: "StatPointDto \<Rightarrow> Counters" where
  "restoreCounters latest c = (case c of
     EVENT_FRONT_PAGE_LOADED \<Rightarrow> the (sp_evFrontpageLoaded latest)
   | EVENT_PEER_CONNECTED \<Rightarrow> the (sp_evPeerConnected latest)
   | EVENT_PEER_DISCONNECTED \<Rightarrow> the (sp_evPeerDisconnected latest)
   | EVENT_PEER_ZOMBIE_DROPPED \<Rightarrow> the (sp_evPeerZombieDropped latest)
   | EVENT_PEER_TRANSPORT_CLOSED \<Rightarrow> or_zero (sp_evPeerTransportClosed latest)
   | EVENT_PEER_RESUMED \<Rightarrow> or_zero (sp_evPeerResumed latest)
   | EVENT_SESSION_EXPIRED \<Rightarrow> or_zero (sp_evSessionExpired latest)
   | EVENT_PEER_SEND_MESSAGE \<Rightarrow> the (sp_evPeerSendMessage latest)
   | EVENT_PEER_SHARE_FILE \<Rightarrow> the (sp_evPeerShareFile latest)
   | EVENT_ROOM_CREATED \<Rightarrow> the (sp_evRoomCreated latest)
   | EVENT_ROOM_DELETED \<Rightarrow> the (sp_evRoomDeleted latest)
   | FILE_SERVED_BYTES \<Rightarrow> the (sp_fileServedBytes latest))"

datatype StateLoadResult = LOADED | MISSING_STATE | INVALID_STATE

text \<open>What the file system answers: the size and the content when the file opens (no content: the read fails),
  and otherwise whether the path exists (\<open>None\<close>: the query fails).\<close>

record StateFile =
  sf_open :: "(int \<times> string option) option"
  sf_exists :: "bool option"

text \<open>\<^verbatim>\<open>content.c_str()\<close> ends at the first NUL.\<close>

definition c_str :: "string \<Rightarrow> string" where
  "c_str content = takeWhile (\<lambda>c. c \<noteq> char_of (0 :: nat)) content"

definition readState :: "(string \<Rightarrow> StatPointDto option list option option) \<Rightarrow> StateFile \<Rightarrow>
    StateLoadResult + StatPointDto list" where
  "readState readJson file =
     (case sf_open file of
        None \<Rightarrow> Inl (if sf_exists file = Some False then MISSING_STATE else INVALID_STATE)
      | Some (stateSize, content) \<Rightarrow>
          if stateSize \<le> 0 \<or> stateSize > int MAX_STATE_BYTES then Inl INVALID_STATE
          else (case content of
            None \<Rightarrow> Inl INVALID_STATE
          | Some content \<Rightarrow>
              (case readJson (c_str content) of
                 Some (Some loaded) \<Rightarrow>
                   if loaded = [] \<or> length loaded > MAX_STATE_POINTS \<or> \<not> validPoints 0 loaded
                   then Inl INVALID_STATE else Inr (map the loaded)
               | _ \<Rightarrow> Inl INVALID_STATE)))"

definition retained :: "int \<Rightarrow> int \<Rightarrow> StatPointDto list \<Rightarrow> StatPointDto list" where
  "retained now maxPeriod loaded =
     filter (\<lambda>p. the (sp_timestamp p) \<ge> now - maxPeriod \<and> the (sp_timestamp p) \<le> now) loaded"

definition loadState :: "(string \<Rightarrow> StatPointDto option list option option) \<Rightarrow> StateFile \<Rightarrow> int \<Rightarrow>
    Statistics \<Rightarrow> Statistics \<times> StateLoadResult" where
  "loadState readJson file now s =
     (case readState readJson file of
        Inl result \<Rightarrow> (s, result)
      | Inr loaded \<Rightarrow>
          (s\<lparr>st_counters := restoreCounters (last loaded),
             st_dataPoints := retained now (st_maxPeriod s) loaded\<rparr>, LOADED))"

section \<open>Saving\<close>

record AtomicCalls =
  at_mkstemp :: bool
  at_writes :: "(errno + nat) list"
  at_fsync :: bool
  at_close :: bool
  at_rename :: bool
  at_dir_open :: bool
  at_dir_fsync :: bool
  at_dir_close :: bool

text \<open>The new content of the path, if it was replaced, and the result.\<close>

definition writeAtomically :: "AtomicCalls \<Rightarrow> string \<Rightarrow> string option \<times> bool" where
  "writeAtomically calls data =
     (if \<not> at_mkstemp calls then (None, False)
      else
        let (out, written) = writeAll (at_writes calls) data;
            closed = (written \<and> at_fsync calls \<and> at_close calls)
        in if closed \<and> at_rename calls
           then (Some out, at_dir_open calls \<and> at_dir_fsync calls \<and> at_dir_close calls)
           else (None, False))"

definition getJsonData :: "(StatPointDto list \<Rightarrow> string) \<Rightarrow> Statistics \<Rightarrow> string" where
  "getJsonData writeJson s = writeJson (st_dataPoints s)"

definition saveState :: "(StatPointDto list \<Rightarrow> string) \<Rightarrow> AtomicCalls \<Rightarrow> string \<Rightarrow> Statistics \<Rightarrow>
    string option \<times> bool" where
  "saveState writeJson calls path s =
     (if path = [] then (None, False)
      else let json = getJsonData writeJson s
           in if json = [] \<or> length json > MAX_STATE_BYTES then (None, False)
              else writeAtomically calls json)"

end
