(* ===== verification/StatisticsProps.thy ===== *)
theory StatisticsProps
  imports Statistics
begin

text \<open>
  What the retained statistics promise, over any number of restarts: sampling never runs off the end of the
  list, the window stays small enough to be saved and loaded, a restart restores the counters, and an
  unusable state file changes nothing.
\<close>

section \<open>Windows\<close>

abbreviation stamp :: "StatPointDto \<Rightarrow> int" where
  "stamp p \<equiv> the (sp_timestamp p)"

definition spaced :: "int \<Rightarrow> StatPointDto list \<Rightarrow> bool" where
  "spaced d ps \<longleftrightarrow> successively (\<lambda>p q. stamp p + d \<le> stamp q) ps"

definition window :: "Statistics \<Rightarrow> bool" where
  "window s \<longleftrightarrow> list_all (validPoint \<circ> Some) (st_dataPoints s) \<and> spaced (st_pushInterval s) (st_dataPoints s)
     \<and> (st_dataPoints s \<noteq> [] \<longrightarrow> stamp (last (st_dataPoints s)) - stamp (hd (st_dataPoints s)) \<le> st_maxPeriod s)"

lemma spaced_length:
  "spaced d ps \<Longrightarrow> ps \<noteq> [] \<Longrightarrow> int (length ps - 1) * d \<le> stamp (last ps) - stamp (hd ps)"
proof (induction ps rule: induct_list012)
  case (3 p q ps)
  then have "int (length (q # ps) - 1) * d \<le> stamp (last (q # ps)) - stamp q" "stamp p + d \<le> stamp q"
    by (simp_all add: spaced_def)
  then show ?case by (simp add: algebra_simps)
qed (simp_all add: spaced_def)

lemma spaced_sorted:
  assumes "0 \<le> d" "spaced d ps"
  shows "sorted (map stamp ps)"
proof -
  have "successively (\<lambda>p q. stamp p \<le> stamp q) ps"
    using assms(2) unfolding spaced_def by (rule successively_mono) (use assms(1) in simp)
  then show ?thesis
    by (simp add: sorted_wrt_map successively_conv_sorted_wrt transp_def sorted_map)
qed

lemma window_length:
  assumes "window s" "0 < st_pushInterval s" "0 \<le> st_maxPeriod s"
  shows "int (length (st_dataPoints s)) \<le> st_maxPeriod s div st_pushInterval s + 1"
proof (cases "st_dataPoints s = []")
  case False
  with assms spaced_length [of "st_pushInterval s" "st_dataPoints s"]
  have "int (length (st_dataPoints s) - 1) * st_pushInterval s \<le> st_maxPeriod s" by (simp add: window_def)
  with assms(2) have "int (length (st_dataPoints s) - 1) \<le> st_maxPeriod s div st_pushInterval s"
    using zdiv_mono1 [of _ "st_maxPeriod s" "st_pushInterval s"] by fastforce
  with False show ?thesis by (simp add: of_nat_diff Suc_le_eq)
qed (use assms in \<open>simp add: pos_imp_zdiv_nonneg_iff\<close>)

section \<open>Sampling\<close>

lemma dropExpired_dropWhile:
  assumes "0 \<le> maxPeriod"
  shows "ps \<noteq> [] \<Longrightarrow> list_all (\<lambda>p. sp_timestamp p \<noteq> None) ps \<Longrightarrow> sp_timestamp (last ps) = Some now \<Longrightarrow>
    dropExpired now maxPeriod ps = Some (dropWhile (\<lambda>p. now - stamp p > maxPeriod) ps)"
  using assms by (induction ps) (auto split: if_splits)

lemma fillPoint_stamp [simp]: "sp_timestamp (fillPoint c p) = sp_timestamp p"
  by (simp add: fillPoint_def)

lemma fillPoint_valid: "sp_timestamp p = Some t \<Longrightarrow> 0 < t \<Longrightarrow> validPoint (Some (fillPoint c p))"
  by (simp add: validPoint_def fillPoint_def)

lemma fillPoint_counters: "restoreCounters (fillPoint c p) = c"
  by (rule ext) (simp add: restoreCounters_def fillPoint_def or_zero_def split: Counter.split)

lemma restoreCounters_fillLast: "restoreCounters (last (fillLast c ps)) = c"
  by (simp add: fillLast_def fillPoint_counters)

lemma spaced_fillLast: "ps \<noteq> [] \<Longrightarrow> spaced d (fillLast c ps) = spaced d ps"
  by (cases ps rule: rev_cases) (simp_all add: spaced_def fillLast_def successively_append_iff)

lemma fillLast_ends:
  "ps \<noteq> [] \<Longrightarrow> sp_timestamp (last (fillLast c ps)) = sp_timestamp (last ps)
     \<and> sp_timestamp (hd (fillLast c ps)) = sp_timestamp (hd ps)"
  by (cases ps rule: rev_cases) (simp_all add: fillLast_def hd_append)

lemma fillLast_not_Nil [simp]: "fillLast c ps \<noteq> []"
  by (simp add: fillLast_def)

lemma fillLast_window:
  assumes "list_all (validPoint \<circ> Some) (butlast ps)" "ps \<noteq> []" "sp_timestamp (last ps) = Some t" "0 < t"
    and "spaced (st_pushInterval s) ps" "t - stamp (hd ps) \<le> st_maxPeriod s"
  shows "window (s\<lparr>st_dataPoints := fillLast c ps\<rparr>)"
  using assms fillPoint_valid [OF assms(3,4), of c] fillLast_ends [OF assms(2), of c]
  by (simp add: window_def spaced_fillLast) (simp add: fillLast_def)

lemma validPoint_stamp: "validPoint (Some p) \<Longrightarrow> \<exists>t. sp_timestamp p = Some t \<and> 0 < t"
  by (auto simp: validPoint_def)

lemma spaced_snoc:
  "spaced d (ps @ [q]) \<longleftrightarrow> spaced d ps \<and> (ps \<noteq> [] \<longrightarrow> stamp (last ps) + d \<le> stamp q)"
  by (auto simp: spaced_def successively_append_iff)

lemma spaced_suffix: "suffix ps qs \<Longrightarrow> spaced d qs \<Longrightarrow> spaced d ps"
  by (auto simp: suffix_def spaced_def successively_append_iff)

text \<open>One sample: never undefined, keeps the window, and leaves a last point with the counters.\<close>

lemma takeSample_window:
  assumes "window s" "0 < now" "0 \<le> st_maxPeriod s"
  shows "\<exists>ps. takeSample now s = Some (s\<lparr>st_dataPoints := fillLast (st_counters s) ps\<rparr>)
    \<and> window (s\<lparr>st_dataPoints := fillLast (st_counters s) ps\<rparr>)"
proof (cases "st_dataPoints s \<noteq> [] \<and> now - stamp (last (st_dataPoints s)) < st_pushInterval s")
  case True
  let ?ps = "st_dataPoints s"
  have all: "list_all (validPoint \<circ> Some) ?ps" "?ps \<noteq> []" using assms(1) True by (simp_all add: window_def)
  then have "validPoint (Some (last ?ps))" by (metis comp_apply last_in_set list_all_iff)
  then obtain t where t: "sp_timestamp (last ?ps) = Some t" "0 < t" using validPoint_stamp by blast
  have "list_all (validPoint \<circ> Some) (butlast ?ps)" using all(1) by (auto simp: list_all_iff dest: in_set_butlastD)
  then have "window (s\<lparr>st_dataPoints := fillLast (st_counters s) ?ps\<rparr>)"
    by (rule fillLast_window [OF _ all(2) t]) (use assms(1) all t in \<open>simp_all add: window_def\<close>)
  with True t show ?thesis by (intro exI [of _ ?ps]) (simp add: takeSample_def)
next
  case False
  define new where "new = StatPoint_createShared\<lparr>sp_timestamp := Some now\<rparr>"
  have new: "sp_timestamp new = Some now" by (simp add: new_def)
  define ps where "ps = st_dataPoints s @ [new]"
  define qs where "qs = dropWhile (\<lambda>p. now - stamp p > st_maxPeriod s) ps"
  have all: "list_all (validPoint \<circ> Some) (st_dataPoints s)" using assms(1) by (simp add: window_def)
  then have stamped: "list_all (\<lambda>p. sp_timestamp p \<noteq> None) ps"
    using new by (auto simp: ps_def list_all_iff dest: validPoint_stamp)
  have drop: "dropExpired now (st_maxPeriod s) ps = Some qs"
    unfolding qs_def by (rule dropExpired_dropWhile [OF assms(3) _ stamped]) (simp_all add: ps_def new)
  have reuse: "(if st_dataPoints s = [] then Some False
      else map_option (\<lambda>t. now - t < st_pushInterval s) (sp_timestamp (last (st_dataPoints s)))) = Some False"
    using False all by (cases "st_dataPoints s" rule: rev_cases) (auto dest: validPoint_stamp)
  have take: "takeSample now s = Some (s\<lparr>st_dataPoints := fillLast (st_counters s) qs\<rparr>)"
    unfolding takeSample_def Let_def reuse using drop by (simp add: ps_def new_def)
  have suf: "suffix qs ps" by (simp add: qs_def suffix_dropWhile)
  have "qs \<noteq> []" using assms(3) new by (auto simp: qs_def ps_def dropWhile_eq_Nil_conv)
  then have hd: "now - stamp (hd qs) \<le> st_maxPeriod s" using hd_dropWhile [of "\<lambda>p. now - stamp p > st_maxPeriod s" ps]
    by (auto simp: qs_def)
  obtain zs where zs: "ps = zs @ qs" using suf by (auto simp: suffix_def)
  then obtain rs where rs: "qs = rs @ [new]" using \<open>qs \<noteq> []\<close> by (cases qs rule: rev_cases) (auto simp: ps_def)
  then have "list_all (validPoint \<circ> Some) (butlast qs)" using all zs by (auto simp: ps_def)
  moreover have "spaced (st_pushInterval s) ps"
    using assms(1) False new by (auto simp: ps_def spaced_snoc window_def)
  then have "spaced (st_pushInterval s) qs" using suf by (rule spaced_suffix [rotated])
  ultimately have "window (s\<lparr>st_dataPoints := fillLast (st_counters s) qs\<rparr>)"
    using fillLast_window [OF _ \<open>qs \<noteq> []\<close> _ assms(2)] rs new hd by simp
  with take show ?thesis by blast
qed

section \<open>Restarts\<close>

lemma validPoints_sorted:
  "list_all (validPoint \<circ> Some) ps \<Longrightarrow> sorted (map stamp ps) \<Longrightarrow> \<forall>p \<in> set ps. from \<le> stamp p \<Longrightarrow>
     validPoints from (map Some ps)"
  by (induction ps arbitrary: "from") auto

lemma spaced_filter: "0 \<le> d \<Longrightarrow> spaced d ps \<Longrightarrow> spaced d (filter P ps)"
proof -
  assume d: "0 \<le> d"
  then have "transp (\<lambda>p q. stamp p + d \<le> stamp q)" by (auto simp: transp_def)
  then have "spaced d xs = sorted_wrt (\<lambda>p q. stamp p + d \<le> stamp q) xs" for xs
    by (simp add: spaced_def successively_conv_sorted_wrt)
  then show "spaced d ps \<Longrightarrow> spaced d (filter P ps)" by (simp add: sorted_wrt_filter)
qed

lemma retained_window:
  assumes "list_all (validPoint \<circ> Some) ps" "spaced (st_pushInterval s) ps" "0 \<le> st_pushInterval s"
  shows "window (s\<lparr>st_counters := c, st_dataPoints := retained now (st_maxPeriod s) ps\<rparr>)"
proof -
  let ?rs = "retained now (st_maxPeriod s) ps"
  have "now - st_maxPeriod s \<le> stamp p \<and> stamp p \<le> now" if "p \<in> set ?rs" for p using that by (simp add: retained_def)
  from this [of "hd ?rs"] this [of "last ?rs"]
  have "?rs \<noteq> [] \<longrightarrow> stamp (last ?rs) - stamp (hd ?rs) \<le> st_maxPeriod s" by fastforce
  with assms show ?thesis by (auto simp: window_def retained_def spaced_filter list_all_iff)
qed

text \<open>The states of the statistics over the runs of the server, with the clock readings positive: counting,
  sampling, and starting again from a state file that was written.\<close>

inductive stats_reachable :: "(StatPointDto list \<Rightarrow> string) \<Rightarrow> (string \<Rightarrow> StatPointDto option list option option) \<Rightarrow>
    Statistics \<Rightarrow> bool" for writeJson readJson where
  fresh: "stats_reachable writeJson readJson Statistics_default"
| count: "stats_reachable writeJson readJson s \<Longrightarrow>
    stats_reachable writeJson readJson (s\<lparr>st_counters := counter_add c n (st_counters s)\<rparr>)"
| sample: "stats_reachable writeJson readJson s \<Longrightarrow> 0 < now \<Longrightarrow> runStatIteration now s = Some s' \<Longrightarrow>
    stats_reachable writeJson readJson s'"
| restart: "stats_reachable writeJson readJson s \<Longrightarrow>
    saveState writeJson calls path s = (Some content, ok) \<Longrightarrow>
    readJson (c_str content) = Some (Some (map Some (st_dataPoints s))) \<Longrightarrow>
    loadState readJson \<lparr>sf_open = Some (int (length content), Some content), sf_exists = e\<rparr> now Statistics_default
      = (s', result) \<Longrightarrow>
    stats_reachable writeJson readJson s'"

lemma hours_nonneg [simp]: "0 \<le> n \<Longrightarrow> 0 \<le> hours n"
  by (simp add: hours_def)

definition week :: int where "week = hours (7 * 24)"

definition weekly :: "Statistics \<Rightarrow> bool" where
  "weekly s \<longleftrightarrow> window s \<and> st_maxPeriod s = week \<and> st_pushInterval s = hours 1"

lemma weekly_length: "weekly s \<Longrightarrow> length (st_dataPoints s) \<le> 169"
  using window_length [of s] by (simp add: weekly_def week_def hours_def)

text \<open>The state file of a weekly window is accepted.\<close>

lemma readState_saved:
  assumes "weekly s" "st_dataPoints s \<noteq> []" "saveState writeJson calls path s = (Some content, ok)"
    and "readJson (c_str content) = Some (Some (map Some (st_dataPoints s)))"
  shows "readState readJson \<lparr>sf_open = Some (int (length content), Some content), sf_exists = e\<rparr> = Inr (st_dataPoints s)"
proof -
  have "content = writeJson (st_dataPoints s)" "content \<noteq> []" "length content \<le> MAX_STATE_BYTES"
    using assms(3) by (auto simp: saveState_def getJsonData_def writeAtomically_def Let_def
        split: if_splits prod.splits dest: writeAll_out)
  moreover have "validPoints 0 (map Some (st_dataPoints s))"
  proof (rule validPoints_sorted)
    show all: "list_all (validPoint \<circ> Some) (st_dataPoints s)" using assms(1) by (simp add: weekly_def window_def)
    show "sorted (map stamp (st_dataPoints s))"
      using assms(1) by (intro spaced_sorted [of "hours 1"]) (auto simp: weekly_def window_def)
    show "\<forall>p \<in> set (st_dataPoints s). 0 \<le> stamp p" using all by (auto simp: list_all_iff dest!: validPoint_stamp)
  qed
  ultimately show ?thesis
    using assms(2,4) weekly_length [OF assms(1)] by (simp add: readState_def MAX_STATE_POINTS_def comp_def)
qed

lemma readState_null: "saveState writeJson calls path s = (Some content, ok) \<Longrightarrow> st_dataPoints s = [] \<Longrightarrow>
    readJson (c_str content) = Some (Some (map Some (st_dataPoints s))) \<Longrightarrow>
    readState readJson \<lparr>sf_open = Some (int (length content), Some content), sf_exists = e\<rparr> = Inl INVALID_STATE"
  by (simp add: readState_def)

lemma weekly_default: "weekly Statistics_default"
  by (simp add: weekly_def window_def week_def Statistics_default_def Statistics_new_def spaced_def)

lemma reachable_weekly: "stats_reachable writeJson readJson s \<Longrightarrow> weekly s"
proof (induction rule: stats_reachable.induct)
  case fresh
  show ?case by (rule weekly_default)
next
  case (count s c n)
  then show ?case by (auto simp: weekly_def window_def)
next
  case (sample s now s')
  with takeSample_window [of s now] show ?case by (auto simp: weekly_def week_def hours_def runStatIteration_def)
next
  case (restart s calls path content ok e now s' result)
  show ?case
  proof (cases "st_dataPoints s = []")
    case True
    then have "readState readJson \<lparr>sf_open = Some (int (length content), Some content), sf_exists = e\<rparr> = Inl INVALID_STATE"
      using restart.hyps(2,3) by (intro readState_null)
    with restart.hyps(4) show ?thesis by (simp add: loadState_def weekly_default)
  next
    case False
    have "window (Statistics_default\<lparr>st_counters := restoreCounters (last (st_dataPoints s)),
        st_dataPoints := retained now (st_maxPeriod Statistics_default) (st_dataPoints s)\<rparr>)"
      using restart.IH by (intro retained_window) (auto simp: weekly_def window_def Statistics_default_def Statistics_new_def)
    with restart.hyps(4) readState_saved [OF restart.IH False, of writeJson calls path content ok readJson e] restart.hyps(2,3) show ?thesis
      by (auto simp: loadState_def weekly_def Statistics_default_def Statistics_new_def week_def)
  qed
qed

lemma sample_returns:
  assumes "weekly s" and "0 < now"
  shows "\<exists>s'. runStatIteration now s = Some s' \<and> st_dataPoints s' \<noteq> [] \<and> st_counters s' = st_counters s
    \<and> restoreCounters (last (st_dataPoints s')) = st_counters s"
proof -
  have "window s" "0 \<le> st_maxPeriod s" using assms(1) by (simp_all add: weekly_def week_def hours_def)
  from takeSample_window [OF this(1) assms(2) this(2)] show ?thesis
    by (auto simp: runStatIteration_def restoreCounters_fillLast)
qed

lemma validPoints_list:
  "validPoints from ps \<Longrightarrow> list_all validPoint ps \<and> sorted (map (stamp \<circ> the) ps) \<and> (\<forall>p \<in> set ps. from \<le> stamp (the p))"
  by (induction "from" ps rule: validPoints.induct) (auto simp: order_trans)

lemma readState_Inr:
  assumes "readState readJson file = Inr ps"
  shows "ps \<noteq> [] \<and> list_all (validPoint \<circ> Some) ps \<and> sorted (map stamp ps)"
proof -
  obtain loaded where l: "validPoints 0 loaded" "loaded \<noteq> []" "ps = map the loaded"
    using assms by (auto simp: readState_def split: option.splits prod.splits if_splits)
  then have "Some (the p) = p" if "p \<in> set loaded" for p
    using validPoints_list [OF l(1)] that by (auto simp: list_all_iff validPoint_def split: option.splits)
  then show ?thesis using l validPoints_list [OF l(1)] by (auto simp: list_all_iff)
qed

lemma saveState_whole: "fst (saveState writeJson calls path s) \<in> {None, Some (getJsonData writeJson s)}"
  by (auto simp: saveState_def writeAtomically_def Let_def split: prod.splits dest: writeAll_out)

section \<open>A concrete run\<close>

definition demo_counted :: Statistics where
  "demo_counted = Statistics_default\<lparr>st_counters := counter_add EVENT_ROOM_CREATED 3 Counters_new\<rparr>"

definition demo_point :: StatPointDto where
  "demo_point = fillPoint (counter_add EVENT_ROOM_CREATED 3 Counters_new)
     (StatPoint_createShared\<lparr>sp_timestamp := Some 5000\<rparr>)"

definition demo_sampled :: Statistics where
  "demo_sampled = demo_counted\<lparr>st_dataPoints := [demo_point]\<rparr>"

definition demo_atomic :: AtomicCalls where
  "demo_atomic = \<lparr>at_mkstemp = True, at_writes = [Inl EINTR, Inr 1, Inr 7], at_fsync = True, at_close = True,
     at_rename = True, at_dir_open = True, at_dir_fsync = True, at_dir_close = True\<rparr>"

lemma demo_reachable: "stats_reachable w r demo_counted"
  unfolding demo_counted_def
  using stats_reachable.count [OF stats_reachable.fresh, of w r EVENT_ROOM_CREATED 3]
  by (simp add: Statistics_default_def Statistics_new_def)

lemma demo_sample: "runStatIteration 5000 demo_counted = Some demo_sampled"
  by (simp add: runStatIteration_def takeSample_def demo_counted_def Statistics_default_def Statistics_new_def
      demo_sampled_def demo_point_def fillLast_def hours_def)

lemma demo_sampled_reachable: "stats_reachable w r demo_sampled"
  by (rule stats_reachable.sample [OF demo_reachable _ demo_sample]) simp

section \<open>Properties\<close>

text \<open>C29: Over any number of samples, events and restarts from saved state the retained window holds at most 169
  points, an hour or more apart and at most a week from first to last, each complete and with a positive
  time stamp, whatever way the clock moves.\<close>

theorem stats_window_bounded:
  assumes "stats_reachable writeJson readJson s"
  shows "length (st_dataPoints s) \<le> 169 \<and> list_all (validPoint \<circ> Some) (st_dataPoints s)
    \<and> successively (\<lambda>p q. stamp p + hours 1 \<le> stamp q) (st_dataPoints s)
    \<and> (st_dataPoints s \<noteq> [] \<longrightarrow> stamp (last (st_dataPoints s)) - stamp (hd (st_dataPoints s)) \<le> hours (7 * 24))"
  using reachable_weekly [OF assms] weekly_length [OF reachable_weekly [OF assms]]
  by (auto simp: weekly_def window_def week_def spaced_def)

lemma stats_window_bounded_witness:
  "length (st_dataPoints demo_sampled) \<le> 169 \<and> list_all (validPoint \<circ> Some) (st_dataPoints demo_sampled)"
  using stats_window_bounded [OF demo_sampled_reachable [of "\<lambda>_. []" "\<lambda>_. None"]] by blast

text \<open>C28: The loop of a sample that drops old points always ends before the list is empty, and no null time stamp is
  read: a sample at a positive clock reading returns, whether the clock went forwards or backwards, and
  leaves a last point with the current counters.\<close>

theorem sample_terminates:
  assumes "stats_reachable writeJson readJson s" and "0 < now"
  shows "\<exists>s'. runStatIteration now s = Some s' \<and> st_dataPoints s' \<noteq> [] \<and> st_counters s' = st_counters s
    \<and> restoreCounters (last (st_dataPoints s')) = st_counters s"
  by (rule sample_returns [OF reachable_weekly [OF assms(1)] assms(2)])

lemma sample_terminates_witness:
  "\<exists>s'. runStatIteration 1 demo_sampled = Some s' \<and> st_dataPoints s' \<noteq> []
     \<and> restoreCounters (last (st_dataPoints s')) = st_counters demo_sampled"
  using sample_terminates [OF demo_sampled_reachable [of "\<lambda>_. []" "\<lambda>_. None"], of 1] by auto

text \<open>C27: A restart restores the statistics: when a sample is followed by a save that replaces the state file, and the
  JSON mapper reads back what it wrote, a fresh process loads the file, gets the counters of the sample
  and exactly the points of the last week up to its clock.\<close>

theorem stats_restart_roundtrip:
  assumes "stats_reachable writeJson readJson s0" and "0 < now" and "runStatIteration now s0 = Some s"
    and "saveState writeJson calls path s = (Some content, ok)"
    and "readJson (c_str content) = Some (Some (map Some (st_dataPoints s)))"
  shows "\<exists>s'. loadState readJson \<lparr>sf_open = Some (int (length content), Some content), sf_exists = e\<rparr> later
      Statistics_default = (s', LOADED)
    \<and> st_counters s' = st_counters s0
    \<and> st_dataPoints s' = filter (\<lambda>p. later - hours (7 * 24) \<le> stamp p \<and> stamp p \<le> later) (st_dataPoints s)"
proof -
  have "stats_reachable writeJson readJson s" using assms(1-3) by (rule stats_reachable.sample)
  note w = reachable_weekly [OF this]
  obtain s1 where "runStatIteration now s0 = Some s1" "st_dataPoints s1 \<noteq> []"
      "restoreCounters (last (st_dataPoints s1)) = st_counters s0"
    using sample_returns [OF reachable_weekly [OF assms(1)] assms(2)] by blast
  with assms(3) readState_saved [OF w, of writeJson calls path content ok readJson e] assms(4,5) show ?thesis
    by (simp add: loadState_def retained_def Statistics_default_def Statistics_new_def)
qed

lemma stats_restart_roundtrip_witness:
  "\<exists>s'. loadState (\<lambda>_. Some (Some [Some demo_point])) \<lparr>sf_open = Some (2, Some ''[]''), sf_exists = None\<rparr> 6000
      Statistics_default = (s', LOADED)
    \<and> st_counters s' EVENT_ROOM_CREATED = 3 \<and> st_dataPoints s' = [demo_point]"
proof -
  have "saveState (\<lambda>_. ''[]'') demo_atomic ''/s'' demo_sampled = (Some ''[]'', True)"
    by (simp add: saveState_def getJsonData_def writeAtomically_def demo_atomic_def MAX_STATE_BYTES_def)
  moreover have "(\<lambda>_. Some (Some [Some demo_point])) (c_str ''[]'') = Some (Some (map Some (st_dataPoints demo_sampled)))"
    by (simp add: demo_sampled_def)
  ultimately show ?thesis
    using stats_restart_roundtrip [OF demo_reachable [of "\<lambda>_. ''[]''" "\<lambda>_. Some (Some [Some demo_point])"] _ demo_sample,
        of demo_atomic "''/s''" "''[]''" True None 6000]
    by (auto simp: demo_sampled_def demo_point_def demo_counted_def hours_def counter_add_def Counters_new_def)
qed

text \<open>C30: Loading is all or nothing: unless it reports \<open>LOADED\<close> the statistics are unchanged, and if it does, every
  retained point is complete, positive, in order and within the period. A missing file is told from a bad
  one, and saving leaves the old file or the whole new content, never a part.\<close>

theorem state_load_all_or_nothing:
  assumes "loadState readJson file now s = (s', result)"
  shows "(result = LOADED \<longrightarrow> sorted (map stamp (st_dataPoints s')) \<and> list_all (validPoint \<circ> Some) (st_dataPoints s')
        \<and> (\<forall>p \<in> set (st_dataPoints s'). now - st_maxPeriod s \<le> stamp p \<and> stamp p \<le> now))
    \<and> (result \<noteq> LOADED \<longrightarrow> s' = s) \<and> (result = MISSING_STATE \<longrightarrow> sf_open file = None)
    \<and> fst (saveState writeJson calls path s) \<in> {None, Some (getJsonData writeJson s)}"
proof -
  have save: "fst (saveState writeJson calls path s) \<in> {None, Some (getJsonData writeJson s)}" by (rule saveState_whole)
  show ?thesis
  proof (cases "readState readJson file")
    case (Inl r)
    then have "r \<noteq> LOADED" "r = MISSING_STATE \<longrightarrow> sf_open file = None"
      by (auto simp: readState_def split: option.splits prod.splits if_splits)
    with Inl assms save show ?thesis by (auto simp: loadState_def)
  next
    case (Inr ps)
    then have "st_dataPoints s' = retained now (st_maxPeriod s) ps" "result = LOADED"
      using assms by (auto simp: loadState_def)
    moreover have "sorted (map stamp (retained now (st_maxPeriod s) ps))"
      using readState_Inr [OF Inr] sorted_filter [of stamp ps] by (simp add: retained_def)
    ultimately show ?thesis using readState_Inr [OF Inr] save by (auto simp: retained_def list_all_iff)
  qed
qed

lemma state_load_all_or_nothing_witness:
  "loadState (\<lambda>_. None) \<lparr>sf_open = Some (2, Some ''[]''), sf_exists = None\<rparr> 6000 demo_sampled = (demo_sampled, INVALID_STATE)
   \<and> fst (saveState (\<lambda>_. ''[]'') demo_atomic ''/s'' demo_sampled) \<in> {None, Some (getJsonData (\<lambda>_. ''[]'') demo_sampled)}"
proof -
  have "loadState (\<lambda>_. None) \<lparr>sf_open = Some (2, Some ''[]''), sf_exists = None\<rparr> 6000 demo_sampled = (demo_sampled, INVALID_STATE)"
    by (simp add: loadState_def readState_def MAX_STATE_BYTES_def)
  with state_load_all_or_nothing [OF this, of "\<lambda>_. ''[]''" demo_atomic "''/s''"] show ?thesis by simp
qed

end
