(* ===== verification/Accounting.thy ===== *)
theory Accounting
  imports Tallies LobbyProps StatisticsProps
begin

text \<open>
  The session counters of the statistics as accounts of the lobby: through every step of a server that was
  started with the counters of a state file, what is counted agrees with the members of the registered rooms
  and with the sessions in their grace period. \<open>tally\<close> are the server's counters, \<open>served\<close> its runs; a run
  stays away from the last sequence number of every room, where an announcement throws.
\<close>

section \<open>The accounts\<close>

abbreviation tally :: "Server \<Rightarrow> Counters" where
  "tally \<equiv> Heap.st_counters"

text \<open>The members of the registered rooms, and the sessions in their grace period.\<close>

definition members :: "Server \<Rightarrow> nat" where
  "members st = sum_list (map (\<lambda>e. length (rm_peerById (st_rooms st (snd e)))) (lb_rooms st))"

definition detached :: "Server \<Rightarrow> nat" where
  "detached st = length (filter (\<lambda>e. SessionLease_disconnected (sr_lease (snd e))) (lb_sessions st))"

definition accounts :: "Counters \<Rightarrow> Server \<Rightarrow> bool" where
  "accounts c0 st \<longleftrightarrow>
     tally st EVENT_PEER_CONNECTED - c0 EVENT_PEER_CONNECTED
       = tally st EVENT_SESSION_EXPIRED - c0 EVENT_SESSION_EXPIRED + of_nat (members st)
   \<and> tally st EVENT_PEER_DISCONNECTED - c0 EVENT_PEER_DISCONNECTED
       = tally st EVENT_PEER_RESUMED - c0 EVENT_PEER_RESUMED
       + (tally st EVENT_SESSION_EXPIRED - c0 EVENT_SESSION_EXPIRED) + of_nat (detached st)"

text \<open>An operation that counts one event of a session.\<close>

definition counts :: "Counter \<Rightarrow> Server \<Rightarrow> Server \<Rightarrow> bool" where
  "counts x st st' \<longleftrightarrow> (\<forall>c \<in> session_events. tally st' c = tally st c + of_bool (c = x))"

lemma counts_emit: "x \<in> session_events \<Longrightarrow> counts x st (emit [Count x] st)"
  by (auto simp: counts_def emit_def counter_add_def)

lemma counts_around: "tallied st st1 \<Longrightarrow> counts x st1 st2 \<Longrightarrow> tallied st2 st3 \<Longrightarrow> counts x st st3"
  by (simp add: counts_def tallied_def)

lemmas counts_before = counts_around [OF _ _ tallied_refl]
lemmas counts_after = counts_around [OF tallied_refl]

lemma accounts_frame:
  "tallied st st' \<Longrightarrow> members st' = members st \<Longrightarrow> detached st' = detached st \<Longrightarrow>
     accounts c0 st \<Longrightarrow> accounts c0 st'"
  by (simp add: accounts_def tallied_def session_events_def)

lemma accounts_connected:
  "counts EVENT_PEER_CONNECTED st st' \<Longrightarrow> members st' = Suc (members st) \<Longrightarrow> detached st' = detached st \<Longrightarrow>
     accounts c0 st \<Longrightarrow> accounts c0 st'"
  by (simp add: accounts_def counts_def session_events_def algebra_simps)

lemma accounts_resumed:
  "counts EVENT_PEER_RESUMED st st' \<Longrightarrow> members st' = members st \<Longrightarrow> detached st = Suc (detached st') \<Longrightarrow>
     accounts c0 st \<Longrightarrow> accounts c0 st'"
  by (simp add: accounts_def counts_def session_events_def algebra_simps)

lemma accounts_disconnected:
  "counts EVENT_PEER_DISCONNECTED st st' \<Longrightarrow> members st' = members st \<Longrightarrow> detached st' = Suc (detached st) \<Longrightarrow>
     accounts c0 st \<Longrightarrow> accounts c0 st'"
  by (simp add: accounts_def counts_def session_events_def algebra_simps)

lemma accounts_expired:
  assumes "\<forall>c \<in> session_events. tally st' c = tally st c + (if c = EVENT_SESSION_EXPIRED then of_nat k else 0)"
    and "members st = members st' + k" "detached st = detached st' + k" and "accounts c0 st"
  shows "accounts c0 st'"
  using assms by (simp add: accounts_def session_events_def algebra_simps)

section \<open>Frames\<close>

lemma members_same: "lb_rooms st' = lb_rooms st \<Longrightarrow>
    (\<And>rr. rm_peerById (st_rooms st' rr) = rm_peerById (st_rooms st rr)) \<Longrightarrow> members st' = members st"
  by (simp add: members_def)

lemma detached_same: "lb_sessions st' = lb_sessions st \<Longrightarrow> detached st' = detached st"
  by (simp add: detached_def)

lemma sound_accounts_same:
  assumes "sound env st st'" and "lobby_inv env st"
  shows "members st' = members st" "detached st' = detached st"
proof -
  have k: "keeps st st'" by (rule sound_lobby(2) [OF assms])
  then have f: "lb_rooms st' = lb_rooms st" "lb_sessions st' = lb_sessions st"
    using lobby_fields [of st' st] by (simp_all add: keeps_def)
  show "members st' = members st" by (rule members_same [OF f(1)]) (use k in \<open>simp add: keeps_def\<close>)
  show "detached st' = detached st" by (rule detached_same [OF f(2)])
qed

lemma accounts_sound:
  assumes "sound env st st'" "server_inv env st" "tallied st st'" "accounts c0 st"
  shows "accounts c0 st'"
  using sound_accounts_same [OF assms(1)] assms(2-4) by (auto simp: server_inv_def intro: accounts_frame)

text \<open>Registered rooms are different objects.\<close>

lemma rooms_distinct:
  assumes "lobby_inv env st"
  shows "distinct (map snd (lb_rooms st))"
proof -
  have n: "Room_getName (snd e) st = fst e" if "e \<in> set (lb_rooms st)" for e
    using assms that by (auto simp: lobby_inv_def rooms_ok_def)
  have "distinct (map fst (lb_rooms st))" using assms by (simp add: lobby_inv_def rooms_ok_def um_valid_def)
  then have "inj_on fst (set (lb_rooms st))" "distinct (lb_rooms st)" by (simp_all add: distinct_map)
  moreover have "inj_on snd (set (lb_rooms st))"
    using \<open>inj_on fst _\<close> n by (metis inj_on_def)
  ultimately show ?thesis by (simp add: distinct_map)
qed

lemma sum_change:
  assumes "distinct xs" "x \<in> set xs" "\<And>y. y \<noteq> x \<Longrightarrow> g y = f y" "g x = f x + k"
  shows "sum_list (map g xs) = sum_list (map f xs) + (k :: nat)"
proof -
  have "sum_list (map g xs) = sum g (set xs)" "sum_list (map f xs) = sum f (set xs)"
    using assms(1) by (simp_all add: sum_list_distinct_conv_sum_set)
  moreover have "sum g (set xs) = g x + sum g (set xs - {x})" "sum f (set xs) = f x + sum f (set xs - {x})"
    using assms(2) by (simp_all add: sum.remove)
  moreover have "sum g (set xs - {x}) = sum f (set xs - {x})" using assms(3) by (intro sum.cong) auto
  ultimately show ?thesis using assms(4) by simp
qed

section \<open>Announcements\<close>

lemma announce:
  assumes "Room_publishDurable env rr m ex no_callback st = (st', r)"
  shows "rm_peerById (st_rooms st' q) = rm_peerById (st_rooms st q)"
    and "rm_sequencer (st_rooms st rr) \<noteq> - 1 \<Longrightarrow> \<exists>x. r = Inr x"
    and "unat (rm_sequencer (st_rooms st' q)) \<le> Suc (unat (rm_sequencer (st_rooms st q)))"
    and "Heap.more st' = Heap.more st" "p_room (st_peers st' pr) = p_room (st_peers st pr)"
proof -
  have more: "Heap.more (Room_sendMessageAsync env rr m ex st) = Heap.more st"
    "identity (st_peers (Room_sendMessageAsync env rr m ex st) pr) = identity (st_peers st pr)" for m ex st
    using quiet_broadcast [of st env rr m ex] by (simp_all add: quiet_def)
  from assms have "rm_peerById (st_rooms st' q) = rm_peerById (st_rooms st q)
    \<and> (rm_sequencer (st_rooms st rr) \<noteq> - 1 \<longrightarrow> (\<exists>x. r = Inr x))
    \<and> unat (rm_sequencer (st_rooms st' q)) \<le> Suc (unat (rm_sequencer (st_rooms st q)))
    \<and> Heap.more st' = Heap.more st \<and> p_room (st_peers st' pr) = p_room (st_peers st pr)"
  proof (cases rule: publishDurable_plain)
    case (published st1 n h)
    with more [of "set_serverSeq n m" ex st1] show ?thesis by (simp add: identity_iff unat_succ_u64)
  qed simp
  then show "rm_peerById (st_rooms st' q) = rm_peerById (st_rooms st q)"
    "rm_sequencer (st_rooms st rr) \<noteq> - 1 \<Longrightarrow> \<exists>x. r = Inr x"
    "unat (rm_sequencer (st_rooms st' q)) \<le> Suc (unat (rm_sequencer (st_rooms st q)))"
    "Heap.more st' = Heap.more st" "p_room (st_peers st' pr) = p_room (st_peers st pr)" by blast+
qed

lemma welcome_announce:
  assumes "Room_welcomePeer env rr pr st = (st', e)"
  obtains m ex r where "Room_publishDurable env rr m ex no_callback st = (st', r)" "e = None \<longleftrightarrow> (\<exists>x. r = Inr x)"
  using assms by (auto simp: Room_welcomePeer_def Let_def split: prod.splits sum.splits)

lemma goodbye_announce:
  assumes "Room_goodbyePeer env rr pr st = (st', e)"
  obtains m ex r where "Room_publishDurable env rr m ex no_callback st = (st', r)" "e = None \<longleftrightarrow> (\<exists>x. r = Inr x)"
  using assms by (auto simp: Room_goodbyePeer_def Let_def split: prod.splits sum.splits)

lemma clear_rooms: "st_rooms (fold File_clearSubscribers frs st) = st_rooms st"
  by (induction frs arbitrary: st) simp_all

lemma withdraw_succeeds:
  assumes "rm_sequencer (st_rooms st rr) \<noteq> - 1" "Room_withdrawPeerFiles env rr pr st = (st', e)"
  shows "e = None"
proof (cases "Peer_getFilesSnapshot (st_peers st pr) = []")
  case True
  with assms show ?thesis by (simp add: Room_withdrawPeerFiles_def)
next
  case False
  obtain st1 frs where t: "Room_takeFiles rr pr st = (st1, frs)" by fastforce
  then have "rm_sequencer (st_rooms (fold File_clearSubscribers frs st1) rr) = rm_sequencer (st_rooms st rr)"
    by (auto simp: clear_rooms Room_takeFiles_def Room_eraseFiles_def Let_def split: prod.splits)
  with assms False t show ?thesis
    by (auto simp: Room_withdrawPeerFiles_def Let_def split: prod.splits sum.splits dest: announce(2))
qed

section \<open>Hellos\<close>

lemma finish_counts:
  assumes fin: "hello_finish env socket pr resumed cursor capability token st = (st', r)"
    and room: "rm_sequencer (st_rooms st (p_room (st_peers st pr))) \<noteq> - 1"
  shows "counts (if resumed then EVENT_PEER_RESUMED else EVENT_PEER_CONNECTED) st st'"
proof -
  define st1 where "st1 = hello_listen socket pr st"
  obtain st2 changed where cap: "hello_capability capability pr st1 = (st2, changed)" by fastforce
  let ?rr = "p_room (st_peers st pr)"
  have rr: "p_room (st_peers st2 pr) = ?rr"
    by (simp add: capability_sound(2) [OF cap]) (simp add: st1_def hello_listen_def)
  obtain st3 thrown where w: "(if changed then Room_withdrawPeerFiles env ?rr pr st2 else (st2, None)) = (st3, thrown)"
    by fastforce
  have "st_rooms st2 = st_rooms st"
    using cap by (auto simp: hello_capability_def st1_def hello_listen_def split: prod.splits)
  then have "rm_sequencer (st_rooms st2 ?rr) \<noteq> - 1" using room by simp
  then have none: "thrown = None" using w withdraw_succeeds [of st2 ?rr env pr st3 thrown] by (auto split: if_splits)
  have t1: "tallied st st1" by (rule tallied_same) (simp add: st1_def hello_listen_def)
  have t2: "tallied st1 st2" using cap by (auto simp: hello_capability_def split: prod.splits)
  have t3: "tallied st2 st3" using w tallied_withdraw [of env ?rr pr st2 st3 thrown] by (auto split: if_splits)
  define st4 where "st4 = peer_send env pr (ready_message st3 pr resumed cursor token) st3"
  have t: "tallied st st4"
    using tallied.frame_trans [OF t1 tallied.frame_trans [OF t2 tallied.frame_trans [OF t3 tallied_send]]]
    by (simp add: st4_def)
  have t5: "tallied s (Room_publishConnectionState env ?rr pr True s)"
    "tallied s (Peer_reissueOutstandingFileRequests env pr (Room_publishConnectionState env ?rr pr True s))" for s :: Server
    by (rule tallied_connection_state)
       (rule tallied.frame_trans [OF tallied_connection_state tallied_reissuePeer])
  note fin' = fin [unfolded hello_finish_def Let_def, folded st1_def, unfolded cap prod.case rr,
      unfolded w none prod.case option.case, folded st4_def]
  show ?thesis
  proof (cases resumed)
    case False
    then have "st' = emit [Count EVENT_PEER_CONNECTED] st4" using fin' by simp
    with False counts_before [OF t counts_emit] show ?thesis by (simp add: session_events_def)
  next
    case True
    then have "tallied (emit [Count EVENT_PEER_RESUMED] st4) st'" using fin' t5 by (auto split: if_splits)
    with True counts_around [OF t counts_emit] show ?thesis by (simp add: session_events_def)
  qed
qed

lemma finish_accounts:
  assumes "handover env socket pr st" "\<not> peer_listens st socket"
    and "hello_finish env socket pr resumed cursor capability token st = (st', r)"
  shows "members st' = members st" "detached st' = detached st"
proof -
  define st1 where "st1 = hello_listen socket pr st"
  have h: "lobby_inv env st" "transports_ok {pr} st" "bound st socket pr"
    using assms(1) by (simp_all add: handover_def)
  have "sound env st1 st'"
    unfolding st1_def by (rule finish_sound [OF in_room_peers assms(3)]) (use h(3) in \<open>simp add: bound_def\<close>)
  moreover have "lobby_inv env st1"
    unfolding st1_def by (rule listen_inv(1) [OF h(1,2) assms(2) h(3) singletonI])
  moreover have "members st1 = members st" by (rule members_same) (simp_all add: st1_def hello_listen_def)
  moreover have "detached st1 = detached st" by (rule detached_same) (simp add: st1_def hello_listen_def)
  ultimately show "members st' = members st" "detached st' = detached st"
    using sound_accounts_same [of env st1 st'] by simp_all
qed

lemma detached_count: "detached st = length (filter (\<lambda>s. s \<noteq> None) (map (sr_lease \<circ> snd) (lb_sessions st)))"
  by (simp add: detached_def SessionLease_disconnected_def filter_map comp_def)

lemma assign_attached:
  "um_valid ss \<Longrightarrow> um_find ss k = Some s \<Longrightarrow> sr_lease s = Some d \<Longrightarrow>
     length (filter (\<lambda>e. SessionLease_disconnected (sr_lease (snd e))) ss)
       = Suc (length (filter (\<lambda>e. SessionLease_disconnected (sr_lease (snd e))) (um_assign k (s\<lparr>sr_lease := None\<rparr>) ss)))"
proof (induction ss)
  case (Cons e ss)
  then show ?case
    by (cases e) (auto simp: um_assign_def um_find_def um_valid_def SessionLease_disconnected_def split: if_splits)
qed simp

lemma resume_accounts:
  assumes "lobby_inv env st" "hello_resume env now now2 socket roomName token st = (st', Some pr)"
  shows "tallied st st'" "members st' = members st" "detached st = Suc (detached st')"
    "rm_sequencer (st_rooms st' rr) = rm_sequencer (st_rooms st rr)"
proof -
  obtain st1 where look: "hello_lookup env now roomName token st = (st1, Some pr)"
    and st': "st' = hello_bind now2 socket pr st1"
    using assms(2) by (auto simp: hello_resume_def split: prod.splits option.splits)
  from look obtain k s d where f: "um_find (lb_sessions st) k = Some s" "sr_lease s = Some d"
    "st1 = st\<lparr>lb_sessions := um_assign k (s\<lparr>sr_lease := None\<rparr>) (lb_sessions st)\<rparr>"
    by (cases rule: lookup_cases) auto
  obtain p es where b: "st' = emit es (upd_peer pr p st1)"
    "es = (case p_socket (st_peers st1 pr) of None \<Rightarrow> [] | Some old \<Rightarrow> if old = socket then [] else [Invalidate old])"
    unfolding st' by (rule bind_cases)
  have "um_valid (lb_sessions st)" using assms(1) by (simp add: lobby_inv_def sessions_ok_def)
  from assign_attached [OF this f(1,2)] have d: "detached st = Suc (detached st')"
    by (simp add: detached_def b(1) f(3))
  have "plain es" using b(2) by (auto split: option.splits)
  then have t: "tallied st st'"
    unfolding b(1) f(3)
    by (intro tallied.frame_trans [OF tallied.frame_trans [OF tallied_same tallied_upd(1)] tallied_emit]) simp_all
  have m: "members st' = members st" by (rule members_same) (simp_all add: b(1) f(3))
  have q: "rm_sequencer (st_rooms st' rr) = rm_sequencer (st_rooms st rr)" by (simp add: b(1) f(3))
  show "tallied st st'" "members st' = members st" "detached st = Suc (detached st')"
    "rm_sequencer (st_rooms st' rr) = rm_sequencer (st_rooms st rr)"
    by (rule t m d q)+
qed

lemma openRoom_accounts:
  assumes inv: "lobby_inv env st" and op: "hello_openRoom bytes roomName st = (st', r)"
  shows "tallied st st'" "members st' = members st" "detached st' = detached st"
    "lb_sessions st' = lb_sessions st" "unat (rm_sequencer (st_rooms st' q)) \<le> unat (rm_sequencer (st_rooms st q))"
proof -
  have "st' = st \<or> (\<exists>r0. getOrCreateRoom roomName st = (st', r0))"
    using op by (auto simp: hello_openRoom_def split: option.splits prod.splits if_splits)
  then have "tallied st st' \<and> members st' = members st \<and> lb_sessions st' = lb_sessions st
    \<and> unat (rm_sequencer (st_rooms st' q)) \<le> unat (rm_sequencer (st_rooms st q))"
  proof (elim disjE exE)
    fix r0 assume "getOrCreateRoom roomName st = (st', r0)"
    then show ?thesis
    proof (cases rule: getOrCreateRoom_cases)
      case (created st0)
      have old: "snd e < st_next st" if "e \<in> set (lb_rooms st)" for e
        using inv that by (auto simp: lobby_inv_def rooms_ok_def)
      have "tallied st (emit [Count EVENT_ROOM_CREATED] (upd_room (st_next st) (Room_new roomName) st))"
        by (rule tallied.frame_trans [OF tallied_upd(2) tallied_emit]) simp
      then have "tallied st st'" by (simp add: tallied_def created(3,5))
      have same: "map (\<lambda>e. length (rm_peerById (st_rooms st' (snd e)))) (lb_rooms st)
          = map (\<lambda>e. length (rm_peerById (st_rooms st (snd e)))) (lb_rooms st)"
        by (rule map_cong [OF refl]) (use old in \<open>fastforce simp: created(3,5)\<close>)
      have "members st' = sum_list (map (\<lambda>e. length (rm_peerById (st_rooms st' (snd e)))) (lb_rooms st))"
        by (simp add: members_def created(3,5) Room_new_def)
      then have mem: "members st' = members st" by (simp only: same members_def [of st])
      have "lb_sessions st' = lb_sessions st"
        "unat (rm_sequencer (st_rooms st' q)) \<le> unat (rm_sequencer (st_rooms st q))"
        by (simp_all add: created(3,5) Room_new_def RoomSequencer_new_def)
      with mem \<open>tallied st st'\<close> show ?thesis by (intro conjI)
    qed simp_all
  qed simp
  then show "tallied st st'" "members st' = members st" "lb_sessions st' = lb_sessions st"
    "unat (rm_sequencer (st_rooms st' q)) \<le> unat (rm_sequencer (st_rooms st q))" by blast+
  then show "detached st' = detached st" by (intro detached_same)
qed

text \<open>Enrolling: a member more, or nothing.\<close>

lemma enter_accounts:
  assumes inv: "lobby_inv env st" and reg: "(name, rr) \<in> set (lb_rooms st)"
    and fits: "lb_peerIdCounter st < 2 ^ 63 - 1"
    and enter: "hello_enter now2 socket nick rr st = (st', r)"
  shows "tallied st st'" "members st' = members st + (if r = None then 0 else 1)"
proof -
  let ?p = "Peer_new socket rr nick (lb_peerIdCounter st) now2"
  let ?st1 = "fresh_peer ?p st"
  from fits enter obtain added where add: "Room_addPeer rr (st_next st) ?st1 = (st', added)"
    and r: "r = (if added then Some (st_next st) else None)"
    by (rule enter_fresh)
  have t1: "tally ?st1 = tally st" by (simp add: fresh_peer_def)
  have m1: "members ?st1 = members st" by (rule members_same) simp_all
  have "tallied st st' \<and> members st' = members st + (if r = None then 0 else 1)"
  proof (cases added)
    case False
    with add have "st' = ?st1" by (simp add: Room_addPeer_def Let_def split: if_splits)
    with t1 m1 r False show ?thesis by (simp add: tallied_same)
  next
    case True
    let ?ps = "um_assign (lb_peerIdCounter st) (st_next st) (rm_peerById (st_rooms st rr))"
    from add True have st': "st' = upd_room rr ((st_rooms st rr)\<lparr>rm_peerById := ?ps\<rparr>) ?st1"
      by (auto simp: Room_addPeer_def Let_def split: if_splits)
    have "i < lb_peerIdCounter st" if "(i, q) \<in> set (rm_peerById (st_rooms st rr))" for i q
      using inv that by (auto simp: lobby_inv_def rooms_ok_def)
    then have "um_find (rm_peerById (st_rooms st rr)) (lb_peerIdCounter st) = None"
      by (force simp: um_find_None)
    moreover have "um_valid (rm_peerById (st_rooms st rr))"
      using heap_invD(1) [of env st rr] inv by (simp add: lobby_inv_def files_ok_def)
    ultimately have len: "length ?ps = Suc (length (rm_peerById (st_rooms st rr)))"
      by (simp add: um.count_store)
    have "members st' = sum_list (map (\<lambda>rr. length (rm_peerById (st_rooms st' rr))) (map snd (lb_rooms st)))"
      by (simp add: members_def st' comp_def)
    also have "\<dots> = sum_list (map (\<lambda>rr. length (rm_peerById (st_rooms st rr))) (map snd (lb_rooms st))) + 1"
    proof (rule sum_change [OF rooms_distinct [OF inv]])
      show "rr \<in> set (map snd (lb_rooms st))" using reg by force
    qed (simp_all add: st' len)
    also have "\<dots> = members st + 1" by (simp add: members_def comp_def)
    finally show ?thesis using r True t1 by (simp add: st' tallied_same)
  qed
  then show "tallied st st'" "members st' = members st + (if r = None then 0 else 1)" by simp_all
qed

lemma file_detached: "detached (hello_file env token rr pr st) = detached st"
  by (simp add: hello_file_def Let_def detached_def um_emplace_def SessionLease_new_def
      SessionLease_disconnected_def split: option.split)

lemma enrol_accounts:
  assumes inv: "lobby_inv env st" and reg: "(name, rr) \<in> set (lb_rooms st)"
    and fits: "lb_peerIdCounter st < 2 ^ 63 - 1" "rm_sequencer (st_rooms st rr) \<noteq> - 1"
    and en: "hello_enrol env now2 socket nick token rr st = (st', r)"
  shows "tallied st st' \<and> detached st' = detached st
    \<and> (r = Inr None \<longrightarrow> members st' = members st)
    \<and> (r \<noteq> Inr None \<longrightarrow> members st' = Suc (members st) \<and> r = Inr (Some (st_next st))
        \<and> p_room (st_peers st' (st_next st)) = rr
        \<and> unat (rm_sequencer (st_rooms st' rr)) \<le> Suc (unat (rm_sequencer (st_rooms st rr))))"
proof -
  let ?pr = "st_next st"
  obtain st2 q where enter: "hello_enter now2 socket nick rr st = (st2, q)" by fastforce
  have rr: "rr < st_next st" using inv reg by (auto simp: lobby_inv_def rooms_ok_def)
  note e = enter_inv [OF inv rr fits(1) enter] and ea = enter_accounts [OF inv reg fits(1) enter]
  have d2: "detached st2 = detached st" by (rule detached_same) (rule e(5))
  show ?thesis
  proof (cases q)
    case None
    with en ea d2 show ?thesis by (simp add: hello_enrol_def enter)
  next
    case (Some pr)
    with e(4) have q: "q = Some ?pr" by (simp split: if_splits)
    define st3 where "st3 = hello_file env token rr ?pr st2"
    have st3: "tally st3 = tally st2" "st_rooms st3 = st_rooms st2" "st_peers st3 = st_peers st2"
      "lb_rooms st3 = lb_rooms st2" by (simp_all add: st3_def hello_file_def Let_def)
    obtain st4 x where w: "Room_welcomePeer env rr ?pr st3 = (st4, x)" by fastforce
    obtain m ex y where pub: "Room_publishDurable env rr m ex no_callback st3 = (st4, y)" "x = None \<longleftrightarrow> (\<exists>z. y = Inr z)"
      by (rule welcome_announce [OF w])
    note an = announce [OF pub(1)] and f = lobby_fields [OF an(4)]
    have "rm_sequencer (st_rooms st3 rr) \<noteq> - 1" using fits(2) by (simp add: st3 e(12))
    with an(2) pub(2) have "x = None" by simp
    with en q w have r: "r = Inr (Some ?pr)" "st' = st4" by (simp_all add: hello_enrol_def enter st3_def)
    have "tallied st st'"
      unfolding r(2)
      by (rule tallied.frame_trans [OF tallied.frame_trans [OF ea(1) tallied_same [OF st3(1)]] tallied_welcome [OF w]])
    moreover have "detached st' = detached st3" by (rule detached_same) (simp add: r(2) f)
    moreover have "members st' = members st2"
      by (rule members_same) (simp_all add: r(2) f an(1) st3)
    moreover have "p_room (st_peers st' ?pr) = rr" using an(5) [of ?pr] by (simp add: r(2) st3 e(10))
    moreover have "unat (rm_sequencer (st_rooms st' rr)) \<le> Suc (unat (rm_sequencer (st_rooms st rr)))"
      using an(3) [of rr] by (simp add: r(2) st3 e(12))
    ultimately show ?thesis using r(1) q ea(2) d2 by (simp add: st3_def file_detached)
  qed
qed

text \<open>No room is within reach of its last message number: an expiry announces one departure per session.\<close>

definition sequences_fit :: "Server \<Rightarrow> bool" where
  "sequences_fit st \<longleftrightarrow>
     (\<forall>rr. unat (rm_sequencer (st_rooms st rr)) + length (lb_sessions st) < 2 ^ 64 - 2)"

lemma not_last: "unat (n :: u64) < 2 ^ 64 - 1 \<Longrightarrow> n \<noteq> - 1"
  by (auto simp: unsigned_minus_1_eq_mask mask_eq_exp_minus_1)

lemma finish_result: "hello_finish env socket pr resumed cursor capability token st = (st', r) \<Longrightarrow> r \<noteq> Inr None"
  by (auto simp: hello_finish_def Let_def split: prod.splits option.splits if_splits)

lemma takePending_accounts:
  assumes "hello_takePending now socket st = (st', b)"
  shows "tallied st st'" "members st' = members st" "detached st' = detached st"
    "st_rooms st' = st_rooms st" "lb_peerIdCounter st' = lb_peerIdCounter st" "lb_listeners st' = lb_listeners st"
proof -
  from assms have same: "tally st' = tally st \<and> lb_rooms st' = lb_rooms st \<and> st_rooms st' = st_rooms st
    \<and> lb_sessions st' = lb_sessions st \<and> lb_peerIdCounter st' = lb_peerIdCounter st \<and> lb_listeners st' = lb_listeners st"
    by (cases rule: takePending_cases) simp_all
  then show "st_rooms st' = st_rooms st" "lb_peerIdCounter st' = lb_peerIdCounter st" "lb_listeners st' = lb_listeners st"
    by simp_all
  from same show "tallied st st'" by (intro tallied_same) simp
  from same show "members st' = members st" by (intro members_same) simp_all
  from same show "detached st' = detached st" by (intro detached_same) simp
qed

lemma room_not_last: "sequences_fit st \<Longrightarrow> unat (rm_sequencer (st_rooms st rr)) < 2 ^ 64 - 2"
  unfolding sequences_fit_def by (drule spec [of _ rr]) linarith

lemma resumed_accounts:
  assumes inv: "server_inv env st" and fit: "\<forall>rr. unat (rm_sequencer (st_rooms st rr)) < 2 ^ 64 - 2"
    and l: "\<not> peer_listens st socket"
    and res: "hello_resume env now now2 socket roomName token st = (st2, Some pr)"
    and fin: "hello_finish env socket pr True cursor capability token st2 = (st', r)"
    and a: "accounts c0 st"
  shows "accounts c0 st'"
proof -
  have lob: "lobby_inv env st" using inv by (simp add: server_inv_def)
  note ri = resume_inv [OF inv res] and ra = resume_accounts [OF lob res]
  have l2: "\<not> peer_listens st2 socket" using l ri(3) by (simp add: peer_listens_def)
  have "rm_sequencer (st_rooms st2 (p_room (st_peers st2 pr))) \<noteq> - 1"
    unfolding ra(4) by (rule not_last) (rule less_trans [OF fit [rule_format]], simp)
  from finish_counts [OF fin this] have c: "counts EVENT_PEER_RESUMED st st'"
    using counts_before [OF ra(1)] by simp
  show ?thesis
    by (rule accounts_resumed [OF c _ _ a]) (simp_all add: finish_accounts [OF ri(2) [OF refl] l2 fin] ra(2,3))
qed

lemma enrolled_accounts:
  assumes inv: "server_inv env st" and fit: "counters_fit st" "\<forall>rr. unat (rm_sequencer (st_rooms st rr)) < 2 ^ 64 - 2"
    and l: "\<not> peer_listens st socket"
    and op: "hello_openRoom bytes roomName st = (st2, Some (token, rr))"
    and en: "hello_enrol env now2 socket nick token rr st2 = (st3, x)"
    and fin: "\<And>pr. x = Inr (Some pr) \<Longrightarrow> hello_finish env socket pr False cursor capability token st3 = (st', r)"
    and refused: "x = Inr None \<Longrightarrow> st' = st3"
    and a: "accounts c0 st"
  shows "accounts c0 st'"
proof -
  have lob: "lobby_inv env st" using inv by (simp add: server_inv_def)
  note oi = openRoom_inv [OF inv op] and oa = openRoom_accounts [OF lob op]
  have lob2: "lobby_inv env st2" using oi(1) by (simp add: server_inv_def)
  have a2: "accounts c0 st2" by (rule accounts_frame [OF oa(1-3) a])
  have "rm_sequencer (st_rooms st rr) \<noteq> - 1" using fit(1) by (simp add: counters_fit_def)
  note sq = openRoom_sequencer [OF op this]
  have pid: "lb_peerIdCounter st2 < 2 ^ 63 - 1" using fit(1) sq(3) by (simp add: counters_fit_def)
  have room: "getRoom (Room_getName rr st2) st2 = Some rr" using oi(3) [OF refl] by simp
  then have reg: "(Room_getName rr st2, rr) \<in> set (lb_rooms st2)" by (simp add: getRoom_def um_find_SomeD)
  note ea = enrol_accounts [OF lob2 reg pid sq(1) en]
  from oi(1) room pid sq(1) en show ?thesis
  proof (cases rule: enrol_cases)
    case full
    with ea refused show ?thesis using accounts_frame [OF _ _ _ a2, of st3] by simp
  next
    case enrolled
    have l3: "\<not> peer_listens st3 socket" using l sq(2) enrolled(4) by (simp add: peer_listens_def)
    note fin = fin [OF enrolled(2)]
    have e: "tallied st2 st3" "detached st3 = detached st2" "members st3 = Suc (members st2)"
      "p_room (st_peers st3 (st_next st2)) = rr"
      "unat (rm_sequencer (st_rooms st3 rr)) \<le> Suc (unat (rm_sequencer (st_rooms st2 rr)))"
      using ea enrolled(2) by simp_all
    have "unat (rm_sequencer (st_rooms st3 rr)) < 2 ^ 64 - 1"
      using e(5) oa(5) [of rr] fit(2) [rule_format, of rr] by linarith
    then have "rm_sequencer (st_rooms st3 (p_room (st_peers st3 (st_next st2)))) \<noteq> - 1"
      using e(4) not_last by simp
    from finish_counts [OF fin this] have c: "counts EVENT_PEER_CONNECTED st2 st'"
      using counts_before [OF e(1)] by simp
    show ?thesis
      by (rule accounts_connected [OF c _ _ a2]) (simp_all add: finish_accounts [OF enrolled(3) l3 fin] e(2,3))
  qed
qed

lemma hello_accounts:
  assumes inv: "server_inv env st" and fit: "counters_fit st" "sequences_fit st" and l: "\<not> peer_listens st socket"
    and acc: "acceptSessionHello env now now2 bytes socket roomName nick hello st = (st', r)"
    and a: "accounts c0 st"
  shows "accounts c0 st'"
proof (cases "hello_accepted hello")
  case None
  with acc a show ?thesis by (simp add: acceptSessionHello_def)
next
  case (Some triple)
  then obtain m cursor capability where hello: "hello_accepted hello = Some (m, cursor, capability)"
    by (cases triple) auto
  have lob: "lobby_inv env st" and reg: "registered st" using inv by (simp_all add: server_inv_def)
  obtain st1 b where t: "hello_takePending now socket st = (st1, b)" by fastforce
  note ti = takePending_inv [OF lob t] and ta = takePending_accounts [OF t]
  have "registered st1" by (rule registered_frame [OF reg]) (simp_all add: ti sessions_of_def)
  with inv ti(1,2) have s1: "server_inv env st1" by (simp add: server_inv_def)
  have l1: "\<not> peer_listens st1 socket" using l ti(4) by (simp add: peer_listens_def)
  have a1: "accounts c0 st1" by (rule accounts_frame [OF ta(1-3) a])
  have c1: "counters_fit st1" using fit(1) ta(4,5) by (simp add: counters_fit_def)
  have room: "\<forall>rr. unat (rm_sequencer (st_rooms st1 rr)) < 2 ^ 64 - 2"
    using room_not_last [OF fit(2)] by (simp add: ta(4))
  note acc' = acc [unfolded acceptSessionHello_def hello option.case prod.case t]
  show ?thesis
  proof (cases b)
    case False
    with acc' a1 show ?thesis by simp
  next
    case True
    show ?thesis
    proof (cases "mb_resumeToken (msg_body m)")
      case (Some token)
      obtain st2 q where res: "hello_resume env now now2 socket roomName token st1 = (st2, q)" by fastforce
      show ?thesis
      proof (cases q)
        case None
        with acc' True Some res resume_inv(1) [OF s1 res] a1 show ?thesis by simp
      next
        case q: (Some pr)
        have "hello_finish env socket pr True cursor capability token st2 = (st', r)"
          using True res acc' Some q by simp
        from resumed_accounts [OF s1 room l1 res [unfolded q] this a1] show ?thesis .
      qed
    next
      case None
      obtain st2 q where op: "hello_openRoom bytes roomName st1 = (st2, q)" by fastforce
      show ?thesis
      proof (cases q)
        case q: None
        have "accounts c0 st2"
          using openRoom_accounts [OF _ op, of env] s1 accounts_frame [OF _ _ _ a1] by (simp add: server_inv_def)
        with acc' True None op q show ?thesis by simp
      next
        case (Some tr)
        then obtain token rr where q: "q = Some (token, rr)" by (cases tr) simp
        obtain st3 x where en: "hello_enrol env now2 socket nick token rr st2 = (st3, x)" by fastforce
        show ?thesis
          by (rule enrolled_accounts [OF s1 c1 room l1 op [unfolded q] en _ _ a1, of cursor capability st' r])
             (use acc' True None op q en in simp_all)
      qed
    qed
  qed
qed

section \<open>Detaching\<close>

lemma detach_none: "pr \<notin> (sr_peer \<circ> snd) ` set ss \<Longrightarrow> map (\<lambda>(k, s). (k, detach_lease now pr s)) ss = ss"
  by (rule map_idI) (auto simp: detach_lease_def image_iff)

lemma detach_one:
  "distinct (map (sr_peer \<circ> snd) ss) \<Longrightarrow> (k, s) \<in> set ss \<Longrightarrow> sr_peer s = pr \<Longrightarrow> sr_lease s = None \<Longrightarrow>
     length (filter (\<lambda>e. SessionLease_disconnected (sr_lease (snd e))) (map (\<lambda>(k, s). (k, detach_lease now pr s)) ss))
       = Suc (length (filter (\<lambda>e. SessionLease_disconnected (sr_lease (snd e))) ss))"
proof (induction ss)
  case (Cons e ss)
  show ?case
  proof (cases "sr_peer (snd e) = pr")
    case True
    with Cons.prems have "pr \<notin> (sr_peer \<circ> snd) ` set ss" "e = (k, s)" by (auto simp: image_iff)
    with detach_none [of pr ss now] Cons.prems(4) True show ?thesis
      by (simp add: SessionLease_disconnected_def)
  next
    case False
    with Cons show ?thesis by (auto simp: SessionLease_disconnected_def split: prod.splits)
  qed
qed simp

text \<open>The session of a peer that has just lost its transport starts its grace period.\<close>

lemma registry_accounts:
  assumes inv: "lobby_inv env st" and reg: "detach_registry now pr st = (st', r)" and att: "attached st pr"
  shows "detached st' = (if r = None then detached st else Suc (detached st))"
proof -
  have dist: "distinct (map (sr_peer \<circ> snd) (lb_sessions st))" using inv by (simp add: lobby_inv_def sessions_ok_def)
  note m = registry_map [OF inv reg]
  show ?thesis
  proof (cases "find (\<lambda>(k, s). sr_peer s = pr) (lb_sessions st)")
    case None
    then have "pr \<notin> (sr_peer \<circ> snd) ` set (lb_sessions st)" by (fastforce simp: find_None_iff)
    with None m(2) show ?thesis by (simp add: m(1) detached_def detach_none)
  next
    case (Some e)
    obtain k s where e: "e = (k, s)" by fastforce
    from Some have s: "(k, s) \<in> set (lb_sessions st)" "sr_peer s = pr"
      by (auto simp: find_Some_iff e in_set_conv_nth)
    with att have "sr_lease s = None"
      by (force simp: attached_def sessions_of_def SessionLease_disconnected_def)
    from detach_one [OF dist s this, of now] Some m(2) show ?thesis by (simp add: m(1) detached_def)
  qed
qed

lemma detach_accounts:
  assumes inv: "server_inv env st" and a: "accounts c0 st"
  shows "accounts c0 (detachSessionTransport env now socket st)"
proof -
  have lob: "lobby_inv env st" and tr: "transports_ok {} st" using inv by (simp_all add: server_inv_def)
  show ?thesis
  proof (cases rule: detach_cases [of env now socket st])
    case stale
    with a show ?thesis by simp
  next
    case (detached pr st1 st2 room)
    note u = unbind_inv [OF lob tr detached(1), simplified]
    note r = registry_detach_inv [OF u(1) detached(2) u(2,4)]
    have t: "tally st2 = tally st"
      using detached(1,2) registry_map(1) [OF u(1) detached(2)] by (auto elim!: unbind_cases)
    have m2: "members st2 = members st" by (rule members_same) (simp_all add: u r)
    have "detached st1 = detached st" by (rule detached_same) (rule u(8))
    with registry_accounts [OF u(1) detached(2) u(5)]
    have d2: "detached st2 = (if room = None then detached st else Suc (detached st))" by simp
    show ?thesis
    proof (cases room)
      case None
      with detached(3) accounts_frame [OF tallied_same [OF t] m2 _ a] d2 show ?thesis by simp
    next
      case (Some rr)
      let ?st3 = "emit [Count EVENT_PEER_DISCONNECTED] st2"
      let ?st4 = "Room_publishConnectionState env rr pr False ?st3"
      have c: "counts EVENT_PEER_DISCONNECTED st ?st4"
        by (rule counts_around [OF tallied_same [OF t] counts_emit tallied_connection_state]) (simp add: session_events_def)
      have q: "st_rooms ?st4 = st_rooms ?st3" "Heap.more ?st4 = Heap.more ?st3"
        using quiet_connection_state [of ?st3 env rr pr False] unfolding quiet_def by blast+
      note f = lobby_fields [OF q(2)]
      have "members ?st4 = members st2" by (rule members_same) (simp_all add: f q(1))
      moreover have "detached ?st4 = detached st2" by (rule detached_same) (simp add: f)
      ultimately show ?thesis
        using accounts_disconnected [OF c _ _ a] m2 d2 Some by (simp add: detached(3))
    qed
  qed
qed

section \<open>Expiry\<close>

definition members_of :: "(string, room_ref) umap \<Rightarrow> Server \<Rightarrow> nat" where
  "members_of rooms st = sum_list (map (\<lambda>e. length (rm_peerById (st_rooms st (snd e)))) rooms)"

lemma members_of_rooms: "members st = members_of (lb_rooms st) st"
  by (simp add: members_def members_of_def)

lemma remove_rooms:
  "rm_sequencer (st_rooms (Room_removePeerById rr i st) q) = rm_sequencer (st_rooms st q)"
proof (cases "um_find (rm_peerById (st_rooms st rr)) i")
  case (Some pr)
  obtain st2 frs where "Room_takeFiles rr pr
      (upd_room rr ((st_rooms st rr)\<lparr>rm_peerById := um_erase i (rm_peerById (st_rooms st rr))\<rparr>) st) = (st2, frs)"
    by fastforce
  moreover from this have "rm_sequencer (st_rooms st2 q) = rm_sequencer (st_rooms st q)"
    by (auto simp: Room_takeFiles_def Room_eraseFiles_def Let_def split: prod.splits if_splits)
  ultimately show ?thesis using Some by (simp add: Room_removePeerById_def Let_def clear_rooms)
qed (simp add: Room_removePeerById_def)

text \<open>One expiry: its member leaves, the departure is announced and counted, and only an empty room is deleted.\<close>

lemma expire_session_accounts:
  assumes inv: "server_inv env st" and m: "session_member st s"
    and gone: "\<forall>t \<in> sessions_of st. sr_peer t \<noteq> sr_peer s"
    and ex: "expire_session env s st = (st', r)"
    and rooms: "distinct (map snd L)" "sr_room s \<in> snd ` set L"
    and seq: "rm_sequencer (st_rooms st (sr_room s)) \<noteq> - 1"
  shows "r = None" "\<forall>c \<in> session_events. tally st' c = tally st c + of_bool (c = EVENT_SESSION_EXPIRED)"
    "members_of L st = Suc (members_of L st')"
    "unat (rm_sequencer (st_rooms st' q)) \<le> Suc (unat (rm_sequencer (st_rooms st q)))"
    "lb_rooms st' = filter (\<lambda>e. e \<in> set (lb_rooms st')) (lb_rooms st)"
    "\<forall>e \<in> set (lb_rooms st) - set (lb_rooms st'). rm_peerById (st_rooms st' (snd e)) = []"
proof -
  let ?i = "p_peerId (st_peers st (sr_peer s))" and ?rr = "sr_room s"
  define st1 where "st1 = Room_removePeerById ?rr ?i st"
  have lob: "lobby_inv env st" using inv by (simp add: server_inv_def)
  note rem = remove_inv [OF lob m gone st1_def]
  obtain st2 e where g: "Room_goodbyePeer env ?rr (sr_peer s) st1 = (st2, e)" by fastforce
  obtain msg exc x where pub: "Room_publishDurable env ?rr msg exc no_callback st1 = (st2, x)" "e = None \<longleftrightarrow> (\<exists>y. x = Inr y)"
    by (rule goodbye_announce [OF g])
  note an = announce [OF pub(1)]
  have seq1: "rm_sequencer (st_rooms st1 q) = rm_sequencer (st_rooms st q)" for q by (simp add: st1_def remove_rooms)
  with seq an(2) pub(2) have "e = None" by simp
  define st3 where "st3 = emit [Count EVENT_SESSION_EXPIRED] st2"
  from ex g \<open>e = None\<close> have r: "r = None" "st' = deleteRoomIfEmpty ?rr st3"
    by (simp_all add: expire_session_def st1_def [symmetric] st3_def)
  show "r = None" by (rule r(1))
  have "tallied st st2"
    by (rule tallied.frame_trans [OF _ tallied_goodbye [OF g]]) (simp add: st1_def)
  moreover have "tally st' = tally st3" by (simp add: r(2) deleteRoomIfEmpty_def Let_def)
  ultimately show "\<forall>c \<in> session_events. tally st' c = tally st c + of_bool (c = EVENT_SESSION_EXPIRED)"
    using counts_before [OF _ counts_emit, of st st2 EVENT_SESSION_EXPIRED]
    by (simp add: counts_def st3_def session_events_def)
  have peers: "rm_peerById (st_rooms st' q) = (if q = ?rr then um_erase ?i (rm_peerById (st_rooms st q))
      else rm_peerById (st_rooms st q))" for q
    using rem(6) [of q] by (simp add: r(2) st3_def an(1))
  have heap: "heap_inv env st" using inv by (simp add: server_inv_def lobby_inv_def)
  have valid: "um_valid (rm_peerById (st_rooms st ?rr))" using heap_invD(1) [OF heap, of ?rr] by (simp add: files_ok_def)
  have found: "um_find (rm_peerById (st_rooms st ?rr)) ?i = Some (sr_peer s)" using m by (simp add: session_member_def)
  from um_find_SomeD [OF this] have "0 < length (rm_peerById (st_rooms st ?rr))" by (cases "rm_peerById (st_rooms st ?rr)") auto
  then have "length (rm_peerById (st_rooms st ?rr)) = length (rm_peerById (st_rooms st' ?rr)) + 1"
    using um.count_erase [OF valid, of ?i] found by (simp add: peers)
  then have "sum_list (map (\<lambda>q. length (rm_peerById (st_rooms st q))) (map snd L))
      = sum_list (map (\<lambda>q. length (rm_peerById (st_rooms st' q))) (map snd L)) + 1"
    by (intro sum_change [OF rooms(1)]) (use rooms(2) in \<open>auto simp: peers\<close>)
  then show "members_of L st = Suc (members_of L st')" by (simp add: members_of_def comp_def)
  show "unat (rm_sequencer (st_rooms st' q)) \<le> Suc (unat (rm_sequencer (st_rooms st q)))"
    using an(3) [of q] by (simp add: r(2) st3_def seq1)
  have more: "lb_rooms st3 = lb_rooms st"
    using lobby_fields(1) [of st2 st] an(4) rem(5) by (simp add: st3_def)
  show "lb_rooms st' = filter (\<lambda>e. e \<in> set (lb_rooms st')) (lb_rooms st)"
    by (auto simp: r(2) deleteRoomIfEmpty_def Let_def more um_erase_def intro!: filter_cong [symmetric])
  have one: "snd e = ?rr" if "e \<in> set (lb_rooms st)" "e \<notin> set (lb_rooms st')" for e
  proof -
    have valid: "um_valid (lb_rooms st)" using inv by (simp add: server_inv_def lobby_inv_def rooms_ok_def)
    obtain k v where e: "e = (k, v)" by fastforce
    have "um_find (lb_rooms st) k = Some ?rr"
      using that by (auto simp: r(2) deleteRoomIfEmpty_def Let_def more um_erase_def e split: if_splits)
    moreover have "um_find (lb_rooms st) k = Some v" using that(1) by (simp add: um_find_in [OF valid] e)
    ultimately show ?thesis by (simp add: e)
  qed
  show "\<forall>e \<in> set (lb_rooms st) - set (lb_rooms st'). rm_peerById (st_rooms st' (snd e)) = []"
  proof
    fix e assume e: "e \<in> set (lb_rooms st) - set (lb_rooms st')"
    then have "Room_isEmpty ?rr st3"
      by (auto simp: r(2) deleteRoomIfEmpty_def Let_def more split: if_splits)
    with one e show "rm_peerById (st_rooms st' (snd e)) = []" by (auto simp: r(2) Room_isEmpty_def)
  qed
qed

lemma expire_all_accounts:
  assumes "server_inv env st" and "\<forall>s \<in> set ss. session_member st s"
    and "distinct (map sr_peer ss)" "\<forall>t \<in> sessions_of st. sr_peer t \<notin> sr_peer ` set ss"
    and "distinct (map snd L)" "sr_room ` set ss \<subseteq> snd ` set L"
    and "\<forall>rr. unat (rm_sequencer (st_rooms st rr)) + length ss < 2 ^ 64 - 2"
    and "expire_all env ss st = (st', r)"
  shows "r = None"
    "(\<forall>c \<in> session_events. tally st' c = tally st c + (if c = EVENT_SESSION_EXPIRED then of_nat (length ss) else 0))
     \<and> members_of L st = members_of L st' + length ss
     \<and> lb_rooms st' = filter (\<lambda>e. e \<in> set (lb_rooms st')) (lb_rooms st)
     \<and> (\<forall>e \<in> set (lb_rooms st) - set (lb_rooms st'). rm_peerById (st_rooms st' (snd e)) = [])"
proof -
  have "r = None \<and> (\<forall>c \<in> session_events. tally st' c = tally st c + (if c = EVENT_SESSION_EXPIRED then of_nat (length ss) else 0))
     \<and> members_of L st = members_of L st' + length ss
     \<and> lb_rooms st' = filter (\<lambda>e. e \<in> set (lb_rooms st')) (lb_rooms st)
     \<and> (\<forall>e \<in> set (lb_rooms st) - set (lb_rooms st'). rm_peerById (st_rooms st' (snd e)) = [])"
    using assms
  proof (induction ss arbitrary: st)
    case Nil
    then show ?case by (simp add: filter_id_conv)
  next
    case (Cons s ss)
    obtain st1 r1 where e: "expire_session env s st = (st1, r1)" by fastforce
    have m: "session_member st s" and gone: "\<forall>t \<in> sessions_of st. sr_peer t \<noteq> sr_peer s"
      using Cons.prems by auto
    have room: "unat (rm_sequencer (st_rooms st rr)) + Suc (length ss) < 2 ^ 64 - 2" for rr
      using Cons.prems(7) by simp
    have seq: "rm_sequencer (st_rooms st (sr_room s)) \<noteq> - 1"
      by (rule not_last) (use room [of "sr_room s"] in linarith)
    have in_L: "sr_room s \<in> snd ` set L" using Cons.prems(6) by simp
    note x = expire_session_inv [OF Cons.prems(1) m gone e]
    note y = expire_session_accounts [OF Cons.prems(1) m gone e Cons.prems(5) in_L seq]
    have rest: "expire_all env ss st1 = (st', r)" using Cons.prems(8) e y(1) by simp
    have member: "\<forall>t \<in> set ss. session_member st1 t"
    proof
      fix t assume t: "t \<in> set ss"
      have "sr_peer s \<notin> sr_peer ` set ss" using Cons.prems(3) by simp
      with t have "sr_peer t \<noteq> sr_peer s" by (metis image_eqI)
      with x(2) Cons.prems(2) t show "session_member st1 t" by simp
    qed
    have room1: "\<forall>rr. unat (rm_sequencer (st_rooms st1 rr)) + length ss < 2 ^ 64 - 2"
    proof
      fix rr show "unat (rm_sequencer (st_rooms st1 rr)) + length ss < 2 ^ 64 - 2"
        using y(4) [of rr] room [of rr] by linarith
    qed
    have "distinct (map sr_peer ss)" "\<forall>t \<in> sessions_of st1. sr_peer t \<notin> sr_peer ` set ss"
      "sr_room ` set ss \<subseteq> snd ` set L" using Cons.prems(3,4,6) x(3) by (auto simp: sessions_of_def)
    note IH = Cons.IH [OF x(1) member this(1,2) Cons.prems(5) this(3) room1 rest]
    have sub: "set (lb_rooms st') \<subseteq> set (lb_rooms st1)"
      using IH by (metis filter_is_subset)
    have "lb_rooms st' = filter (\<lambda>e. e \<in> set (lb_rooms st')) (filter (\<lambda>e. e \<in> set (lb_rooms st1)) (lb_rooms st))"
      using IH y(5) by metis
    also have "\<dots> = filter (\<lambda>e. e \<in> set (lb_rooms st')) (lb_rooms st)"
      using sub by (auto intro!: filter_cong)
    finally have keep: "lb_rooms st' = filter (\<lambda>e. e \<in> set (lb_rooms st')) (lb_rooms st)" .
    have emptied: "rm_peerById (st_rooms st' (snd e)) = []" if e: "e \<in> set (lb_rooms st)" "e \<notin> set (lb_rooms st')" for e
    proof (cases "e \<in> set (lb_rooms st1)")
      case True
      with IH e show ?thesis by blast
    next
      case False
      with y(6) e(1) have "rm_peerById (st_rooms st1 (snd e)) = []" by blast
      moreover have "rm_peerById (st_rooms st' (snd e)) = filter (\<lambda>d. snd d \<notin> sr_peer ` set ss) (rm_peerById (st_rooms st1 (snd e)))"
        using expire_all_inv [OF x(1) member _ _ rest] IH Cons.prems(3,4) x(3) by (auto simp: sessions_of_def)
      ultimately show ?thesis by simp
    qed
    have "tally st' c = tally st c + (if c = EVENT_SESSION_EXPIRED then of_nat (length (s # ss)) else 0)"
      if "c \<in> session_events" for c
      using IH y(2) that by (simp split: if_splits)
    with IH y(3) keep emptied show ?case by auto
  qed
  then show "r = None" "(\<forall>c \<in> session_events. tally st' c = tally st c + (if c = EVENT_SESSION_EXPIRED then of_nat (length ss) else 0))
     \<and> members_of L st = members_of L st' + length ss
     \<and> lb_rooms st' = filter (\<lambda>e. e \<in> set (lb_rooms st')) (lb_rooms st)
     \<and> (\<forall>e \<in> set (lb_rooms st) - set (lb_rooms st'). rm_peerById (st_rooms st' (snd e)) = [])" by simp_all
qed

lemma filter_members:
  assumes "lb_rooms st' = filter (\<lambda>e. e \<in> set (lb_rooms st')) rooms"
    and "\<forall>e \<in> set rooms - set (lb_rooms st'). rm_peerById (st_rooms st' (snd e)) = []"
  shows "members st' = members_of rooms st'"
proof -
  have "members_of rooms st' = members_of (filter (\<lambda>e. e \<in> set (lb_rooms st')) rooms) st'"
    using assms(2) unfolding members_of_def by (induction rooms) auto
  with assms(1) show ?thesis by (simp add: members_of_rooms)
qed

lemma expire_accounts:
  assumes inv: "server_inv env st" and fit: "sequences_fit st"
    and ex: "expireSessions env now st = (st', r)" and a: "accounts c0 st"
  shows "accounts c0 st'"
proof -
  define gone where "gone = expired_sessions now st"
  define st1 where "st1 = swept now st"
  have lob: "lobby_inv env st" and reg: "registered st" using inv by (simp_all add: server_inv_def)
  have all: "expire_all env gone st1 = (st', r)"
    using ex by (simp add: expireSessions_swept gone_def st1_def)
  have f1: "lb_rooms st1 = lb_rooms st" "st_rooms st1 = st_rooms st" by (simp_all add: st1_def)
  note x = swept_inv [OF inv, of now, folded gone_def st1_def]
  have "distinct (map snd (lb_rooms st))" by (rule rooms_distinct [OF lob])
  moreover have "sr_room ` set gone \<subseteq> snd ` set (lb_rooms st)"
  proof (rule image_subsetI)
    fix s assume "s \<in> set gone"
    then obtain k where "(k, s) \<in> set (lb_sessions st)" by (auto simp: gone_def expired_sessions_def)
    from registeredD [OF reg this] show "sr_room s \<in> snd ` set (lb_rooms st)"
      by (force simp: session_registered_def getRoom_def dest: um_find_SomeD)
  qed
  moreover have "\<forall>rr. unat (rm_sequencer (st_rooms st1 rr)) + length gone < 2 ^ 64 - 2"
  proof
    fix rr
    have "length gone \<le> length (lb_sessions st)" by (simp add: gone_def expired_sessions_def)
    moreover have "unat (rm_sequencer (st_rooms st rr)) + length (lb_sessions st) < 2 ^ 64 - 2"
      using fit unfolding sequences_fit_def by blast
    ultimately show "unat (rm_sequencer (st_rooms st1 rr)) + length gone < 2 ^ 64 - 2" unfolding f1 by linarith
  qed
  ultimately have e: "(\<forall>c \<in> session_events. tally st' c = tally st1 c + (if c = EVENT_SESSION_EXPIRED then of_nat (length gone) else 0))
     \<and> members_of (lb_rooms st) st1 = members_of (lb_rooms st) st' + length gone
     \<and> lb_rooms st' = filter (\<lambda>e. e \<in> set (lb_rooms st')) (lb_rooms st1)
     \<and> (\<forall>e \<in> set (lb_rooms st1) - set (lb_rooms st'). rm_peerById (st_rooms st' (snd e)) = [])"
    by (rule expire_all_accounts(2) [OF x(1-4) _ _ _ all])
  have t: "tallied st st1"
    unfolding st1_def swept_def expire_collect_def Let_def prod.case
    by (intro tallied.frame_trans [OF tallied_same tallied_emit]) (auto simp: plain_def)
  have "\<forall>c \<in> session_events. tally st' c = tally st c + (if c = EVENT_SESSION_EXPIRED then of_nat (length gone) else 0)"
    using e t by (simp add: tallied_def)
  moreover have "members st' = members_of (lb_rooms st) st'"
    by (rule filter_members) (use e in \<open>simp_all add: f1\<close>)
  then have "members st = members st' + length gone"
    using e by (simp add: members_of_rooms) (simp add: members_of_def f1)
  moreover have "detached st = detached st' + length gone"
  proof -
    have split: "length (filter P xs) = length (filter P (filter (\<lambda>x. \<not> Q x) xs)) + length (filter Q xs)"
      if "\<And>x. Q x \<Longrightarrow> P x" for P Q :: "string \<times> SessionRecord \<Rightarrow> bool" and xs
      using that by (induction xs) auto
    have "SessionLease_disconnected (sr_lease (snd e))" if "lease_over now e" for e
      using that by (auto simp: lease_over_def SessionLease_expires_def SessionLease_disconnected_def split: option.splits)
    from split [of "lease_over now", OF this, of "\<lambda>x. x" "lb_sessions st"]
    show ?thesis
      using expireSessions_inv(2) [OF inv ex] by (simp add: detached_def gone_def expired_sessions_def)
  qed
  ultimately show ?thesis using a by (rule accounts_expired)
qed

section \<open>Runs\<close>

text \<open>The states of a server whose counters were restored from the state file: \<open>c0\<close> are the restored counters.\<close>

inductive served :: "Env \<Rightarrow> Counters \<Rightarrow> Server \<Rightarrow> bool" for env c0 where
  start: "served env c0 (Server_new\<lparr>Heap.st_counters := c0\<rparr>)"
| step: "served env c0 st \<Longrightarrow> counters_fit st \<Longrightarrow> sequences_fit st \<Longrightarrow> server_step env a st st' \<Longrightarrow> served env c0 st'"

lemma sound_counters: "sound env st (st\<lparr>Heap.st_counters := c\<rparr>)"
  by (rule soundI) (auto simp: room_view_same_def)

lemma step_accounts:
  assumes step: "server_step env action st st'" and inv: "server_inv env st" and fit: "counters_fit st" "sequences_fit st"
    and a: "accounts c0 st"
  shows "accounts c0 st'"
  using step
proof cases
  case (connect socket now roomName nickname)
  show ?thesis
    by (rule accounts_frame [OF tallied_same members_same detached_same a])
       (simp_all add: connect(2) onAfterCreate_def set_pending_hello_def Let_def)
next
  case (hello_frame socket h now now2 bytes frame r)
  have l: "\<not> peer_listens st socket" using hello_frame(2) by (simp add: peer_listens_def)
  have pend: "accounts c0 (set_pending_hello socket h' st)" for h'
    by (rule accounts_frame [OF tallied_same members_same detached_same a]) (simp_all add: set_pending_hello_def)
  from hello_frame(3) show ?thesis
  proof (cases rule: pending_readMessage_cases)
    case dropped
    show ?thesis unfolding dropped by (rule accounts_sound [OF sound_emit inv tallied_emit a]) simp
  next
    case more
    with pend show ?thesis by simp
  next
    case unread
    with pend show ?thesis by simp
  next
    case (hello m r0)
    let ?st1 = "set_pending_hello socket (h\<lparr>h_consumed := True\<rparr>) st"
    have "counters_fit ?st1" "sequences_fit ?st1"
      using fit by (simp_all add: counters_pending sequences_fit_def)
    from hello_accounts [OF set_pending_server(1) [OF inv l] this set_pending_hello_inv(3) [OF l] hello(4) pend]
    show ?thesis .
  qed
next
  case (peer_frame socket pr now tick frame r)
  have "rm_fileIdCounter (st_rooms st (p_room (st_peers st pr))) + int Limits_filesPerPeer < 2 ^ 63"
    using fit by (simp add: counters_fit_def)
  from accounts_sound [OF sound_readMessage [OF this peer_frame(3)] inv tallied_readMessage [OF peer_frame(3)] a]
  show ?thesis .
next
  case (transport e pr)
  from accounts_sound [OF sound_transport_step [OF transport(3)] inv tallied_peer_do a] plain_step show ?thesis
    unfolding transport(2) by blast
next
  case (sweep now)
  have "tallied st (runPingIteration now st)" unfolding runPingIteration_def by (rule tallied.loop) simp
  from accounts_sound [OF sound_ping_iteration inv this a] show ?thesis by (simp add: sweep)
next
  case (expire now r)
  from expire_accounts [OF inv fit(2) expire(2) a] show ?thesis .
next
  case (destroy now socket)
  let ?st1 = "st\<lparr>lb_pending := um_erase socket (lb_pending st)\<rparr>"
  have lob: "lobby_inv env st" using inv by (simp add: server_inv_def)
  have "lobby_inv env ?st1"
    by (rule pending_inv [OF lob])
       (use lob in \<open>auto simp: lobby_inv_def pending_ok_def um.valid_erase um_erase_set\<close>)
  then have "server_inv env ?st1" using inv by (simp add: server_inv_def)
  moreover have "accounts c0 ?st1" by (rule accounts_frame [OF tallied_same members_same detached_same a]) simp_all
  ultimately show ?thesis unfolding destroy onBeforeDestroy_def by (rule detach_accounts)
next
  case (subscribe fr s)
  from accounts_sound [OF sound_subscribe [OF subscribe(2)] inv tallied_subscribe [OF subscribe(2)] a] show ?thesis .
next
  case (read_chunk sub n x)
  from accounts_sound [OF sound_readChunk [OF read_chunk(2)] inv tallied_readChunk [OF read_chunk(2)] a] show ?thesis .
next
  case (end_download sub)
  from accounts_sound [OF sound_destroySubscriber inv tallied_destroySubscriber a] show ?thesis by (simp add: end_download)
next
  case (free_peer pr)
  from accounts_sound [OF sound_alive inv _ a] show ?thesis by (simp add: free_peer tallied_same)
next
  case (free_room rr)
  from accounts_sound [OF sound_emit inv tallied_emit a] show ?thesis by (simp add: free_room Room_destroy_def)
qed

lemma served_accounts: "served env c0 st \<Longrightarrow> server_inv env st \<and> accounts c0 st"
proof (induction rule: served.induct)
  case start
  have "accounts c0 (Server_new\<lparr>Heap.st_counters := c0\<rparr>)"
    by (simp add: accounts_def members_def detached_def Server_new_def Heap.extend_def)
  with sound_server [OF sound_counters server_inv_new] show ?case by blast
next
  case (step st action st')
  with step_preserves [of env action st st'] step_accounts [of env action st st' c0] show ?case by blast
qed

section \<open>Properties\<close>


lemma sequences_fit_demo:
  "sequences_fit Server_new" "sequences_fit demo_connected" "sequences_fit demo_joined"
proof -
  show "sequences_fit Server_new"
    by (simp add: sequences_fit_def Server_new_def Heap.extend_def Heap_new_def Room_new_def RoomSequencer_new_def)
  then show "sequences_fit demo_connected"
    by (simp add: sequences_fit_def demo_connected_def onAfterCreate_def set_pending_hello_def Let_def)
  show "sequences_fit demo_joined"
    by (simp add: sequences_fit_def demo_rooms demo_sessions)
qed

lemma served_demo: "served demo_lobby_env Counters_new demo_detached"
proof -
  have "served demo_lobby_env Counters_new Server_new"
    using served.start [of demo_lobby_env Counters_new] by (simp add: Server_new_def Heap.extend_def Heap_new_def)
  then have "served demo_lobby_env Counters_new demo_connected"
    unfolding demo_connected_def
    by (rule served.step [OF _ counters_fit_new sequences_fit_demo(1) server_step.connect])
       (simp_all add: Server_new_def Heap.extend_def)
  then have "served demo_lobby_env Counters_new demo_joined"
    by (rule served.step [OF _ _ sequences_fit_demo(2) joined_step])
       (simp add: demo_connected_def counters_fit_connect counters_fit_new)
  then show ?thesis
    unfolding demo_detached_def
    by (rule served.step [OF _ counters_fit_demo(1) sequences_fit_demo(3) server_step.destroy])
qed


end
