(* ===== verification/Interleaving.thy ===== *)
theory Interleaving
  imports ServerRuns
begin

text \<open>
  Calls of \<^verbatim>\<open>server/src/rooms/Lobby.cpp\<close> that run at once. The executor of the websockets and the maintenance
  loop are threads of their own, so a hello, the destruction of a transport and an expiry interleave. A
  \<open>LobbyTask\<close> is a call under way: its arguments and the point it has reached; \<open>task_step\<close> runs it to its next
  point. A step holds one of the lobby's locks once, or calls one operation of a room or a peer; the
  announcement of a room, the removal of a member and the withdrawal of its files are one step each.

  \<open>lobby_step\<close> takes a step of any call, starts one, or lets the objects below the lobby run; \<open>interleaved\<close> are
  the states that can be reached. A socket is served by one coroutine, which also destroys it: while
  it is in a hello or its destruction there is no other call for the socket. Except for the room of a session
  being registered, what holds in serial runs (\<open>reachable\<close>) holds here of every session that is not in the
  middle of a handover, and serial runs are interleaved runs.
\<close>

section \<open>Calls under way\<close>

record HelloCall =
  hc_socket :: socket_ref
  hc_now :: time
  hc_now2 :: time
  hc_roomName :: string
  hc_nickname :: string
  hc_bytes :: "string option"
  hc_resume :: "string option"
  hc_cursor :: u64
  hc_capability :: string

text \<open>The points of \<^verbatim>\<open>acceptSessionHello\<close> between its locks. After the transport is bound, the peer, the bearer
  and whether the session is resumed are at hand.\<close>

datatype HelloPoint =
    HelloPending
  | HelloLookup string
  | HelloBind string peer_ref
  | HelloRoom string
  | HelloCapacity string room_ref
  | HelloEnter string room_ref
  | HelloFile string room_ref peer_ref
  | HelloWelcome string room_ref peer_ref
  | HelloListen string bool peer_ref
  | HelloCapability string bool peer_ref
  | HelloWithdraw string bool peer_ref
  | HelloPeers string bool bool peer_ref
  | HelloLatest "PeerDto list" string bool bool peer_ref
  | HelloHistory "PeerDto list" u64 string bool bool peer_ref
  | HelloReady "PeerDto list" u64 "MessageDto list \<times> bool" string bool bool peer_ref
  | HelloCount bool bool peer_ref
  | HelloOnline bool peer_ref
  | HelloReissue bool peer_ref

datatype DetachPoint =
    DetachPending
  | DetachUnbind
  | DetachRegistry peer_ref
  | DetachCount peer_ref room_ref
  | DetachOffline peer_ref room_ref

datatype ExpiryPoint =
    ExpiryCollect
  | ExpiryInvalidate "socket_ref list" "SessionRecord list"
  | ExpiryRemove "SessionRecord list"
  | ExpiryGoodbye SessionRecord "SessionRecord list"
  | ExpiryCount SessionRecord "SessionRecord list"
  | ExpiryDelete SessionRecord "SessionRecord list"

datatype LobbyTask =
    HelloTask HelloCall HelloPoint
  | DetachTask time socket_ref DetachPoint
  | ExpiryTask time ExpiryPoint

text \<open>How a call ends.\<close>

type_synonym TaskEnd = "exn + peer_ref option"

section \<open>Steps\<close>

text \<open>A step ends the call (\<open>Inl\<close>) or reaches its next point (\<open>Inr\<close>).\<close>

definition hello_step :: "Env \<Rightarrow> HelloCall \<Rightarrow> HelloPoint \<Rightarrow> Server \<Rightarrow> Server \<times> (TaskEnd + HelloPoint)" where
  "hello_step env c point st =
     (let socket = hc_socket c; refused = Inl (Inr None)
      in case point of
        HelloPending \<Rightarrow>
          (case hello_takePending (hc_now c) socket st of
             (st, False) \<Rightarrow> (st, refused)
           | (st, True) \<Rightarrow>
               (case hc_resume c of
                  Some token \<Rightarrow> (st, Inr (HelloLookup token))
                | None \<Rightarrow>
                    (case makeResumeToken (hc_bytes c) of
                       None \<Rightarrow> (st, refused)
                     | Some token \<Rightarrow> (st, Inr (HelloRoom token)))))
      | HelloLookup token \<Rightarrow>
          (case hello_lookup env (hc_now c) (hc_roomName c) token st of
             (st, None) \<Rightarrow> (st, refused)
           | (st, Some pr) \<Rightarrow> (st, Inr (HelloBind token pr)))
      | HelloBind token pr \<Rightarrow> (hello_bind (hc_now2 c) socket pr st, Inr (HelloListen token True pr))
      | HelloRoom token \<Rightarrow>
          (case getOrCreateRoom (hc_roomName c) st of
             (st, None) \<Rightarrow> (st, refused)
           | (st, Some rr) \<Rightarrow> (st, Inr (HelloCapacity token rr)))
      | HelloCapacity token rr \<Rightarrow>
          (st, if Room_hasPeerCapacity rr st then Inr (HelloEnter token rr) else refused)
      | HelloEnter token rr \<Rightarrow>
          (case hello_enter (hc_now2 c) socket (hc_nickname c) rr st of
             (st, None) \<Rightarrow> (st, refused)
           | (st, Some pr) \<Rightarrow> (st, Inr (HelloFile token rr pr)))
      | HelloFile token rr pr \<Rightarrow> (hello_file env token rr pr st, Inr (HelloWelcome token rr pr))
      | HelloWelcome token rr pr \<Rightarrow>
          (case Room_welcomePeer env rr pr st of
             (st, Some e) \<Rightarrow> (st, Inl (Inl e))
           | (st, None) \<Rightarrow> (st, Inr (HelloListen token False pr)))
      | HelloListen token resumed pr \<Rightarrow> (hello_listen socket pr st, Inr (HelloCapability token resumed pr))
      | HelloCapability token resumed pr \<Rightarrow>
          (case hello_capability (hc_capability c) pr st of
             (st, changed) \<Rightarrow> (st, Inr (if changed then HelloWithdraw token resumed pr
                                       else HelloPeers token resumed False pr)))
      | HelloWithdraw token resumed pr \<Rightarrow>
          (case Room_withdrawPeerFiles env (p_room (st_peers st pr)) pr st of
             (st, Some e) \<Rightarrow> (st, Inl (Inl e))
           | (st, None) \<Rightarrow> (st, Inr (HelloPeers token resumed True pr)))
      | HelloPeers token resumed changed pr \<Rightarrow>
          (st, Inr (HelloLatest (Room_getPeers (p_room (st_peers st pr)) st) token resumed changed pr))
      | HelloLatest peers token resumed changed pr \<Rightarrow>
          (st, Inr (HelloHistory peers (Room_latestServerSeq (p_room (st_peers st pr)) st) token resumed changed pr))
      | HelloHistory peers latest token resumed changed pr \<Rightarrow>
          (st, Inr (HelloReady peers latest (Room_getHistoryAfter (p_room (st_peers st pr)) (hc_cursor c) st)
                     token resumed changed pr))
      | HelloReady peers latest after token resumed changed pr \<Rightarrow>
          (peer_send env pr (ready_reply (st_peers st pr) resumed token peers latest after) st,
           Inr (HelloCount resumed changed pr))
      | HelloCount resumed changed pr \<Rightarrow>
          if \<not> resumed then (emit [Count EVENT_PEER_CONNECTED] st, Inl (Inr (Some pr)))
          else (emit [Count EVENT_PEER_RESUMED] st, Inr (HelloOnline changed pr))
      | HelloOnline changed pr \<Rightarrow>
          (Room_publishConnectionState env (p_room (st_peers st pr)) pr True st, Inr (HelloReissue changed pr))
      | HelloReissue changed pr \<Rightarrow>
          (if \<not> changed then Peer_reissueOutstandingFileRequests env pr st else st, Inl (Inr (Some pr))))"

definition detach_step ::
  "Env \<Rightarrow> time \<Rightarrow> socket_ref \<Rightarrow> DetachPoint \<Rightarrow> Server \<Rightarrow> Server \<times> (TaskEnd + DetachPoint)" where
  "detach_step env now socket point st =
     (case point of
        DetachPending \<Rightarrow> (st\<lparr>lb_pending := um_erase socket (lb_pending st)\<rparr>, Inr DetachUnbind)
      | DetachUnbind \<Rightarrow>
          (case detach_unbind socket st of
             (st, None) \<Rightarrow> (st, Inl (Inr None))
           | (st, Some pr) \<Rightarrow> (st, Inr (DetachRegistry pr)))
      | DetachRegistry pr \<Rightarrow>
          (case detach_registry now pr st of
             (st, None) \<Rightarrow> (st, Inl (Inr None))
           | (st, Some rr) \<Rightarrow> (st, Inr (DetachCount pr rr)))
      | DetachCount pr rr \<Rightarrow> (emit [Count EVENT_PEER_DISCONNECTED] st, Inr (DetachOffline pr rr))
      | DetachOffline pr rr \<Rightarrow> (Room_publishConnectionState env rr pr False st, Inl (Inr None)))"

definition expiry_step :: "Env \<Rightarrow> time \<Rightarrow> ExpiryPoint \<Rightarrow> Server \<Rightarrow> Server \<times> (TaskEnd + ExpiryPoint)" where
  "expiry_step env now point st =
     (case point of
        ExpiryCollect \<Rightarrow>
          (case expire_collect now st of (st, sockets, ss) \<Rightarrow> (st, Inr (ExpiryInvalidate sockets ss)))
      | ExpiryInvalidate sockets ss \<Rightarrow> (emit (map Invalidate sockets) st, Inr (ExpiryRemove ss))
      | ExpiryRemove [] \<Rightarrow> (st, Inl (Inr None))
      | ExpiryRemove (s # ss) \<Rightarrow>
          (Room_removePeerById (sr_room s) (p_peerId (st_peers st (sr_peer s))) st, Inr (ExpiryGoodbye s ss))
      | ExpiryGoodbye s ss \<Rightarrow>
          (case Room_goodbyePeer env (sr_room s) (sr_peer s) st of
             (st, Some e) \<Rightarrow> (st, Inl (Inl e))
           | (st, None) \<Rightarrow> (st, Inr (ExpiryCount s ss)))
      | ExpiryCount s ss \<Rightarrow> (emit [Count EVENT_SESSION_EXPIRED] st, Inr (ExpiryDelete s ss))
      | ExpiryDelete s ss \<Rightarrow> (deleteRoomIfEmpty (sr_room s) st, Inr (ExpiryRemove ss)))"

definition task_step :: "Env \<Rightarrow> LobbyTask \<Rightarrow> Server \<Rightarrow> Server \<times> (TaskEnd + LobbyTask)" where
  "task_step env t st =
     (case t of
        HelloTask c p \<Rightarrow> map_prod id (map_sum id (HelloTask c)) (hello_step env c p st)
      | DetachTask now socket p \<Rightarrow> map_prod id (map_sum id (DetachTask now socket)) (detach_step env now socket p st)
      | ExpiryTask now p \<Rightarrow> map_prod id (map_sum id (ExpiryTask now)) (expiry_step env now p st))"

text \<open>How many steps of its own a call has at most before it.\<close>

fun hello_rank :: "HelloPoint \<Rightarrow> nat" where
  "hello_rank HelloPending = 15"
| "hello_rank (HelloLookup _) = 14"
| "hello_rank (HelloBind _ _) = 13"
| "hello_rank (HelloRoom _) = 14"
| "hello_rank (HelloCapacity _ _) = 13"
| "hello_rank (HelloEnter _ _) = 12"
| "hello_rank (HelloFile _ _ _) = 11"
| "hello_rank (HelloWelcome _ _ _) = 10"
| "hello_rank (HelloListen _ _ _) = 9"
| "hello_rank (HelloCapability _ _ _) = 8"
| "hello_rank (HelloWithdraw _ _ _) = 7"
| "hello_rank (HelloPeers _ _ _ _) = 6"
| "hello_rank (HelloLatest _ _ _ _ _) = 5"
| "hello_rank (HelloHistory _ _ _ _ _ _) = 4"
| "hello_rank (HelloReady _ _ _ _ _ _ _) = 3"
| "hello_rank (HelloCount _ _ _) = 2"
| "hello_rank (HelloOnline _ _) = 1"
| "hello_rank (HelloReissue _ _) = 0"

fun detach_rank :: "DetachPoint \<Rightarrow> nat" where
  "detach_rank DetachPending = 4"
| "detach_rank DetachUnbind = 3"
| "detach_rank (DetachRegistry _) = 2"
| "detach_rank (DetachCount _ _) = 1"
| "detach_rank (DetachOffline _ _) = 0"

fun expiry_rank :: "ExpiryPoint \<Rightarrow> Server \<Rightarrow> nat" where
  "expiry_rank ExpiryCollect st = 4 * length (lb_sessions st) + 2"
| "expiry_rank (ExpiryInvalidate _ ss) _ = 4 * length ss + 1"
| "expiry_rank (ExpiryRemove ss) _ = 4 * length ss"
| "expiry_rank (ExpiryGoodbye _ ss) _ = 4 * length ss + 3"
| "expiry_rank (ExpiryCount _ ss) _ = 4 * length ss + 2"
| "expiry_rank (ExpiryDelete _ ss) _ = 4 * length ss + 1"

fun task_rank :: "LobbyTask \<Rightarrow> Server \<Rightarrow> nat" where
  "task_rank (HelloTask _ p) _ = hello_rank p"
| "task_rank (DetachTask _ _ p) _ = detach_rank p"
| "task_rank (ExpiryTask _ p) st = expiry_rank p st"

lemma hello_step_rank: "hello_step env c p st = (st', Inr p') \<Longrightarrow> hello_rank p' < hello_rank p"
  by (cases p) (auto simp: hello_step_def Let_def split: prod.splits option.splits bool.splits if_splits)

lemma detach_step_rank: "detach_step env now socket p st = (st', Inr p') \<Longrightarrow> detach_rank p' < detach_rank p"
  by (cases p) (auto simp: detach_step_def split: prod.splits option.splits)

lemma expiry_step_rank: "expiry_step env now p st = (st', Inr p') \<Longrightarrow> expiry_rank p' st' < expiry_rank p st"
  by (cases p) (auto simp: expiry_step_def expire_collect_def Let_def split: prod.splits option.splits list.splits
      intro: le_imp_less_Suc)

lemma map_sum_eq:
  "map_sum f g x = Inl a \<longleftrightarrow> (\<exists>b. x = Inl b \<and> a = f b)"
  "map_sum f g x = Inr a' \<longleftrightarrow> (\<exists>b. x = Inr b \<and> a' = g b)"
  by (cases x; auto)+

text \<open>A step of a call is a step of its kind.\<close>

lemma task_step_cases:
  assumes "task_step env t st = (st', r)"
  obtains (hello) c p q where "t = HelloTask c p" "hello_step env c p st = (st', q)" "r = map_sum id (HelloTask c) q"
  | (detach) now socket p q where "t = DetachTask now socket p" "detach_step env now socket p st = (st', q)"
      "r = map_sum id (DetachTask now socket) q"
  | (expiry) now p q where "t = ExpiryTask now p" "expiry_step env now p st = (st', q)" "r = map_sum id (ExpiryTask now) q"
  using assms by (cases t) (auto simp: task_step_def map_prod_def split: prod.splits)

lemma task_step_rank:
  assumes "task_step env t st = (st', Inr t')"
  shows "task_rank t' st' < task_rank t st"
  using assms
  by (cases rule: task_step_cases)
     (auto simp: eq_commute [of "Inr _"] map_sum_eq hello_step_rank detach_step_rank expiry_step_rank)

text \<open>A call that runs alone.\<close>

function run_task :: "Env \<Rightarrow> LobbyTask \<Rightarrow> Server \<Rightarrow> Server \<times> TaskEnd" where
  "run_task env t st =
     (case task_step env t st of
        (st', Inl e) \<Rightarrow> (st', e)
      | (st', Inr t') \<Rightarrow> run_task env t' st')"
  by pat_completeness auto
termination
  by (relation "measure (\<lambda>(env, t, st). task_rank t st)") (simp_all add: task_step_rank)

declare run_task.simps [simp del]

section \<open>What a call holds\<close>

text \<open>The socket it serves, the peers no other call touches, and those of them whose transport is in the middle
  of a handover.\<close>

fun task_sockets :: "LobbyTask \<Rightarrow> socket_ref list" where
  "task_sockets (HelloTask c _) = [hc_socket c]"
| "task_sockets (DetachTask _ socket _) = [socket]"
| "task_sockets (ExpiryTask _ _) = []"

fun hello_peers :: "HelloPoint \<Rightarrow> peer_ref list" where
  "hello_peers HelloPending = []"
| "hello_peers (HelloLookup _) = []"
| "hello_peers (HelloBind _ pr) = [pr]"
| "hello_peers (HelloRoom _) = []"
| "hello_peers (HelloCapacity _ _) = []"
| "hello_peers (HelloEnter _ _) = []"
| "hello_peers (HelloFile _ _ pr) = [pr]"
| "hello_peers (HelloWelcome _ _ pr) = [pr]"
| "hello_peers (HelloListen _ _ pr) = [pr]"
| "hello_peers (HelloCapability _ _ pr) = [pr]"
| "hello_peers (HelloWithdraw _ _ pr) = [pr]"
| "hello_peers (HelloPeers _ _ _ pr) = [pr]"
| "hello_peers (HelloLatest _ _ _ _ pr) = [pr]"
| "hello_peers (HelloHistory _ _ _ _ _ pr) = [pr]"
| "hello_peers (HelloReady _ _ _ _ _ _ pr) = [pr]"
| "hello_peers (HelloCount _ _ pr) = [pr]"
| "hello_peers (HelloOnline _ pr) = [pr]"
| "hello_peers (HelloReissue _ pr) = [pr]"

fun detach_peers :: "DetachPoint \<Rightarrow> peer_ref list" where
  "detach_peers (DetachRegistry pr) = [pr]"
| "detach_peers _ = []"

fun expiry_sessions :: "ExpiryPoint \<Rightarrow> SessionRecord list" where
  "expiry_sessions ExpiryCollect = []"
| "expiry_sessions (ExpiryInvalidate _ ss) = ss"
| "expiry_sessions (ExpiryRemove ss) = ss"
| "expiry_sessions (ExpiryGoodbye _ ss) = ss"
| "expiry_sessions (ExpiryCount _ ss) = ss"
| "expiry_sessions (ExpiryDelete _ ss) = ss"

fun task_peers :: "LobbyTask \<Rightarrow> peer_ref list" where
  "task_peers (HelloTask _ p) = hello_peers p"
| "task_peers (DetachTask _ _ p) = detach_peers p"
| "task_peers (ExpiryTask _ p) = map sr_peer (expiry_sessions p)"

fun hello_moving :: "HelloPoint \<Rightarrow> peer_ref list" where
  "hello_moving (HelloBind _ pr) = [pr]"
| "hello_moving (HelloFile _ _ pr) = [pr]"
| "hello_moving (HelloWelcome _ _ pr) = [pr]"
| "hello_moving (HelloListen _ _ pr) = [pr]"
| "hello_moving _ = []"

fun task_moving :: "LobbyTask \<Rightarrow> peer_ref list" where
  "task_moving (HelloTask _ p) = hello_moving p"
| "task_moving (DetachTask _ _ p) = detach_peers p"
| "task_moving (ExpiryTask _ _) = []"

lemma moving_held: "set (task_moving t) \<subseteq> set (task_peers t)"
proof (cases t)
  case (HelloTask c p)
  then show ?thesis by (cases p) simp_all
qed simp_all

section \<open>What a call may rely on\<close>

definition handed :: "Server \<Rightarrow> socket_ref \<Rightarrow> peer_ref \<Rightarrow> bool" where
  "handed st socket pr \<longleftrightarrow> bound st socket pr \<and> lb_listeners st socket = Some (PeerListener pr)"

fun hello_ok :: "Server \<Rightarrow> socket_ref \<Rightarrow> HelloPoint \<Rightarrow> bool" where
  "hello_ok st socket HelloPending = (\<not> peer_listens st socket)"
| "hello_ok st socket (HelloLookup _) = (\<not> peer_listens st socket)"
| "hello_ok st socket (HelloBind _ pr) = (\<not> peer_listens st socket
     \<and> p_socket (st_peers st pr) = None \<and> in_room st pr \<and> attached st pr)"
| "hello_ok st socket (HelloRoom _) = (\<not> peer_listens st socket)"
| "hello_ok st socket (HelloCapacity _ rr) = (\<not> peer_listens st socket \<and> rr < st_next st)"
| "hello_ok st socket (HelloEnter _ rr) = (\<not> peer_listens st socket \<and> rr < st_next st)"
| "hello_ok st socket (HelloFile _ rr pr) = (\<not> peer_listens st socket
     \<and> p_socket (st_peers st pr) = Some socket \<and> in_room st pr \<and> p_room (st_peers st pr) = rr
     \<and> (\<forall>s \<in> sessions_of st. sr_peer s \<noteq> pr))"
| "hello_ok st socket (HelloWelcome _ rr pr) = (\<not> peer_listens st socket \<and> bound st socket pr)"
| "hello_ok st socket (HelloListen _ _ pr) = (\<not> peer_listens st socket \<and> bound st socket pr)"
| "hello_ok st socket (HelloCapability _ _ pr) = handed st socket pr"
| "hello_ok st socket (HelloWithdraw _ _ pr) = handed st socket pr"
| "hello_ok st socket (HelloPeers _ _ _ pr) = handed st socket pr"
| "hello_ok st socket (HelloLatest _ _ _ _ pr) = handed st socket pr"
| "hello_ok st socket (HelloHistory _ _ _ _ _ pr) = handed st socket pr"
| "hello_ok st socket (HelloReady _ _ _ _ _ _ pr) = handed st socket pr"
| "hello_ok st socket (HelloCount _ _ pr) = handed st socket pr"
| "hello_ok st socket (HelloOnline _ pr) = handed st socket pr"
| "hello_ok st socket (HelloReissue _ pr) = handed st socket pr"

fun detach_ok :: "Server \<Rightarrow> DetachPoint \<Rightarrow> bool" where
  "detach_ok st (DetachRegistry pr) \<longleftrightarrow>
     p_socket (st_peers st pr) = None \<and> attached st pr \<and> pr < st_next st"
| "detach_ok st _ \<longleftrightarrow> True"

text \<open>What is being expired is in its room, in no registry, and has no transport.\<close>

definition leaving :: "Server \<Rightarrow> SessionRecord \<Rightarrow> bool" where
  "leaving st s \<longleftrightarrow> session_member st s \<and> p_socket (st_peers st (sr_peer s)) = None
     \<and> (\<forall>t \<in> sessions_of st. sr_peer t \<noteq> sr_peer s)"

fun task_ok :: "Server \<Rightarrow> LobbyTask \<Rightarrow> bool" where
  "task_ok st (HelloTask c p) = hello_ok st (hc_socket c) p"
| "task_ok st (DetachTask _ _ p) = detach_ok st p"
| "task_ok st (ExpiryTask _ p) = (\<forall>s \<in> set (expiry_sessions p). leaving st s)"

text \<open>The steps that need room in a counter: the identifiers of peers are 63-bit, the messages of a room 64-bit.\<close>

fun task_fits :: "LobbyTask \<Rightarrow> Server \<Rightarrow> bool" where
  "task_fits (HelloTask _ (HelloEnter _ _)) st = (lb_peerIdCounter st < 2 ^ 63 - 1)"
| "task_fits (HelloTask _ (HelloWelcome _ rr _)) st = (rm_sequencer (st_rooms st rr) \<noteq> - 1)"
| "task_fits _ _ = True"

section \<open>The other calls\<close>

text \<open>\<open>S\<close> are the sockets of the other calls, \<open>P\<close> their peers, \<open>X\<close> those in the middle of a handover.\<close>

definition others_ok :: "Env \<Rightarrow> socket_ref set \<Rightarrow> peer_ref set \<Rightarrow> peer_ref set \<Rightarrow> Server \<Rightarrow> bool" where
  "others_ok env S P X st \<longleftrightarrow> lobby_inv env st \<and> X \<subseteq> P
     \<and> (\<forall>pr \<in> P. pr < st_next st \<and> attached st pr
          \<and> (\<forall>socket. p_socket (st_peers st pr) = Some socket \<longrightarrow> socket \<in> S))"

lemma undisturbed_listens:
  "undisturbed S P st st' \<Longrightarrow> socket \<in> S \<Longrightarrow> peer_listens st' socket = peer_listens st socket"
  by (simp add: undisturbed_def peer_listens_def)

lemma undisturbed_handed:
  "undisturbed S P st st' \<Longrightarrow> socket \<in> S \<Longrightarrow> pr \<in> P \<Longrightarrow> handed st socket pr \<Longrightarrow> handed st' socket pr"
  using undisturbed_bound by (auto simp: handed_def undisturbed_def)

lemma undisturbed_sel:
  assumes "undisturbed S P st st'"
  shows "pr \<in> P \<Longrightarrow> p_socket (st_peers st' pr) = p_socket (st_peers st pr)"
    "pr \<in> P \<Longrightarrow> p_room (st_peers st' pr) = p_room (st_peers st pr)"
    "n < st_next st \<Longrightarrow> n < st_next st'"
    "pr \<in> P \<Longrightarrow> s \<in> sessions_of st' \<Longrightarrow> sr_peer s = pr \<Longrightarrow> s \<in> sessions_of st"
  using assms by (auto simp: undisturbed_def)

lemma undisturbed_leaving:
  "undisturbed S P st st' \<Longrightarrow> sr_peer s \<in> P \<Longrightarrow> leaving st s \<Longrightarrow> leaving st' s"
  by (auto simp: leaving_def session_member_def undisturbed_def)

text \<open>A call that is left alone may rely on what it relied on before.\<close>

lemma hello_ok_undisturbed:
  assumes u: "undisturbed S P st st'" and "socket \<in> S" "set (hello_peers p) \<subseteq> P" "hello_ok st socket p"
  shows "hello_ok st' socket p"
  using assms undisturbed_listens [OF u] undisturbed_sel [OF u] undisturbed_handed [OF u] undisturbed_bound [OF u]
    undisturbed_in_room [OF u] undisturbed_attached [OF u]
  by (cases p) auto

lemma task_ok_undisturbed:
  assumes u: "undisturbed S P st st'" and sub: "set (task_sockets t) \<subseteq> S" "set (task_peers t) \<subseteq> P" and "task_ok st t"
  shows "task_ok st' t"
proof (cases t)
  case (HelloTask c p)
  with assms hello_ok_undisturbed [OF u] show ?thesis by simp
next
  case (DetachTask now socket p)
  with assms undisturbed_sel [OF u] undisturbed_attached [OF u] show ?thesis by (cases p) auto
next
  case (ExpiryTask now p)
  with assms undisturbed_leaving [OF u] show ?thesis by auto
qed

text \<open>What a call relies on makes it one of the others of another call.\<close>

lemma task_ok_others:
  assumes inv: "lobby_inv env st" and "task_ok st t" "pr \<in> set (task_peers t)"
  shows "pr < st_next st" "attached st pr" "p_socket (st_peers st pr) = Some socket \<Longrightarrow> socket \<in> set (task_sockets t)"
proof -
  have heap: "heap_inv env st" using inv by (simp add: lobby_inv_def)
  have "pr < st_next st \<and> attached st pr \<and> (p_socket (st_peers st pr) = Some socket \<longrightarrow> socket \<in> set (task_sockets t))"
  proof (cases t)
    case (HelloTask c p)
    with assms in_room_less [OF inv] show ?thesis by (cases p) (auto simp: handed_def bound_def attached_def)
  next
    case (DetachTask now socket p)
    with assms show ?thesis by (cases p) auto
  next
    case (ExpiryTask now p)
    with assms session_peer(3) [OF heap] show ?thesis by (auto simp: leaving_def attached_def)
  qed
  then show "pr < st_next st" "attached st pr" "p_socket (st_peers st pr) = Some socket \<Longrightarrow> socket \<in> set (task_sockets t)"
    by blast+
qed

section \<open>Preservation\<close>

text \<open>What a step has to establish: of the lobby, for the other calls, and for the rest of its own call.\<close>

definition advanced_to :: "Env \<Rightarrow> socket_ref set \<Rightarrow> peer_ref set \<Rightarrow> peer_ref set \<Rightarrow> Server \<Rightarrow> Server \<Rightarrow> peer_ref list \<Rightarrow> bool" where
  "advanced_to env S P X st st' moving \<longleftrightarrow>
     lobby_inv env st' \<and> undisturbed S P st st' \<and> transports_ok (X \<union> set moving) st'"

lemma others_inv: "others_ok env S P X st \<Longrightarrow> lobby_inv env st"
  by (simp add: others_ok_def)

lemma sound_advance:
  assumes "others_ok env S P X st" "transports_ok (X \<union> set ms) st" "sound env st st'"
  shows "advanced_to env S P X st st' ms" "handed st socket pr \<Longrightarrow> handed st' socket pr"
    "bound st socket pr \<Longrightarrow> bound st' socket pr" "peer_listens st' socket = peer_listens st socket"
proof -
  note s = sound_lobby [OF assms(3) others_inv [OF assms(1)]]
  show "advanced_to env S P X st st' ms" using s(1,4) s(3) [OF assms(2)] by (simp add: advanced_to_def)
  show "handed st socket pr \<Longrightarrow> handed st' socket pr" using undisturbed_handed [OF s(4) UNIV_I UNIV_I] .
  show "bound st socket pr \<Longrightarrow> bound st' socket pr" using undisturbed_bound [OF s(4) UNIV_I] .
  show "peer_listens st' socket = peer_listens st socket" using undisturbed_listens [OF s(4) UNIV_I] .
qed

lemma transports_drop:
  "transports_ok (insert pr X) st \<Longrightarrow> \<forall>s \<in> sessions_of st. sr_peer s \<noteq> pr \<Longrightarrow> transports_ok X st"
  by (auto simp: transports_ok_def)

text \<open>The steps of a hello up to the binding of its transport.\<close>

lemma pending_step_inv:
  assumes oth: "others_ok env S P X st" and tr: "transports_ok X st" and l: "\<not> peer_listens st (hc_socket c)"
    and step: "hello_step env c HelloPending st = (st', r)"
  shows "advanced_to env S P X st st' []" "r = Inr p' \<Longrightarrow> hello_ok st' (hc_socket c) p' \<and> hello_peers p' = [] \<and> hello_moving p' = []"
proof -
  obtain b where t: "hello_takePending (hc_now c) (hc_socket c) st = (st', b)"
    using step by (auto simp: hello_step_def Let_def split: prod.splits bool.splits option.splits)
  note ti = takePending_inv [OF others_inv [OF oth] t]
  show "advanced_to env S P X st st' []" using ti(1,3) ti(2) [OF tr] by (simp add: advanced_to_def)
  show "r = Inr p' \<Longrightarrow> hello_ok st' (hc_socket c) p' \<and> hello_peers p' = [] \<and> hello_moving p' = []"
    using step l ti(4) by (auto simp: hello_step_def Let_def t peer_listens_def split: bool.splits option.splits)
qed

lemma lookup_step_inv:
  assumes oth: "others_ok env S P X st" and tr: "transports_ok X st" and l: "\<not> peer_listens st (hc_socket c)"
    and look: "hello_lookup env now name token st = (st', Some pr)"
  shows "advanced_to env S P X st st' [pr]" "hello_ok st' (hc_socket c) (HelloBind token pr)" "pr \<notin> P"
proof -
  have o: "lobby_inv env st" "X \<subseteq> P" "\<forall>pr \<in> P. attached st pr" "\<forall>pr \<in> X. attached st pr"
    using oth by (auto simp: others_ok_def)
  note free = lookup_inv(3) [OF o(1) transports_mono [OF tr o(2)] o(3) look]
  note li = lookup_inv [OF o(1) tr o(4) look]
  show "advanced_to env S P X st st' [pr]" using li(1,2) li(7) [OF free] by (simp add: advanced_to_def)
  show "hello_ok st' (hc_socket c) (HelloBind token pr)" using li(4-6,10) l by (simp add: peer_listens_def)
  show "pr \<notin> P" by (rule free)
qed

lemma bind_step_inv:
  assumes oth: "others_ok env S P X st" and tr: "transports_ok (insert pr X) st" and pr: "pr \<notin> P"
    and ok: "hello_ok st socket (HelloBind token pr)"
  shows "advanced_to env S P X st (hello_bind now2 socket pr st) [pr]"
    "hello_ok (hello_bind now2 socket pr st) socket (HelloListen token b pr)"
proof -
  have ok': "\<not> peer_listens st socket" "in_room st pr" "attached st pr" using ok by simp_all
  note b = bind_inv [OF others_inv [OF oth] insertI1 ok'(2,3)]
  show "advanced_to env S P X st (hello_bind now2 socket pr st) [pr]"
    using b(1) b(2) [OF tr] b(4) [OF pr] by (simp add: advanced_to_def)
  show "hello_ok (hello_bind now2 socket pr st) socket (HelloListen token b pr)"
    using ok'(1) b(3) by (simp add: peer_listens_def)
qed

lemma room_step_inv:
  assumes oth: "others_ok env S P X st" and tr: "transports_ok X st" and l: "\<not> peer_listens st socket"
    and get: "getOrCreateRoom name st = (st', r)"
  shows "advanced_to env S P X st st' []" "r = Some rr \<Longrightarrow> hello_ok st' socket (HelloCapacity token rr)"
proof -
  note g = getOrCreateRoom_inv [OF others_inv [OF oth] get]
  show "advanced_to env S P X st st' []" using g(1,3) g(2) [OF tr] by (simp add: advanced_to_def)
  show "r = Some rr \<Longrightarrow> hello_ok st' socket (HelloCapacity token rr)" using g(4,7) l by (simp add: peer_listens_def)
qed

lemma enter_step_inv:
  assumes oth: "others_ok env S P X st" and tr: "transports_ok X st"
    and ok: "hello_ok st socket (HelloEnter token rr)" and fits: "lb_peerIdCounter st < 2 ^ 63 - 1"
    and enter: "hello_enter now2 socket nick rr st = (st', r)"
  shows "advanced_to env S P X st st' []"
    and "r = Some pr \<Longrightarrow> hello_ok st' socket (HelloFile token rr pr) \<and> pr \<notin> P"
proof -
  have inv: "lobby_inv env st" by (rule others_inv [OF oth])
  have "rr < st_next st" using ok by simp
  note e = enter_inv [OF inv this fits enter]
  have "\<forall>pr \<in> P. pr < st_next st" using oth by (simp add: others_ok_def)
  with e(1-3) tr show "advanced_to env S P X st st' []" by (simp add: advanced_to_def)
  assume r: "r = Some pr"
  then have pr: "pr = st_next st" using e(4) by (simp split: if_splits)
  have "sr_peer s \<noteq> pr" if "s \<in> sessions_of st'" for s
    using that sessionsD(4) [OF inv] by (force simp: sessions_of_def e(5) pr)
  with ok e(11) [OF r] have "hello_ok st' socket (HelloFile token rr pr)"
    by (simp add: e(7,10) pr peer_listens_def)
  moreover have "pr \<notin> P" using oth pr by (auto simp: others_ok_def)
  ultimately show "hello_ok st' socket (HelloFile token rr pr) \<and> pr \<notin> P" ..
qed

lemma file_step_inv:
  assumes oth: "others_ok env S P X st" and tr: "transports_ok (insert pr X) st" and pr: "pr \<notin> P"
    and ok: "hello_ok st socket (HelloFile token rr pr)"
  shows "advanced_to env S P X st (hello_file env token rr pr st) [pr]"
    "hello_ok (hello_file env token rr pr st) socket (HelloWelcome token rr pr)"
proof -
  have ok': "\<not> peer_listens st socket" "p_socket (st_peers st pr) = Some socket" "in_room st pr"
    "p_room (st_peers st pr) = rr" "\<And>s. s \<in> sessions_of st \<Longrightarrow> sr_peer s \<noteq> pr" using ok by simp_all
  note f = file_inv [OF others_inv [OF oth] ok'(3-5)]
  show "advanced_to env S P X st (hello_file env token rr pr st) [pr]"
    using f(1-3) tr pr by (simp add: advanced_to_def)
  show "hello_ok (hello_file env token rr pr st) socket (HelloWelcome token rr pr)"
    using ok'(1,2) f(4,5) by (simp add: bound_def peer_listens_def f(6,8))
qed

lemma listen_step_inv:
  assumes oth: "others_ok env S P X st" and tr: "transports_ok (insert pr X) st" and pr: "pr \<notin> P" "socket \<notin> S"
    and ok: "\<not> peer_listens st socket" "bound st socket pr"
  shows "advanced_to env S P X st (hello_listen socket pr st) []" "handed (hello_listen socket pr st) socket pr"
proof -
  note l = listen_inv [OF others_inv [OF oth] tr ok insertI1]
  have "pr \<notin> X" using oth pr by (auto simp: others_ok_def)
  then have "transports_ok X (hello_listen socket pr st)" using l(3) by simp
  then show "advanced_to env S P X st (hello_listen socket pr st) []"
    using l(1) l(5) [OF pr(2)] by (simp add: advanced_to_def)
  show "handed (hello_listen socket pr st) socket pr" using l(4) by (simp add: handed_def hello_listen_def)
qed

text \<open>From the handover on, a hello only uses its peer.\<close>

lemma served_step:
  assumes inv: "lobby_inv env st" and step: "hello_step env c p st = (st', r)"
    and ok: "hello_ok st (hc_socket c) p" and p: "hello_rank p < 9"
  shows "sound env st st'" "r = Inr p' \<Longrightarrow> hello_rank p' < 9 \<and> hello_peers p' = hello_peers p"
proof -
  have "sound env st st' \<and> (r = Inr p' \<longrightarrow> hello_rank p' < 9 \<and> hello_peers p' = hello_peers p)"
  proof (cases p)
    case (HelloCapability token resumed pr)
    obtain changed where "hello_capability (hc_capability c) pr st = (st', changed)"
      using step by (auto simp: HelloCapability hello_step_def Let_def split: prod.splits)
    with step show ?thesis
      by (auto simp: HelloCapability hello_step_def Let_def intro: capability_sound(1))
  next
    case (HelloWithdraw token resumed pr)
    obtain e where w: "Room_withdrawPeerFiles env (p_room (st_peers st pr)) pr st = (st', e)"
      using step by (auto simp: HelloWithdraw hello_step_def Let_def split: prod.splits option.splits)
    have "pr \<in> set (room_peers (p_room (st_peers st pr)) st)"
      using ok by (intro in_room_peers) (simp add: HelloWithdraw handed_def bound_def)
    from withdraw_changed_sound [OF _ this, of True] w step show ?thesis
      by (auto simp: HelloWithdraw hello_step_def Let_def split: option.splits)
  next
    case (HelloOnline changed pr)
    with step sound_connection_state show ?thesis by (auto simp: hello_step_def Let_def)
  next
    case (HelloReissue changed pr)
    with step sound_reissuePeer show ?thesis by (auto simp: hello_step_def Let_def)
  qed (use step p in \<open>auto simp: hello_step_def Let_def sound_send sound_emit split: if_splits\<close>)
  then show "sound env st st'" "r = Inr p' \<Longrightarrow> hello_rank p' < 9 \<and> hello_peers p' = hello_peers p" by simp_all
qed

lemma hello_ok_served:
  assumes "hello_rank p < 9"
  shows "hello_ok st socket p \<longleftrightarrow> (\<forall>pr \<in> set (hello_peers p). handed st socket pr)" "hello_moving p = []"
  using assms by (cases p; simp)+

text \<open>What a step establishes for the rest of its call.\<close>

definition continues :: "Server \<Rightarrow> peer_ref set \<Rightarrow> LobbyTask \<Rightarrow> LobbyTask \<Rightarrow> bool" where
  "continues st P t t' \<longleftrightarrow> task_ok st t' \<and> task_sockets t' = task_sockets t \<and> distinct (task_peers t')
     \<and> set (task_peers t') \<inter> P = {}"

abbreviation moving_after :: "TaskEnd + LobbyTask \<Rightarrow> peer_ref list" where
  "moving_after r \<equiv> (case r of Inl _ \<Rightarrow> [] | Inr t' \<Rightarrow> task_moving t')"

definition hello_goes ::
  "Env \<Rightarrow> socket_ref set \<Rightarrow> peer_ref set \<Rightarrow> peer_ref set \<Rightarrow> socket_ref \<Rightarrow> Server \<Rightarrow> Server \<Rightarrow> TaskEnd + HelloPoint \<Rightarrow> bool" where
  "hello_goes env S P X socket st st' r \<longleftrightarrow>
     advanced_to env S P X st st' (case r of Inl _ \<Rightarrow> [] | Inr p' \<Rightarrow> hello_moving p')
   \<and> (\<forall>p'. r = Inr p' \<longrightarrow> hello_ok st' socket p' \<and> distinct (hello_peers p') \<and> set (hello_peers p') \<inter> P = {})"

lemma hello_goes_simps:
  "hello_goes env S P X socket st st' (Inl e) \<longleftrightarrow> advanced_to env S P X st st' []"
  "hello_goes env S P X socket st st' (Inr p') \<longleftrightarrow> advanced_to env S P X st st' (hello_moving p')
     \<and> hello_ok st' socket p' \<and> set (hello_peers p') \<inter> P = {}"
proof -
  have "distinct (hello_peers p')" by (cases p') simp_all
  then show "hello_goes env S P X socket st st' (Inr p') \<longleftrightarrow> advanced_to env S P X st st' (hello_moving p')
     \<and> hello_ok st' socket p' \<and> set (hello_peers p') \<inter> P = {}" by (simp add: hello_goes_def)
qed (simp add: hello_goes_def)

lemma served_goes:
  assumes oth: "others_ok env S P X st" and tr: "transports_ok X st" and ok: "hello_ok st (hc_socket c) p"
    and apart: "set (hello_peers p) \<inter> P = {}" and p: "hello_rank p < 9" and step: "hello_step env c p st = (st', r)"
  shows "hello_goes env S P X (hc_socket c) st st' r"
proof -
  note s = served_step [OF others_inv [OF oth] step ok p] and o = hello_ok_served [OF p]
  have "transports_ok (X \<union> set []) st" using tr by simp
  note a = sound_advance [OF oth this s(1)]
  show ?thesis
  proof (cases r)
    case (Inr p')
    note n = s(2) [OF Inr] and o' = hello_ok_served [of p']
    have "hello_ok st' (hc_socket c) p'" using ok a(2) n o o' by simp
    then show ?thesis using a(1) o'(2) n apart by (simp add: Inr hello_goes_simps)
  qed (use a(1) in \<open>simp add: hello_goes_simps\<close>)
qed

lemma lookup_goes:
  assumes oth: "others_ok env S P X st" and tr: "transports_ok X st" and l: "\<not> peer_listens st (hc_socket c)"
    and step: "hello_step env c (HelloLookup token) st = (st', r)"
  shows "hello_goes env S P X (hc_socket c) st st' r"
proof -
  obtain q where look: "hello_lookup env (hc_now c) (hc_roomName c) token st = (st', q)"
      "r = (case q of None \<Rightarrow> Inl (Inr None) | Some pr \<Rightarrow> Inr (HelloBind token pr))"
    using step by (auto simp: hello_step_def Let_def split: prod.splits option.splits)
  show ?thesis
  proof (cases q)
    case None
    have "st' = st" by (cases rule: lookup_cases [OF look(1)]) (use None in simp_all)
    with None look(2) others_inv [OF oth] tr show ?thesis
      by (simp add: hello_goes_simps advanced_to_def undisturbed.frame_refl)
  next
    case (Some pr)
    with lookup_step_inv [OF oth tr l look(1) [unfolded Some]] look(2) show ?thesis by (simp add: hello_goes_simps)
  qed
qed

lemma enter_goes:
  assumes oth: "others_ok env S P X st" and tr: "transports_ok X st"
    and ok: "hello_ok st (hc_socket c) (HelloEnter token rr)" and fits: "lb_peerIdCounter st < 2 ^ 63 - 1"
    and step: "hello_step env c (HelloEnter token rr) st = (st', r)"
  shows "hello_goes env S P X (hc_socket c) st st' r"
proof -
  obtain q where en: "hello_enter (hc_now2 c) (hc_socket c) (hc_nickname c) rr st = (st', q)"
      "r = (case q of None \<Rightarrow> Inl (Inr None) | Some pr \<Rightarrow> Inr (HelloFile token rr pr))"
    using step by (auto simp: hello_step_def Let_def split: prod.splits option.splits)
  note e = enter_step_inv [OF oth tr ok fits en(1)]
  have "transports_ok (insert pr X) st'" for pr using e(1) by (auto simp: advanced_to_def intro: transports_mono)
  with e en(2) show ?thesis by (cases q) (simp_all add: hello_goes_simps advanced_to_def)
qed

lemma welcome_goes:
  assumes oth: "others_ok env S P X st" and tr: "transports_ok (insert pr X) st" and pr: "pr \<notin> P"
    and ok: "hello_ok st (hc_socket c) (HelloWelcome token rr pr)" and fits: "rm_sequencer (st_rooms st rr) \<noteq> - 1"
    and step: "hello_step env c (HelloWelcome token rr pr) st = (st', r)"
  shows "hello_goes env S P X (hc_socket c) st st' r"
proof -
  obtain e where w: "Room_welcomePeer env rr pr st = (st', e)"
    using step by (auto simp: hello_step_def Let_def split: prod.splits option.splits)
  have "e = None" using w fits
    by (auto simp: Room_welcomePeer_def Let_def split: prod.splits sum.splits elim!: publishDurable_plain)
  with step w have r: "r = Inr (HelloListen token False pr)" by (simp add: hello_step_def Let_def)
  have "transports_ok (X \<union> set [pr]) st" using tr by simp
  from sound_advance [OF oth this sound_welcome [OF w]] ok pr show ?thesis by (simp add: r hello_goes_simps)
qed

lemma hello_step_inv:
  assumes oth: "others_ok env S P X st" and tr: "transports_ok (X \<union> set (hello_moving p)) st"
    and ok: "hello_ok st (hc_socket c) p" and apart: "hc_socket c \<notin> S" "set (hello_peers p) \<inter> P = {}"
    and fits: "task_fits (HelloTask c p) st" and step: "hello_step env c p st = (st', r)"
  shows "hello_goes env S P X (hc_socket c) st st' r"
proof (cases "hello_rank p < 9")
  case True
  with served_goes [OF oth _ ok apart(2) True step] hello_ok_served(2) [OF True] tr show ?thesis by simp
next
  case False
  show ?thesis
  proof (cases p)
    case HelloPending
    with pending_step_inv [OF oth _ _ step [unfolded HelloPending]] tr ok show ?thesis
      by (cases r) (auto simp: hello_goes_simps)
  next
    case (HelloLookup token)
    with lookup_goes [OF oth _ _ step [unfolded HelloLookup]] tr ok show ?thesis by simp
  next
    case (HelloBind token pr)
    with bind_step_inv [OF oth _ _ ok [unfolded HelloBind], of "hc_now2 c"] step tr apart(2) show ?thesis
      by (auto simp: hello_step_def Let_def hello_goes_simps)
  next
    case (HelloRoom token)
    obtain q where get: "getOrCreateRoom (hc_roomName c) st = (st', q)"
        "r = (case q of None \<Rightarrow> Inl (Inr None) | Some rr \<Rightarrow> Inr (HelloCapacity token rr))"
      using step by (auto simp: HelloRoom hello_step_def Let_def split: prod.splits option.splits)
    with room_step_inv [OF oth _ _ get(1)] tr ok show ?thesis by (cases q) (auto simp: HelloRoom hello_goes_simps)
  next
    case (HelloCapacity token rr)
    with step ok others_inv [OF oth] tr show ?thesis
      by (auto simp: hello_step_def Let_def hello_goes_simps advanced_to_def undisturbed.frame_refl)
  next
    case (HelloEnter token rr)
    with enter_goes [OF oth _ ok [unfolded HelloEnter] _ step [unfolded HelloEnter]] tr fits show ?thesis by simp
  next
    case (HelloFile token rr pr)
    with file_step_inv [OF oth _ _ ok [unfolded HelloFile]] step tr apart(2) show ?thesis
      by (auto simp: hello_step_def Let_def hello_goes_simps)
  next
    case (HelloWelcome token rr pr)
    with welcome_goes [OF oth _ _ ok [unfolded HelloWelcome] _ step [unfolded HelloWelcome]] tr fits apart(2)
    show ?thesis by simp
  next
    case (HelloListen token resumed pr)
    with listen_step_inv [OF oth, of pr "hc_socket c"] step tr ok apart show ?thesis
      by (auto simp: hello_step_def Let_def hello_goes_simps)
  qed (use False in simp_all)
qed

lemma detach_step_inv:
  assumes oth: "others_ok env S P X st" and tr: "transports_ok (X \<union> set (detach_peers p)) st"
    and ok: "detach_ok st p" and apart: "socket \<notin> S" "set (detach_peers p) \<inter> P = {}"
    and step: "detach_step env now socket p st = (st', r)"
  shows "advanced_to env S P X st st' (case r of Inl _ \<Rightarrow> [] | Inr p' \<Rightarrow> detach_peers p')
    \<and> (\<forall>p'. r = Inr p' \<longrightarrow> detach_ok st' p' \<and> distinct (detach_peers p') \<and> set (detach_peers p') \<inter> P = {})"
proof (cases p)
  case DetachPending
  have "undisturbed S P st (st\<lparr>lb_pending := um_erase socket (lb_pending st)\<rparr>)" by (rule undisturbed_same) simp_all
  with step tr erase_pending_inv [OF others_inv [OF oth]] show ?thesis
    by (auto simp: DetachPending detach_step_def advanced_to_def)
next
  case DetachUnbind
  obtain q where u: "detach_unbind socket st = (st', q)"
      "r = (case q of None \<Rightarrow> Inl (Inr None) | Some pr \<Rightarrow> Inr (DetachRegistry pr))"
    using step by (auto simp: DetachUnbind detach_step_def split: prod.splits option.splits)
  have tr0: "transports_ok X st" using tr by (simp add: DetachUnbind)
  show ?thesis
  proof (cases q)
    case None
    have "st' = st" by (cases rule: unbind_cases [OF u(1)]) (use None in simp_all)
    with None u(2) tr0 others_inv [OF oth] show ?thesis by (simp add: advanced_to_def undisturbed.frame_refl)
  next
    case (Some pr)
    have "p_socket (st_peers st pr) = Some socket" using u(1) Some by (cases rule: unbind_cases) simp_all
    then have pr: "pr \<notin> P" using oth apart(1) by (auto simp: others_ok_def)
    then have "pr \<notin> X" using oth by (auto simp: others_ok_def)
    note ui = unbind_inv [OF others_inv [OF oth] tr0 u(1) [unfolded Some] this]
    from ui(1,2) ui(3) [OF pr] ui(4-6) pr show ?thesis by (simp add: u(2) Some advanced_to_def)
  qed
next
  case (DetachRegistry pr)
  obtain q where g: "detach_registry now pr st = (st', q)"
      "r = (case q of None \<Rightarrow> Inl (Inr None) | Some rr \<Rightarrow> Inr (DetachCount pr rr))"
    using step by (auto simp: DetachRegistry detach_step_def split: prod.splits option.splits)
  have d: "transports_ok (insert pr X) st" "p_socket (st_peers st pr) = None" "pr \<notin> P"
    using tr ok apart(2) by (simp_all add: DetachRegistry)
  then have X: "insert pr X - {pr} = X" using oth by (auto simp: others_ok_def)
  note ri = registry_detach_inv [OF others_inv [OF oth] g(1) d(1,2), unfolded X]
  from ri(1,2) ri(3) [OF d(3)] show ?thesis by (cases q) (simp_all add: g(2) advanced_to_def)
next
  case (DetachCount pr rr)
  with step sound_advance(1) [OF oth tr sound_emit] show ?thesis by (auto simp: detach_step_def)
next
  case (DetachOffline pr rr)
  with step sound_advance(1) [OF oth tr sound_connection_state] show ?thesis by (auto simp: detach_step_def)
qed

text \<open>One member less: the rest of what expires stays.\<close>

lemma remove_step_inv:
  assumes oth: "others_ok env S P X st" and tr: "transports_ok X st"
    and ok: "leaving st s" "\<forall>t \<in> set ss. leaving st t" and apart: "sr_peer s \<notin> P" "sr_peer s \<notin> sr_peer ` set ss"
    and st': "st' = Room_removePeerById (sr_room s) (p_peerId (st_peers st (sr_peer s))) st"
  shows "advanced_to env S P X st st' []" "\<forall>t \<in> set ss. leaving st' t"
proof -
  have s: "session_member st s" "\<forall>t \<in> sessions_of st. sr_peer t \<noteq> sr_peer s" using ok(1) by (simp_all add: leaving_def)
  note rem = remove_inv [OF others_inv [OF oth] s st']
  show "advanced_to env S P X st st' []" using rem(1) rem(2) [OF tr] rem(3) [OF apart(1)] by (simp add: advanced_to_def)
  from undisturbed_leaving [OF rem(3) [OF apart(2)]] ok(2) show "\<forall>t \<in> set ss. leaving st' t" by blast
qed

lemma sound_leaving:
  fixes st st' :: Server
  shows "lobby_inv env st \<Longrightarrow> sound env st st' \<Longrightarrow> leaving st s \<Longrightarrow> leaving st' s"
  using undisturbed_leaving sound_lobby(4) by blast

lemma expiry_step_inv:
  assumes oth: "others_ok env S P X st" and tr: "transports_ok X st"
    and ok: "\<forall>s \<in> set (expiry_sessions p). leaving st s"
    and apart: "distinct (map sr_peer (expiry_sessions p))" "sr_peer ` set (expiry_sessions p) \<inter> P = {}"
    and step: "expiry_step env now p st = (st', r)"
  shows "advanced_to env S P X st st' []
    \<and> (\<forall>p'. r = Inr p' \<longrightarrow> (\<forall>s \<in> set (expiry_sessions p'). leaving st' s)
          \<and> distinct (map sr_peer (expiry_sessions p')) \<and> sr_peer ` set (expiry_sessions p') \<inter> P = {})"
proof -
  note inv = others_inv [OF oth]
  have tr0: "transports_ok (X \<union> set []) st" using tr by simp
  note a = sound_advance(1) [OF oth tr0] and l = sound_leaving [OF inv]
  show ?thesis
  proof (cases p)
    case ExpiryCollect
    obtain sockets ss where col: "expire_collect now st = (st', sockets, ss)" "r = Inr (ExpiryInvalidate sockets ss)"
      using step by (auto simp: ExpiryCollect expiry_step_def split: prod.splits)
    have o: "X \<subseteq> P" "\<forall>pr \<in> P. attached st pr" "\<forall>pr \<in> X. attached st pr" using oth by (auto simp: others_ok_def)
    note c = collect_inv [OF inv tr o(3) col(1)]
    note free = collect_inv(8) [OF inv transports_mono [OF tr o(1)] o(2) col(1)]
    show ?thesis using c(1-3,5-7,9) free by (auto simp: col(2) advanced_to_def leaving_def disjoint_iff)
  next
    case (ExpiryInvalidate sockets ss)
    with step a [OF sound_emit] l [OF sound_emit] ok apart show ?thesis by (auto simp: expiry_step_def disjoint_iff)
  next
    case (ExpiryRemove ss)
    show ?thesis
    proof (cases ss)
      case Nil
      with step inv tr show ?thesis
        by (auto simp: ExpiryRemove expiry_step_def advanced_to_def undisturbed.frame_refl)
    next
      case (Cons s ss')
      have st': "st' = Room_removePeerById (sr_room s) (p_peerId (st_peers st (sr_peer s))) st"
        and r: "r = Inr (ExpiryGoodbye s ss')"
        using step by (auto simp: ExpiryRemove Cons expiry_step_def)
      have s: "leaving st s" "\<forall>t \<in> set ss'. leaving st t" "sr_peer s \<notin> P" "sr_peer s \<notin> sr_peer ` set ss'"
        using ok apart by (auto simp: ExpiryRemove Cons)
      from remove_step_inv [OF oth tr s st'] apart show ?thesis by (auto simp: r ExpiryRemove Cons disjoint_iff)
    qed
  next
    case (ExpiryGoodbye s ss)
    obtain e where g: "Room_goodbyePeer env (sr_room s) (sr_peer s) st = (st', e)"
      using step by (auto simp: ExpiryGoodbye expiry_step_def split: prod.splits option.splits)
    with step a [OF sound_goodbye [OF g]] l [OF sound_goodbye [OF g]] ok apart show ?thesis
      by (auto simp: ExpiryGoodbye expiry_step_def disjoint_iff split: option.splits)
  next
    case (ExpiryCount s ss)
    with step a [OF sound_emit] l [OF sound_emit] ok apart show ?thesis by (auto simp: expiry_step_def disjoint_iff)
  next
    case (ExpiryDelete s ss)
    have st': "st' = deleteRoomIfEmpty (sr_room s) st" and r: "r = Inr (ExpiryRemove ss)"
      using step by (auto simp: ExpiryDelete expiry_step_def)
    note d = deleteRoom_inv [OF inv, where rr = "sr_room s", folded st']
    from d(1) d(2) [OF tr] d(3) undisturbed_leaving [OF d(3) UNIV_I] ok apart show ?thesis
      by (auto simp: r ExpiryDelete advanced_to_def disjoint_iff)
  qed
qed

lemma task_step_inv:
  assumes oth: "others_ok env S P X st" and tr: "transports_ok (X \<union> set (task_moving t)) st" and ok: "task_ok st t"
    and apart: "set (task_sockets t) \<inter> S = {}" "set (task_peers t) \<inter> P = {}" "distinct (task_peers t)"
    and fits: "task_fits t st" and step: "task_step env t st = (st', r)"
  shows "advanced_to env S P X st st' (moving_after r)" "r = Inr t' \<Longrightarrow> continues st' P t t'"
proof -
  have "advanced_to env S P X st st' (moving_after r) \<and> (\<forall>t'. r = Inr t' \<longrightarrow> continues st' P t t')"
    using step
  proof (cases rule: task_step_cases)
    case (hello c p q)
    have "hello_ok st (hc_socket c) p" "hc_socket c \<notin> S" "set (hello_peers p) \<inter> P = {}" using ok apart hello(1) by simp_all
    from hello_step_inv [OF oth tr [unfolded hello(1) task_moving.simps] this fits [unfolded hello(1)] hello(2)]
    show ?thesis by (cases q) (simp_all add: hello(1,3) continues_def hello_goes_def)
  next
    case (detach now socket p q)
    have "detach_ok st p" "socket \<notin> S" "set (detach_peers p) \<inter> P = {}" using ok apart detach(1) by simp_all
    from detach_step_inv [OF oth tr [unfolded detach(1) task_moving.simps] this detach(2)]
    show ?thesis by (cases q) (simp_all add: detach(1,3) continues_def)
  next
    case (expiry now p q)
    have "transports_ok X st" "\<forall>s \<in> set (expiry_sessions p). leaving st s" "distinct (map sr_peer (expiry_sessions p))"
      "sr_peer ` set (expiry_sessions p) \<inter> P = {}" using tr ok apart expiry(1) by simp_all
    from expiry_step_inv [OF oth this expiry(2)] show ?thesis by (cases q) (simp_all add: expiry(1,3) continues_def)
  qed
  then show "advanced_to env S P X st st' (moving_after r)" "r = Inr t' \<Longrightarrow> continues st' P t t'" by simp_all
qed

end
