(* ===== verification/InterleavedRuns.thy ===== *)
theory InterleavedRuns
  imports Interleaving
begin

text \<open>
  Runs of calls that interleave: the step relation, its invariant \<open>tasks_inv\<close>, and the serial runs among
  them. \<open>busy\<close> are the sockets the calls under way serve, \<open>held\<close> the peers they hold, \<open>moving\<close> the peers
  whose transport is in the middle of a handover.
\<close>

section \<open>Steps\<close>

definition busy :: "LobbyTask list \<Rightarrow> socket_ref list" where
  "busy ts = concat (map task_sockets ts)"

definition held :: "LobbyTask list \<Rightarrow> peer_ref list" where
  "held ts = concat (map task_peers ts)"

definition moving :: "LobbyTask list \<Rightarrow> peer_ref list" where
  "moving ts = concat (map task_moving ts)"

text \<open>The last frame of a transport's hello (\<^verbatim>\<open>PendingHello::readMessage\<close>) starts a call when it is accepted.\<close>

definition hello_starts :: "Env \<Rightarrow> PendingHello \<Rightarrow> string \<Rightarrow> (MessageDto \<times> u64 \<times> string) option" where
  "hello_starts env h frame =
     (if h_consumed h \<or> frame \<noteq> [] then None
      else case env_readFromString env (h_buffer h) of
             Inl _ \<Rightarrow> None
           | Inr hello \<Rightarrow> hello_accepted hello)"

definition hello_call ::
  "time \<Rightarrow> time \<Rightarrow> string option \<Rightarrow> socket_ref \<Rightarrow> PendingHello \<Rightarrow> MessageDto \<times> u64 \<times> string \<Rightarrow> HelloCall" where
  "hello_call now now2 bytes socket h entry =
     (case entry of (m, cursor, capability) \<Rightarrow>
        \<lparr>hc_socket = socket, hc_now = now, hc_now2 = now2, hc_roomName = h_roomName h, hc_nickname = h_nickname h,
         hc_bytes = bytes, hc_resume = mb_resumeToken (msg_body m), hc_cursor = cursor, hc_capability = capability\<rparr>)"

text \<open>What the step of a call may do to the sessions.\<close>

fun task_action :: "LobbyTask \<Rightarrow> ServerAction" where
  "task_action (HelloTask c _) = SessionHello (hc_now c) (hc_roomName c)"
| "task_action (DetachTask now _ _) = TransportDestroyed now"
| "task_action (ExpiryTask now ExpiryCollect) = SessionExpiry now"
| "task_action (ExpiryTask _ _) = OtherAction"

text \<open>The objects below the lobby run between the steps of calls. They free no peer a call holds, and
  no transport is created on a socket that a call serves.\<close>

inductive lobby_step :: "Env \<Rightarrow> ServerAction \<Rightarrow> Server \<Rightarrow> LobbyTask list \<Rightarrow> Server \<Rightarrow> LobbyTask list \<Rightarrow> bool" for env where
  others: "server_step env OtherAction st st' \<Longrightarrow> counters_fit st \<Longrightarrow>
     \<forall>pr \<in> set (held ts). st_peerAlive st' pr = st_peerAlive st pr \<Longrightarrow>
     \<forall>socket \<in> set (busy ts). lb_listeners st' socket = lb_listeners st socket \<Longrightarrow>
     lobby_step env OtherAction st ts st' ts"
| frame: "lb_listeners st socket = Some (PendingHelloListener h) \<Longrightarrow> socket \<notin> set (busy ts) \<Longrightarrow>
     hello_starts env h bytes = None \<Longrightarrow>
     PendingHello_readMessage env now now2 random socket h bytes st = (st', r) \<Longrightarrow>
     lobby_step env OtherAction st ts st' ts"
| hello: "lb_listeners st socket = Some (PendingHelloListener h) \<Longrightarrow> socket \<notin> set (busy ts) \<Longrightarrow>
     hello_starts env h [] = Some entry \<Longrightarrow>
     lobby_step env OtherAction st ts (set_pending_hello socket (h\<lparr>h_consumed := True\<rparr>) st)
       (HelloTask (hello_call now now2 random socket h entry) HelloPending # ts)"
| destroy: "socket \<notin> set (busy ts) \<Longrightarrow> lobby_step env OtherAction st ts st (DetachTask now socket DetachPending # ts)"
| expire: "lobby_step env OtherAction st ts st (ExpiryTask now ExpiryCollect # ts)"
| step: "task_fits t st \<Longrightarrow> task_step env t st = (st', Inr t') \<Longrightarrow>
     lobby_step env (task_action t) st (us @ t # vs) st' (us @ t' # vs)"
| finish: "task_fits t st \<Longrightarrow> task_step env t st = (st', Inl e) \<Longrightarrow>
     lobby_step env (task_action t) st (us @ t # vs) st' (us @ vs)"

inductive interleaved :: "Env \<Rightarrow> Server \<Rightarrow> LobbyTask list \<Rightarrow> bool" for env where
  start: "interleaved env Server_new []"
| continue: "interleaved env st ts \<Longrightarrow> lobby_step env a st ts st' ts' \<Longrightarrow> interleaved env st' ts'"

section \<open>Invariant\<close>

definition tasks_inv :: "Env \<Rightarrow> Server \<Rightarrow> LobbyTask list \<Rightarrow> bool" where
  "tasks_inv env st ts \<longleftrightarrow> lobby_inv env st \<and> transports_ok (set (moving ts)) st
     \<and> distinct (busy ts) \<and> distinct (held ts) \<and> (\<forall>t \<in> set ts. task_ok st t)"

lemma tasks_sub:
  "t \<in> set ts \<Longrightarrow> set (task_sockets t) \<subseteq> set (busy ts)" "t \<in> set ts \<Longrightarrow> set (task_peers t) \<subseteq> set (held ts)"
  "set (moving ts) \<subseteq> set (held ts)"
proof -
  show "t \<in> set ts \<Longrightarrow> set (task_sockets t) \<subseteq> set (busy ts)" "t \<in> set ts \<Longrightarrow> set (task_peers t) \<subseteq> set (held ts)"
    by (auto simp: busy_def held_def)
  show "set (moving ts) \<subseteq> set (held ts)" using moving_held by (auto simp: moving_def held_def)
qed

lemma tasks_split [simp]:
  "busy (us @ vs) = busy us @ busy vs" "busy (t # ts) = task_sockets t @ busy ts" "busy [] = []"
  "held (us @ vs) = held us @ held vs" "held (t # ts) = task_peers t @ held ts" "held [] = []"
  "moving (us @ vs) = moving us @ moving vs" "moving (t # ts) = task_moving t @ moving ts" "moving [] = []"
  by (simp_all add: busy_def held_def moving_def)

text \<open>A step that leaves every call alone.\<close>

lemma tasks_undisturbed:
  assumes "tasks_inv env st ts" "lobby_inv env st'" "transports_ok (set (moving ts)) st'"
    and "undisturbed (set (busy ts)) (set (held ts)) st st'"
  shows "tasks_inv env st' ts"
  using assms task_ok_undisturbed [OF assms(4) tasks_sub(1,2)] by (simp add: tasks_inv_def)

text \<open>One call and the others.\<close>

lemma tasks_apart:
  assumes inv: "tasks_inv env st (us @ t # vs)"
  shows "others_ok env (set (busy (us @ vs))) (set (held (us @ vs))) (set (moving (us @ vs))) st"
    and "transports_ok (set (moving (us @ vs)) \<union> set (task_moving t)) st" "task_ok st t"
    and "set (task_sockets t) \<inter> set (busy (us @ vs)) = {}" "set (task_peers t) \<inter> set (held (us @ vs)) = {}"
      "distinct (task_peers t)"
proof -
  have lob: "lobby_inv env st" and ok: "\<And>t'. t' \<in> set (us @ vs) \<Longrightarrow> task_ok st t'" "task_ok st t"
    using inv by (auto simp: tasks_inv_def)
  have "pr < st_next st \<and> attached st pr \<and> (\<forall>socket. p_socket (st_peers st pr) = Some socket \<longrightarrow> socket \<in> set (busy (us @ vs)))"
    if pr: "pr \<in> set (held (us @ vs))" for pr
  proof -
    obtain t' where t': "t' \<in> set (us @ vs)" "pr \<in> set (task_peers t')" using pr by (auto simp: held_def)
    from task_ok_others [OF lob ok(1) [OF t'(1)] t'(2)] tasks_sub(1) [OF t'(1)] show ?thesis by blast
  qed
  then show "others_ok env (set (busy (us @ vs))) (set (held (us @ vs))) (set (moving (us @ vs))) st"
    using lob tasks_sub(3) [of "us @ vs"] by (simp add: others_ok_def)
  have "set (moving (us @ t # vs)) = set (moving (us @ vs)) \<union> set (task_moving t)" by auto
  with inv show "transports_ok (set (moving (us @ vs)) \<union> set (task_moving t)) st" by (simp add: tasks_inv_def)
  show "task_ok st t" by (rule ok(2))
  show "set (task_sockets t) \<inter> set (busy (us @ vs)) = {}" "set (task_peers t) \<inter> set (held (us @ vs)) = {}"
    "distinct (task_peers t)" using inv by (auto simp: tasks_inv_def)
qed

lemma tasks_step:
  assumes inv: "tasks_inv env st (us @ t # vs)" and fits: "task_fits t st" and step: "task_step env t st = (st', r)"
  shows "tasks_inv env st' (us @ (case r of Inl _ \<Rightarrow> [] | Inr t' \<Rightarrow> [t']) @ vs)"
proof -
  note a = tasks_apart [OF inv]
  note s = task_step_inv [OF a fits step]
  let ?S = "set (busy (us @ vs))" and ?P = "set (held (us @ vs))"
  have adv: "lobby_inv env st'" "undisturbed ?S ?P st st'" "transports_ok (set (moving (us @ vs)) \<union> set (moving_after r)) st'"
    using s(1) by (simp_all add: advanced_to_def)
  have ok: "task_ok st' t'" if "t' \<in> set (us @ vs)" for t'
    by (rule task_ok_undisturbed [OF adv(2) tasks_sub(1,2) [OF that]]) (use inv that in \<open>auto simp: tasks_inv_def\<close>)
  show ?thesis
  proof (cases r)
    case (Inl e)
    with adv(1,3) ok inv show ?thesis by (auto simp: tasks_inv_def)
  next
    case (Inr t')
    with s(2) have c: "task_ok st' t'" "task_sockets t' = task_sockets t" "distinct (task_peers t')"
      "set (task_peers t') \<inter> ?P = {}" by (simp_all add: continues_def)
    have "set (moving (us @ t' # vs)) = set (moving (us @ vs)) \<union> set (moving_after r)" by (auto simp: Inr)
    with adv(1,3) ok inv c show ?thesis by (auto simp: tasks_inv_def Inr)
  qed
qed

text \<open>The objects below the lobby.\<close>

lemma other_step_cases:
  assumes "server_step env OtherAction st st'" and fit: "counters_fit st"
  obtains (connect) socket now roomName nickname where "st' = onAfterCreate now socket roomName nickname st"
      "lb_listeners st socket = None" "um_find (lb_pending st) socket = None"
  | (sound) "sound env st st'"
  using assms(1)
proof cases
  case (connect socket now roomName nickname)
  then show thesis by (rule that(1))
next
  case (peer_frame socket pr now tick frame r)
  have "rm_fileIdCounter (st_rooms st (p_room (st_peers st pr))) + int Limits_filesPerPeer < 2 ^ 63"
    using fit by (simp add: counters_fit_def)
  from that(2) [OF sound_readMessage [OF this peer_frame(2)]] show thesis .
next
  case (transport e pr)
  from sound_transport_step [OF transport(2)] show thesis by (intro that(2)) (simp only: transport(1))
next
  case (sweep now)
  from sound_ping_iteration show thesis by (intro that(2)) (simp only: sweep)
next
  case (subscribe fr s)
  from that(2) [OF sound_subscribe [OF subscribe]] show thesis .
next
  case (read_chunk sub n x)
  from that(2) [OF sound_readChunk [OF read_chunk]] show thesis .
next
  case (end_download sub)
  from sound_destroySubscriber show thesis by (intro that(2)) (simp only: end_download)
next
  case (free_peer pr)
  from sound_alive show thesis by (intro that(2)) (simp only: free_peer(1))
next
  case (free_room rr)
  from sound_emit show thesis by (intro that(2)) (simp only: free_room(1) Room_destroy_def)
qed

lemma other_step_inv:
  assumes step: "server_step env OtherAction st st'" and inv: "lobby_inv env st" and tr: "transports_ok X st"
    and fit: "counters_fit st" and same: "\<forall>socket \<in> S. lb_listeners st' socket = lb_listeners st socket"
  shows "lobby_inv env st' \<and> transports_ok X st' \<and> undisturbed S P st st'"
  using step fit
proof (cases rule: other_step_cases)
  case (connect socket now roomName nickname)
  let ?st1 = "st\<lparr>lb_pending := um_emplace socket \<lparr>pr_socket = socket, pr_deadline = now + seconds 10\<rparr> (lb_pending st)\<rparr>"
  let ?h = "\<lparr>h_roomName = roomName, h_nickname = nickname, h_buffer = [], h_consumed = False\<rparr>"
  have st': "st' = set_pending_hello socket ?h ?st1" by (simp add: connect(1) onAfterCreate_def Let_def)
  have s1: "lobby_inv env ?st1"
    using connect(3) inv
    by (intro pending_inv) (auto simp: lobby_inv_def pending_ok_def um_emplace_fresh um_valid_def um_find_None)
  have l: "\<not> peer_listens ?st1 socket" using connect(2) by (simp add: peer_listens_def)
  have S: "socket \<notin> S" using same connect(2) by (auto simp: st' set_pending_hello_def)
  have tr1: "transports_ok X ?st1" using tr by simp
  have u: "undisturbed S P st ?st1" by (rule undisturbed_same) simp_all
  note p = set_pending_hello_inv [OF l]
  from p(1) [OF s1] p(2) [OF tr1] undisturbed.frame_trans [OF u p(4) [OF S]] show ?thesis
    unfolding st' by (intro conjI)
next
  case sound
  from sound_lobby [OF sound inv] tr show ?thesis by simp
qed

text \<open>A frame that starts no call only touches the hello of its transport.\<close>

lemma idle_frame_cases:
  assumes "hello_starts env h bytes = None"
    and "PendingHello_readMessage env now now2 random socket h bytes st = (st', r)"
  obtains (dropped) "st' = emit [Invalidate socket] st" | (kept) h' where "st' = set_pending_hello socket h' st"
  using assms(2)
proof (cases rule: pending_readMessage_cases)
  case (hello m r0)
  with assms(1) have "hello_accepted m = None" by (simp add: hello_starts_def)
  with hello(4) show thesis by (intro kept [of "h\<lparr>h_consumed := True\<rparr>"]) (simp add: acceptSessionHello_def)
qed (use that in blast)+

lemma pending_not_listens: "lb_listeners st socket = Some (PendingHelloListener h) \<Longrightarrow> \<not> peer_listens st socket"
  by (simp add: peer_listens_def)

lemma lobby_step_inv:
  assumes step: "lobby_step env a st ts st' ts'" and inv: "tasks_inv env st ts"
  shows "tasks_inv env st' ts'"
proof -
  have lob: "lobby_inv env st" and tr: "transports_ok (set (moving ts)) st" using inv by (simp_all add: tasks_inv_def)
  have waiting: "tasks_inv env (set_pending_hello socket h' st) ts"
    if "lb_listeners st socket = Some (PendingHelloListener h)" "socket \<notin> set (busy ts)" for socket h h'
    using set_pending_hello_inv [OF pending_not_listens [OF that(1)]] lob tr that(2)
    by (intro tasks_undisturbed [OF inv]) simp_all
  show ?thesis using step
  proof cases
    case others
    with other_step_inv [OF others(3) lob tr others(4,6)] tasks_undisturbed [OF inv] show ?thesis by simp
  next
    case (frame socket h bytes now now2 random r)
    from frame(5,6) show ?thesis
    proof (cases rule: idle_frame_cases)
      case dropped
      note s = sound_lobby [OF sound_emit lob]
      show ?thesis unfolding frame(2) dropped by (rule tasks_undisturbed [OF inv s(1) s(3) [OF tr] s(4)])
    next
      case (kept h')
      with waiting [OF frame(3,4)] show ?thesis by (simp add: frame(2))
    qed
  next
    case (hello socket h entry now now2 random)
    let ?st' = "set_pending_hello socket (h\<lparr>h_consumed := True\<rparr>) st"
    have "hc_socket (hello_call now now2 random socket h entry) = socket"
      by (simp add: hello_call_def split: prod.split)
    moreover have "\<not> peer_listens ?st' socket"
      by (rule set_pending_hello_inv(3) [OF pending_not_listens [OF hello(4)]])
    ultimately show ?thesis using waiting [OF hello(4,5)] hello(5) by (simp add: hello(2,3) tasks_inv_def)
  next
    case (destroy socket now)
    with inv show ?thesis by (simp add: tasks_inv_def)
  next
    case (expire now)
    with inv show ?thesis by (simp add: tasks_inv_def)
  next
    case (step t t' us vs)
    with tasks_step [OF inv [unfolded step(2)] step(4,5)] show ?thesis by simp
  next
    case (finish t e us vs)
    with tasks_step [OF inv [unfolded finish(2)] finish(4,5)] show ?thesis by simp
  qed
qed

lemma interleaved_inv: "interleaved env st ts \<Longrightarrow> tasks_inv env st ts"
proof (induction rule: interleaved.induct)
  case start
  show ?case using server_inv_new by (simp add: tasks_inv_def server_inv_def)
qed (rule lobby_step_inv)

end
