(* ===== verification/SerialRuns.thy ===== *)
theory SerialRuns
  imports InterleavedRuns
begin

text \<open>
  A call that runs alone from its first point to its end is the whole operation of \<open>Lobby\<close>: the hello, the
  destruction of a transport and the expiry. So the serial runs of \<open>ServerRuns\<close> are among the interleaved ones.
\<close>

section \<open>The room of a peer\<close>

text \<open>A peer stays in its room (\<^verbatim>\<open>Peer::getRoom\<close> is constant).\<close>

lemma quiet_room: "quiet st st' \<Longrightarrow> p_room (st_peers st' pr) = p_room (st_peers st pr)"
  by (simp add: quiet_def identity_iff)

lemma publish_room:
  assumes "Room_publishDurable env rr m ex no_callback st = (st', r)"
  shows "p_room (st_peers st' pr) = p_room (st_peers st pr)"
  using assms by (cases rule: publishDurable_plain) (simp_all add: quiet_room [OF quiet_broadcast])

lemma withdraw_room:
  assumes "Room_withdrawPeerFiles env rr pr st = (st', e)"
  shows "p_room (st_peers st' q) = p_room (st_peers st q)"
proof -
  obtain st1 frs where t: "Room_takeFiles rr pr st = (st1, frs)" by fastforce
  have "p_room (st_peers st1 q) = p_room (st_peers st q)" by (simp add: takeFiles_closed(2) [OF t])
  with assms t show ?thesis
    by (auto simp: Room_withdrawPeerFiles_def Let_def dest!: publish_room [where pr = q] split: prod.splits sum.splits if_splits)
qed

section \<open>A hello alone\<close>

lemma run_hello: "run_task env (HelloTask c p) st =
    (case hello_step env c p st of (st', Inl e) \<Rightarrow> (st', e) | (st', Inr p') \<Rightarrow> run_task env (HelloTask c p') st')"
  by (subst run_task.simps) (simp add: task_step_def map_prod_def split: prod.split sum.split)

text \<open>The points from the last one on.\<close>

lemma run_reply:
  "run_task env (HelloTask c (HelloReissue changed pr)) st =
     (if \<not> changed then Peer_reissueOutstandingFileRequests env pr st else st, Inr (Some pr))"
  "run_task env (HelloTask c (HelloOnline changed pr)) st =
     run_task env (HelloTask c (HelloReissue changed pr)) (Room_publishConnectionState env (p_room (st_peers st pr)) pr True st)"
  "run_task env (HelloTask c (HelloCount resumed changed pr)) st =
     (if \<not> resumed then (emit [Count EVENT_PEER_CONNECTED] st, Inr (Some pr))
      else run_task env (HelloTask c (HelloOnline changed pr)) (emit [Count EVENT_PEER_RESUMED] st))"
  "run_task env (HelloTask c (HelloPeers token resumed changed pr)) st =
     run_task env (HelloTask c (HelloCount resumed changed pr))
       (peer_send env pr (ready_message st pr resumed (hc_cursor c) token) st)"
proof -
  show "run_task env (HelloTask c (HelloReissue changed pr)) st =
     (if \<not> changed then Peer_reissueOutstandingFileRequests env pr st else st, Inr (Some pr))"
    by (subst run_hello) (simp add: hello_step_def)
  show "run_task env (HelloTask c (HelloOnline changed pr)) st =
     run_task env (HelloTask c (HelloReissue changed pr)) (Room_publishConnectionState env (p_room (st_peers st pr)) pr True st)"
    by (subst run_hello) (simp add: hello_step_def)
  show "run_task env (HelloTask c (HelloCount resumed changed pr)) st =
     (if \<not> resumed then (emit [Count EVENT_PEER_CONNECTED] st, Inr (Some pr))
      else run_task env (HelloTask c (HelloOnline changed pr)) (emit [Count EVENT_PEER_RESUMED] st))"
    by (subst run_hello) (simp add: hello_step_def)
  show "run_task env (HelloTask c (HelloPeers token resumed changed pr)) st =
     run_task env (HelloTask c (HelloCount resumed changed pr))
       (peer_send env pr (ready_message st pr resumed (hc_cursor c) token) st)"
    by (subst run_hello, simp add: hello_step_def, subst run_hello, simp add: hello_step_def,
        subst run_hello, simp add: hello_step_def, subst run_hello, simp add: hello_step_def ready_message_def Let_def)
qed

lemma run_listen:
  "run_task env (HelloTask c (HelloListen token resumed pr)) st =
     hello_finish env (hc_socket c) pr resumed (hc_cursor c) (hc_capability c) token st"
proof -
  define st1 where "st1 = hello_listen (hc_socket c) pr st"
  obtain st2 changed where cap: "hello_capability (hc_capability c) pr st1 = (st2, changed)" by fastforce
  obtain st3 e where w: "(if changed then Room_withdrawPeerFiles env (p_room (st_peers st2 pr)) pr st2 else (st2, None)) = (st3, e)"
    by fastforce
  have rr: "p_room (st_peers st3 q) = p_room (st_peers st2 q)" for q
    using w withdraw_room by (auto split: if_splits)
  have "run_task env (HelloTask c (HelloListen token resumed pr)) st =
      (case e of Some e \<Rightarrow> (st3, Inl e) | None \<Rightarrow> run_task env (HelloTask c (HelloPeers token resumed changed pr)) st3)"
    by (subst run_hello, simp add: hello_step_def, fold st1_def, subst run_hello, simp add: hello_step_def cap)
       (use w in \<open>auto simp: run_hello [where p = "HelloWithdraw token resumed pr"] hello_step_def split: option.split\<close>)
  also have "\<dots> = hello_finish env (hc_socket c) pr resumed (hc_cursor c) (hc_capability c) token st"
    using w
    by (cases e) (simp_all add: hello_finish_def st1_def [symmetric] cap Let_def run_reply rr [of pr]
        quiet_room [OF quiet_send] quiet_room [OF quiet_emit])
  finally show ?thesis .
qed

lemma run_lookup:
  "run_task env (HelloTask c (HelloLookup token)) st =
     (case hello_resume env (hc_now c) (hc_now2 c) (hc_socket c) (hc_roomName c) token st of
        (st, None) \<Rightarrow> (st, Inr None)
      | (st, Some pr) \<Rightarrow> hello_finish env (hc_socket c) pr True (hc_cursor c) (hc_capability c) token st)"
proof -
  have "run_task env (HelloTask c (HelloBind token pr)) st =
      hello_finish env (hc_socket c) pr True (hc_cursor c) (hc_capability c) token (hello_bind (hc_now2 c) (hc_socket c) pr st)"
    for pr st by (subst run_hello) (simp add: hello_step_def run_listen)
  then show ?thesis
    by (subst run_hello) (simp add: hello_step_def hello_resume_def split: prod.split option.split)
qed

text \<open>A new session from its room on.\<close>

definition enrol_and_finish :: "Env \<Rightarrow> HelloCall \<Rightarrow> string \<Rightarrow> room_ref \<Rightarrow> Server \<Rightarrow> Server \<times> TaskEnd" where
  "enrol_and_finish env c token rr st =
     (case hello_enrol env (hc_now2 c) (hc_socket c) (hc_nickname c) token rr st of
        (st, Inl e) \<Rightarrow> (st, Inl e)
      | (st, Inr None) \<Rightarrow> (st, Inr None)
      | (st, Inr (Some pr)) \<Rightarrow> hello_finish env (hc_socket c) pr False (hc_cursor c) (hc_capability c) token st)"

lemma run_enter: "run_task env (HelloTask c (HelloEnter token rr)) st = enrol_and_finish env c token rr st"
proof -
  have announced: "run_task env (HelloTask c (HelloWelcome token rr pr)) st =
      (case Room_welcomePeer env rr pr st of
         (st, Some e) \<Rightarrow> (st, Inl e)
       | (st, None) \<Rightarrow> hello_finish env (hc_socket c) pr False (hc_cursor c) (hc_capability c) token st)" for pr st
    by (subst run_hello) (simp add: hello_step_def run_listen split: prod.split option.split)
  show ?thesis
    by (subst run_hello) (simp add: hello_step_def enrol_and_finish_def hello_enrol_def
        run_hello [where p = "HelloFile token rr pr" for pr] announced split: prod.split option.split)
qed

lemma run_room:
  "run_task env (HelloTask c (HelloRoom token)) st =
     (case getOrCreateRoom (hc_roomName c) st of
        (st, None) \<Rightarrow> (st, Inr None)
      | (st, Some rr) \<Rightarrow>
          if \<not> Room_hasPeerCapacity rr st then (st, Inr None) else enrol_and_finish env c token rr st)"
  by (subst run_hello) (simp add: hello_step_def run_enter run_hello [where p = "HelloCapacity token rr" for rr]
      split: prod.split option.split)

lemma hello_alone:
  assumes "hello_accepted hello = Some x" "c = hello_call now now2 random socket h x"
  shows "run_task env (HelloTask c HelloPending) st =
     acceptSessionHello env now now2 random socket (h_roomName h) (h_nickname h) hello st"
proof -
  obtain m cursor capability where x: "x = (m, cursor, capability)" by (cases x) auto
  obtain st1 b where t: "hello_takePending now socket st = (st1, b)" by fastforce
  have c: "hc_socket c = socket" "hc_now c = now" "hc_now2 c = now2" "hc_bytes c = random" "hc_roomName c = h_roomName h"
    "hc_nickname c = h_nickname h" "hc_resume c = mb_resumeToken (msg_body m)" "hc_cursor c = cursor"
    "hc_capability c = capability"
    by (simp_all add: assms(2) hello_call_def x)
  note acc = acceptSessionHello_def [of env now now2 random socket "h_roomName h" "h_nickname h" hello st]
  show ?thesis
  proof (cases b)
    case False
    with t assms(1) show ?thesis by (subst run_hello) (simp add: hello_step_def acc x c)
  next
    case True
    show ?thesis
    proof (cases "mb_resumeToken (msg_body m)")
      case (Some token)
        with True t assms(1) show ?thesis by (subst run_hello) (simp add: hello_step_def acc x c run_lookup split: prod.split option.split)
    next
      case None
      with True t assms(1) show ?thesis
        by (subst run_hello) (auto simp add: hello_step_def acc x c run_room enrol_and_finish_def hello_openRoom_def split: option.split prod.split)
    qed
  qed
qed

section \<open>The destruction of a transport alone\<close>

lemma run_detach: "run_task env (DetachTask now socket p) st =
    (case detach_step env now socket p st of
       (st', Inl e) \<Rightarrow> (st', e) | (st', Inr p') \<Rightarrow> run_task env (DetachTask now socket p') st')"
  by (subst run_task.simps) (simp add: task_step_def map_prod_def split: prod.split sum.split)

lemma destroy_alone:
  "run_task env (DetachTask now socket DetachPending) st = (onBeforeDestroy env now socket st, Inr None)"
proof -
  have offline: "run_task env (DetachTask now socket (DetachCount pr rr)) st =
      (Room_publishConnectionState env rr pr False (emit [Count EVENT_PEER_DISCONNECTED] st), Inr None)" for pr rr st
    by (subst run_detach, simp add: detach_step_def, subst run_detach, simp add: detach_step_def)
  have registry: "run_task env (DetachTask now socket (DetachRegistry pr)) st =
      ((case detach_registry now pr st of
          (st, None) \<Rightarrow> st
        | (st, Some rr) \<Rightarrow> Room_publishConnectionState env rr pr False (emit [Count EVENT_PEER_DISCONNECTED] st)), Inr None)"
    for pr st
    by (subst run_detach) (simp add: detach_step_def offline split: prod.split option.split)
  have "run_task env (DetachTask now socket DetachUnbind) st = (detachSessionTransport env now socket st, Inr None)" for st
    by (subst run_detach) (simp add: detach_step_def detachSessionTransport_def registry split: prod.split option.split)
  then show ?thesis by (subst run_detach) (simp add: detach_step_def onBeforeDestroy_def)
qed

section \<open>An expiry alone\<close>

definition expiry_end :: "exn option \<Rightarrow> TaskEnd" where
  "expiry_end r = (case r of None \<Rightarrow> Inr None | Some e \<Rightarrow> Inl e)"

lemma run_expiry: "run_task env (ExpiryTask now p) st =
    (case expiry_step env now p st of
       (st', Inl e) \<Rightarrow> (st', e) | (st', Inr p') \<Rightarrow> run_task env (ExpiryTask now p') st')"
  by (subst run_task.simps) (simp add: task_step_def map_prod_def split: prod.split sum.split)

lemma remove_alone:
  "run_task env (ExpiryTask now (ExpiryRemove ss)) st = map_prod (\<lambda>st. st) expiry_end (expire_all env ss st)"
proof (induction ss arbitrary: st)
  case Nil
  show ?case by (subst run_expiry) (simp add: expiry_step_def expiry_end_def)
next
  case (Cons s ss)
  have count: "run_task env (ExpiryTask now (ExpiryCount s ss)) st =
      map_prod (\<lambda>st. st) expiry_end (expire_all env ss (deleteRoomIfEmpty (sr_room s) (emit [Count EVENT_SESSION_EXPIRED] st)))" for st
    by (subst run_expiry, simp add: expiry_step_def, subst run_expiry, simp add: expiry_step_def Cons.IH)
  show ?case
    by (subst run_expiry, simp add: expiry_step_def, subst run_expiry)
       (simp add: expiry_step_def expire_session_def Let_def count expiry_end_def split: prod.split option.split)
qed

lemma expiry_alone:
  "run_task env (ExpiryTask now ExpiryCollect) st = map_prod (\<lambda>st. st) expiry_end (expireSessions env now st)"
proof -
  have "run_task env (ExpiryTask now (ExpiryInvalidate sockets ss)) st =
      map_prod (\<lambda>st. st) expiry_end (expire_all env ss (emit (map Invalidate sockets) st))" for sockets ss st
    by (subst run_expiry) (simp add: expiry_step_def remove_alone)
  then show ?thesis by (subst run_expiry) (simp add: expiry_step_def expireSessions_def split: prod.split)
qed

section \<open>Serial runs\<close>

text \<open>A call that runs alone has room in the counters until it needs it no more.\<close>

definition counters_left :: "Server \<Rightarrow> bool" where
  "counters_left st \<longleftrightarrow> lb_peerIdCounter st < 2 ^ 63 - 1 \<and> (\<forall>rr. rm_sequencer (st_rooms st rr) \<noteq> - 1)"

fun hello_left :: "HelloPoint \<Rightarrow> Server \<Rightarrow> bool" where
  "hello_left HelloPending st = counters_left st"
| "hello_left (HelloRoom _) st = counters_left st"
| "hello_left (HelloCapacity _ _) st = counters_left st"
| "hello_left (HelloEnter _ _) st = counters_left st"
| "hello_left (HelloFile _ rr _) st = (rm_sequencer (st_rooms st rr) \<noteq> - 1)"
| "hello_left (HelloWelcome _ rr _) st = (rm_sequencer (st_rooms st rr) \<noteq> - 1)"
| "hello_left _ st = True"

fun task_left :: "LobbyTask \<Rightarrow> Server \<Rightarrow> bool" where
  "task_left (HelloTask _ p) st = hello_left p st"
| "task_left _ st = True"

lemma left_fits: "task_left t st \<Longrightarrow> task_fits t st"
proof (cases t)
  case (HelloTask c p)
  then show "task_left t st \<Longrightarrow> task_fits t st" by (cases p) (simp_all add: counters_left_def)
qed simp_all

lemma enter_sequencer:
  "hello_enter now2 socket nick rr st = (st', r) \<Longrightarrow> rm_sequencer (st_rooms st' q) = rm_sequencer (st_rooms st q)"
  by (auto simp: hello_enter_def obtainNewPeerId_def Room_addPeer_def Let_def split: if_splits)

lemma hello_left_step:
  assumes "hello_left p st" and step: "hello_step env c p st = (st', Inr p')"
  shows "hello_left p' st'"
proof (cases p)
  case HelloPending
  obtain b where t: "hello_takePending (hc_now c) (hc_socket c) st = (st', b)"
    using step by (auto simp: HelloPending hello_step_def Let_def split: prod.splits bool.splits option.splits)
  have "counters_left st'"
    by (cases rule: takePending_cases [OF t]) (use assms(1) in \<open>simp_all add: HelloPending counters_left_def\<close>)
  with step t show ?thesis by (auto simp: HelloPending hello_step_def Let_def split: bool.splits option.splits)
next
  case (HelloRoom token)
  obtain rr where g: "getOrCreateRoom (hc_roomName c) st = (st', Some rr)" "p' = HelloCapacity token rr"
    using step by (auto simp: HelloRoom hello_step_def Let_def split: prod.splits option.splits)
  show ?thesis
    by (cases rule: getOrCreateRoom_cases [OF g(1)])
       (use assms(1) in \<open>simp_all add: g(2) HelloRoom counters_left_def Room_new_def RoomSequencer_new_def\<close>)
next
  case (HelloEnter token rr)
  obtain pr where e: "hello_enter (hc_now2 c) (hc_socket c) (hc_nickname c) rr st = (st', Some pr)" "p' = HelloFile token rr pr"
    using step by (auto simp: HelloEnter hello_step_def Let_def split: prod.splits option.splits)
  with assms(1) enter_sequencer [OF e(1)] show ?thesis by (simp add: HelloEnter counters_left_def)
next
  case (HelloFile token rr pr)
  with step assms(1) show ?thesis by (auto simp: hello_step_def hello_file_def Let_def)
qed (use step assms(1) in \<open>auto simp: hello_step_def Let_def split: prod.splits option.splits if_splits\<close>)

lemma task_left_step:
  assumes "task_left t st" and "task_step env t st = (st', Inr t')"
  shows "task_left t' st'"
  using assms(2)
proof (cases rule: task_step_cases)
  case (hello c p q)
  then obtain p' where "q = Inr p'" "t' = HelloTask c p'" by (auto simp: eq_commute [of "Inr _"] map_sum_eq)
  with hello assms(1) hello_left_step show ?thesis by simp
qed (auto simp: eq_commute [of "Inr _"] map_sum_eq)

lemma interleaved_alone:
  "interleaved env st (t # ts) \<Longrightarrow> task_left t st \<Longrightarrow> interleaved env (fst (run_task env t st)) ts"
proof (induction env t st rule: run_task.induct)
  case (1 env t st)
  obtain st' r where step: "task_step env t st = (st', r)" by fastforce
  note fits = left_fits [OF 1(3)]
  show ?case
  proof (cases r)
    case (Inl e)
    have "lobby_step env (task_action t) st ([] @ t # ts) st' ([] @ ts)" using fits step Inl by (intro lobby_step.finish) simp_all
    with 1(2) have "interleaved env st' ts" using interleaved.continue by fastforce
    with step Inl show ?thesis by (subst run_task.simps) simp
  next
    case (Inr t')
    have "lobby_step env (task_action t) st ([] @ t # ts) st' ([] @ t' # ts)" using fits step Inr by (intro lobby_step.step) simp_all
    with 1(2) have "interleaved env st' (t' # ts)" using interleaved.continue by fastforce
    with 1(1) [OF step [symmetric] Inr this] task_left_step [OF 1(3)] step Inr show ?thesis
      by (subst run_task.simps) simp
  qed
qed

text \<open>A call that starts and ends while the others wait.\<close>

lemma interleaved_call:
  "interleaved env st ts \<Longrightarrow> lobby_step env a st ts st' (t # ts) \<Longrightarrow> task_left t st' \<Longrightarrow>
     run_task env t st' = (st'', e) \<Longrightarrow> interleaved env st'' ts"
  using interleaved_alone [OF interleaved.continue, of env st ts a st' t] by simp

text \<open>The last frame of a hello is the call it starts.\<close>

lemma hello_frame_alone:
  assumes "hello_starts env h frame = Some x"
    and "PendingHello_readMessage env now now2 random socket h frame st = (st', r)"
  shows "frame = []" "\<exists>e. run_task env (HelloTask (hello_call now now2 random socket h x) HelloPending)
      (set_pending_hello socket (h\<lparr>h_consumed := True\<rparr>) st) = (st', e)"
proof -
  show "frame = []" using assms(1) by (simp add: hello_starts_def split: if_splits)
  obtain m where m: "\<not> h_consumed h" "frame = []" "env_readFromString env (h_buffer h) = Inr m" "hello_accepted m = Some x"
    using assms(1) by (auto simp: hello_starts_def split: if_splits sum.splits)
  let ?st1 = "set_pending_hello socket (h\<lparr>h_consumed := True\<rparr>) st"
  obtain st2 e where acc: "acceptSessionHello env now now2 random socket (h_roomName h) (h_nickname h) m ?st1 = (st2, e)"
    by fastforce
  have "st2 = st'"
    using assms(2) m(1-3) acc by (auto simp: PendingHello_readMessage_def Let_def split: sum.splits option.splits if_splits)
  with hello_alone [OF m(4) refl] acc show "\<exists>e. run_task env (HelloTask (hello_call now now2 random socket h x) HelloPending) ?st1 = (st', e)"
    by simp
qed

inductive_cases hello_stepE: "server_step env (SessionHello now room) st st'"
inductive_cases expiry_stepE: "server_step env (SessionExpiry now) st st'"
inductive_cases destroy_stepE: "server_step env (TransportDestroyed now) st st'"

lemma serial_step:
  assumes serial: "interleaved env st []" and fit: "counters_fit st" and step: "server_step env a st st'"
  shows "interleaved env st' []"
proof (cases a)
  case (SessionHello now room)
  from step [unfolded this] show ?thesis
  proof (rule hello_stepE)
    fix socket h now2 bytes frame r
    assume l: "lb_listeners st socket = Some (PendingHelloListener h)"
      and read: "PendingHello_readMessage env now now2 bytes socket h frame st = (st', r)"
    show ?thesis
    proof (cases "hello_starts env h frame")
      case None
      from lobby_step.frame [OF l _ None read, of "[]"] serial interleaved.continue show ?thesis by fastforce
    next
      case (Some x)
      let ?t = "HelloTask (hello_call now now2 bytes socket h x) HelloPending"
      note alone = hello_frame_alone [OF Some read]
      from lobby_step.hello [OF l, of "[]" env x now now2 bytes] Some alone(1)
      have "lobby_step env OtherAction st [] (set_pending_hello socket (h\<lparr>h_consumed := True\<rparr>) st) [?t]" by simp
      moreover have "task_left ?t (set_pending_hello socket (h\<lparr>h_consumed := True\<rparr>) st)"
        using fit by (simp add: counters_left_def counters_fit_def)
      ultimately show ?thesis using alone(2) interleaved_call [OF serial] by blast
    qed
  qed
next
  case (SessionExpiry now)
  from step [unfolded this] show ?thesis
  proof (rule expiry_stepE)
    fix r assume "expireSessions env now st = (st', r)"
    then have "run_task env (ExpiryTask now ExpiryCollect) st = (st', expiry_end r)" by (simp add: expiry_alone)
    from interleaved_call [OF serial lobby_step.expire _ this] show ?thesis by simp
  qed
next
  case (TransportDestroyed now)
  from step [unfolded this] show ?thesis
  proof (rule destroy_stepE)
    fix socket assume "st' = onBeforeDestroy env now socket st"
    then have "run_task env (DetachTask now socket DetachPending) st = (st', Inr None)" by (simp add: destroy_alone)
    from interleaved_call [OF serial lobby_step.destroy _ this] show ?thesis by simp
  qed
next
  case OtherAction
  from lobby_step.others [OF step [unfolded this] fit, of "[]"] serial interleaved.continue show ?thesis by fastforce
qed

end
