(* ===== verification/InterleavedDirectory.thy ===== *)
theory InterleavedDirectory
  imports InterleavedRuns
begin

text \<open>
  The directory of sessions (\<open>ServerRuns\<close>) when calls interleave: of all the steps of a call only one changes
  it, at the lock of the registry, and it does so as the whole call does when it runs alone.
\<close>

section \<open>The names of rooms\<close>

definition names_kept :: "Server \<Rightarrow> Server \<Rightarrow> bool" where
  "names_kept st st' \<longleftrightarrow> st_next st \<le> st_next st'
     \<and> (\<forall>rr < st_next st. Room_getName rr st' = Room_getName rr st)"

interpretation names_kept: frame_relation names_kept
  by unfold_locales (auto simp: names_kept_def)

lemma names_same:
  "st_next st \<le> st_next st' \<Longrightarrow> (\<And>rr. rm_name (st_rooms st' rr) = rm_name (st_rooms st rr)) \<Longrightarrow> names_kept st st'"
  by (simp add: names_kept_def Room_getName_def)

text \<open>What a step does to the names and the directory.\<close>

definition directed :: "ServerAction \<Rightarrow> Server \<Rightarrow> Server \<Rightarrow> bool" where
  "directed a st st' \<longleftrightarrow> names_kept st st' \<and> directory_step a (session_view st) (session_view st')"

lemma directed_sound:
  assumes "sound env st st'" "lobby_inv env st" "\<forall>now. a \<noteq> SessionExpiry now"
  shows "directed a st st'"
proof -
  have "keeps st st'" by (rule sound_lobby(2) [OF assms(1,2)])
  then have "names_kept st st'" by (intro names_same) (simp_all add: keeps_def)
  with sound_view [OF assms(1,2)] assms(3) show ?thesis by (simp add: directed_def directory_step.idle)
qed

lemma directed_same:
  assumes "lb_sessions st' = lb_sessions st" "st_next st \<le> st_next st'" "\<forall>now. a \<noteq> SessionExpiry now"
    and "\<And>rr. rm_name (st_rooms st' rr) = rm_name (st_rooms st rr)"
    and "\<And>k s. (k, s) \<in> set (lb_sessions st) \<Longrightarrow> p_peerId (st_peers st' (sr_peer s)) = p_peerId (st_peers st (sr_peer s))"
  shows "directed a st st'"
proof -
  have "session_view st' = session_view st"
    by (rule view_cong [OF assms(1) _ assms(5)]) (simp add: Room_getName_def assms(4))
  with names_same [OF assms(2,4)] assms(3) show ?thesis by (simp add: directed_def directory_step.idle)
qed

lemma directed_refl: "\<forall>now. a \<noteq> SessionExpiry now \<Longrightarrow> directed a st st"
  by (rule directed_same) simp_all

section \<open>The steps of a hello\<close>

fun hello_room :: "HelloPoint \<Rightarrow> room_ref option" where
  "hello_room (HelloCapacity _ rr) = Some rr"
| "hello_room (HelloEnter _ rr) = Some rr"
| "hello_room (HelloFile _ rr _) = Some rr"
| "hello_room _ = None"

definition named :: "Server \<Rightarrow> HelloCall \<Rightarrow> HelloPoint \<Rightarrow> bool" where
  "named st c p \<longleftrightarrow> (\<forall>rr. hello_room p = Some rr \<longrightarrow> rr < st_next st \<and> Room_getName rr st = hc_roomName c)"

lemma named_kept: "names_kept st st' \<Longrightarrow> named st c p \<Longrightarrow> named st' c p"
  by (auto simp: names_kept_def named_def)

lemma lookup_directed:
  assumes "lobby_inv env st" "hello_lookup env now room token st = (st', r)"
  shows "directed (SessionHello now room) st st'"
proof (cases r)
  case None
  have "st' = st" by (cases rule: lookup_cases [OF assms(2)]) (use None in simp_all)
  then show ?thesis by (simp add: directed_refl)
next
  case (Some pr)
  from lookup_view [OF assms(1) assms(2) [unfolded Some]] obtain k i deadline where
    "now < deadline" "session_view st k = Some (room, i, Some deadline)"
    "session_view st' = (session_view st)(k \<mapsto> (room, i, None))" by blast
  moreover have "names_kept st st'"
    by (cases rule: lookup_cases [OF assms(2)]) (simp_all add: names_kept.frame_refl names_same)
  ultimately show ?thesis by (simp add: directed_def directory_step.resume)
qed

lemma room_directed:
  assumes inv: "lobby_inv env st" and "getOrCreateRoom name st = (st', r)"
  shows "directed (SessionHello now room) st st'"
proof -
  note g = getOrCreateRoom_inv [OF assms]
  have "names_kept st st'"
    using g(3) [of "{}" "{}"] g(8) by (simp add: names_kept_def undisturbed_def Room_getName_def)
  moreover have "session_view st' = session_view st"
    by (rule view_cong [OF g(6)]) (simp_all add: Room_getName_def g(5,8) session_room_below [OF inv])
  ultimately show ?thesis by (simp add: directed_def directory_step.idle)
qed

lemma enter_directed:
  assumes inv: "lobby_inv env st" and "rr < st_next st" "lb_peerIdCounter st < 2 ^ 63 - 1"
    and "hello_enter now2 socket nick rr st = (st', r)"
  shows "directed (SessionHello now room) st st'"
proof -
  note e = enter_inv [OF assms]
  show ?thesis
  proof (rule directed_same [OF e(5)])
    fix k s assume "(k, s) \<in> set (lb_sessions st)"
    from sessionsD(4) [OF inv this] show "p_peerId (st_peers st' (sr_peer s)) = p_peerId (st_peers st (sr_peer s))"
      by (simp add: e(10))
  qed (use e(9) in \<open>simp_all add: e(13)\<close>)
qed

lemma file_directed:
  assumes "Room_getName rr st = room"
  shows "directed (SessionHello now room) st (hello_file env token rr pr st)"
proof -
  have "names_kept st (hello_file env token rr pr st)" by (rule names_same) (simp_all add: hello_file_def Let_def)
  then show ?thesis
    using assms by (simp add: directed_def file_view Let_def directory_step.idle directory_step.enrol)
qed

text \<open>What a step of a hello does, and what it knows of its room afterwards.\<close>

definition hello_directed :: "HelloCall \<Rightarrow> Server \<Rightarrow> Server \<Rightarrow> TaskEnd + HelloPoint \<Rightarrow> bool" where
  "hello_directed c st st' r \<longleftrightarrow> directed (SessionHello (hc_now c) (hc_roomName c)) st st'
     \<and> (\<forall>p'. r = Inr p' \<longrightarrow> named st' c p')"

lemma pending_directed:
  assumes "hello_step env c HelloPending st = (st', r)"
  shows "hello_directed c st st' r"
proof -
  obtain b where t: "hello_takePending (hc_now c) (hc_socket c) st = (st', b)"
    using assms by (auto simp: hello_step_def Let_def split: prod.splits bool.splits option.splits)
  have "directed a st st'" if "\<forall>now. a \<noteq> SessionExpiry now" for a
    by (cases rule: takePending_cases [OF t]; simp add: directed_refl that; rule directed_same; simp add: that)
  with assms t show ?thesis
    by (auto simp: hello_step_def Let_def named_def hello_directed_def split: bool.splits option.splits)
qed

lemma bind_directed:
  assumes "lobby_inv env st" "in_room st pr" "attached st pr" "\<forall>now. a \<noteq> SessionExpiry now"
  shows "directed a st (hello_bind now2 socket pr st)"
proof -
  note b = bind_inv [OF assms(1) singletonI assms(2,3), where ?now2.0 = now2 and socket = socket]
  show ?thesis using b(4) [of "{}" "{}"] assms(4) by (intro directed_same) (simp_all add: b(5) undisturbed_def)
qed

lemma served_directed:
  assumes "lobby_inv env st" "hello_step env c p st = (st', r)" "hello_ok st (hc_socket c) p" "hello_rank p < 9"
  shows "hello_directed c st st' r"
proof -
  note s = served_step [OF assms]
  have "hello_room p' = None" if "hello_rank p' < 9" for p' using that by (cases p') simp_all
  with s(2) directed_sound [OF s(1) assms(1)] show ?thesis by (auto simp: named_def hello_directed_def)
qed

lemma hello_step_directed:
  assumes inv: "lobby_inv env st" and ok: "hello_ok st (hc_socket c) p" and fits: "task_fits (HelloTask c p) st"
    and named: "named st c p" and step: "hello_step env c p st = (st', r)"
  shows "hello_directed c st st' r"
proof (cases "hello_rank p < 9")
  case True
  from served_directed [OF inv step ok True] show ?thesis .
next
  case False
  show ?thesis
  proof (cases p)
    case HelloPending
    with pending_directed step show ?thesis by simp
  next
    case (HelloLookup token)
    with step lookup_directed [OF inv] show ?thesis
      by (auto simp: hello_step_def Let_def named_def hello_directed_def split: prod.splits option.splits)
  next
    case (HelloBind token pr)
    with step ok bind_directed [OF inv] show ?thesis
      by (auto simp: hello_step_def Let_def named_def hello_directed_def)
  next
    case (HelloRoom token)
    obtain q where g: "getOrCreateRoom (hc_roomName c) st = (st', q)"
        "r = (case q of None \<Rightarrow> Inl (Inr None) | Some rr \<Rightarrow> Inr (HelloCapacity token rr))"
      using step by (auto simp: HelloRoom hello_step_def Let_def split: prod.splits option.splits)
    from room_directed [OF inv g(1)] getOrCreateRoom_inv(4) [OF inv g(1)] show ?thesis
      by (cases q) (auto simp: g(2) named_def hello_directed_def)
  next
    case (HelloCapacity token rr)
    with step named show ?thesis
      by (auto simp: hello_step_def Let_def named_def hello_directed_def directed_refl split: if_splits)
  next
    case (HelloEnter token rr)
    obtain q where e: "hello_enter (hc_now2 c) (hc_socket c) (hc_nickname c) rr st = (st', q)"
        "r = (case q of None \<Rightarrow> Inl (Inr None) | Some pr \<Rightarrow> Inr (HelloFile token rr pr))"
      using step by (auto simp: HelloEnter hello_step_def Let_def split: prod.splits option.splits)
    have rr: "rr < st_next st" "lb_peerIdCounter st < 2 ^ 63 - 1" using ok fits by (simp_all add: HelloEnter)
    from enter_directed [OF inv rr e(1)] named named_kept [of st st' c p] show ?thesis
      by (cases q) (auto simp: e(2) HelloEnter named_def directed_def hello_directed_def)
  next
    case (HelloFile token rr pr)
    with file_directed [of rr st "hc_roomName c"] step named show ?thesis
      by (auto simp: hello_step_def Let_def named_def hello_directed_def)
  next
    case (HelloWelcome token rr pr)
    obtain e where w: "Room_welcomePeer env rr pr st = (st', e)"
      using step by (auto simp: HelloWelcome hello_step_def Let_def split: prod.splits option.splits)
    with step directed_sound [OF sound_welcome [OF w] inv] show ?thesis
      by (auto simp: HelloWelcome hello_step_def Let_def named_def hello_directed_def split: option.splits)
  next
    case (HelloListen token resumed pr)
    have "directed (SessionHello now room) st (hello_listen (hc_socket c) pr st)" for now room
      by (rule directed_same) (simp_all add: hello_listen_def)
    with step show ?thesis by (auto simp: HelloListen hello_step_def Let_def named_def hello_directed_def)
  qed (use False in simp_all)
qed

section \<open>The steps of the other calls\<close>

lemma detach_step_directed:
  assumes inv: "lobby_inv env st" and ok: "detach_ok st p"
    and step: "detach_step env now socket p st = (st', r)"
  shows "directed (TransportDestroyed now) st st'"
proof (cases p)
  case DetachPending
  with step show ?thesis by (auto simp: detach_step_def intro: directed_same)
next
  case DetachUnbind
  obtain q where u: "detach_unbind socket st = (st', q)"
    using step by (auto simp: DetachUnbind detach_step_def split: prod.splits option.splits)
  then show ?thesis
  proof (cases rule: unbind_cases)
    case stale
    then show ?thesis by (simp add: directed_refl)
  next
    case (unbound pr p)
    have "Peer_step (env_jsonBytes env) (PeerDetach socket) (st_peers st pr) = (p, [])" by (simp add: unbound(3))
    from identity_step [OF this] show ?thesis by (intro directed_same) (simp_all add: unbound(6) identity_iff)
  qed
next
  case (DetachRegistry pr)
  obtain q where g: "detach_registry now pr st = (st', q)"
    using step by (auto simp: DetachRegistry detach_step_def split: prod.splits option.splits)
  have "attached st pr" using ok by (simp add: DetachRegistry)
  from registry_view [OF inv g this] have "directory_step (TransportDestroyed now) (session_view st) (session_view st')"
    by (auto intro: directory_step.idle directory_step.detach)
  moreover have "names_kept st st'" by (rule names_same) (simp_all add: registry_map(1) [OF inv g])
  ultimately show ?thesis by (simp add: directed_def)
next
  case (DetachCount pr rr)
  with step directed_sound [OF sound_emit inv] show ?thesis by (auto simp: detach_step_def)
next
  case (DetachOffline pr rr)
  with step directed_sound [OF sound_connection_state inv] show ?thesis by (auto simp: detach_step_def)
qed

text \<open>The collection of what is over is the expiry of the directory.\<close>

lemma collect_directed:
  assumes inv: "lobby_inv env st" and col: "expire_collect now st = (st', sockets, ss)"
  shows "directed (SessionExpiry now) st st'"
proof -
  have st': "lb_sessions st' = filter (\<lambda>e. \<not> lease_over now e) (lb_sessions st)" "st_rooms st' = st_rooms st"
    "st_peers st' = st_peers st" "st_next st' = st_next st"
    using col by (auto simp: expire_collect_def Let_def)
  have valid: "um_valid (lb_sessions st)" using inv by (simp add: lobby_inv_def sessions_ok_def)
  have "session_view st' k = (case session_view st k of
       Some (room, i, lease) \<Rightarrow> if SessionLease_expires now lease then None else session_view st k
     | None \<Rightarrow> None)" for k
    by (rule expired_view [OF valid]) (simp_all add: st')
  moreover have "names_kept st st'" by (rule names_same) (simp_all add: st')
  ultimately show ?thesis by (simp add: directed_def directory_expiry)
qed

lemma expiry_step_directed:
  assumes inv: "lobby_inv env st" and ok: "\<forall>s \<in> set (expiry_sessions p). leaving st s"
    and step: "expiry_step env now p st = (st', r)"
  shows "directed (task_action (ExpiryTask now p)) st st'"
proof (cases p)
  case ExpiryCollect
  with step collect_directed [OF inv] show ?thesis by (auto simp: expiry_step_def split: prod.splits)
next
  case (ExpiryInvalidate sockets ss)
  with step directed_sound [OF sound_emit inv] show ?thesis by (auto simp: expiry_step_def)
next
  case (ExpiryRemove ss)
  show ?thesis
  proof (cases ss)
    case Nil
    with step show ?thesis by (auto simp: ExpiryRemove expiry_step_def directed_refl)
  next
    case (Cons s ss')
    have s: "session_member st s" "\<forall>t \<in> sessions_of st. sr_peer t \<noteq> sr_peer s"
      using ok by (simp_all add: ExpiryRemove Cons leaving_def)
    have st': "st' = Room_removePeerById (sr_room s) (p_peerId (st_peers st (sr_peer s))) st"
      using step by (auto simp: ExpiryRemove Cons expiry_step_def)
    note rem = remove_inv [OF inv s st']
    have "directed OtherAction st st'"
      using lobby_fields(2) [OF rem(5)] rem(3) [of "{}" "{}"]
      by (intro directed_same) (simp_all add: rem(7,8) undisturbed_def)
    then show ?thesis by (simp add: ExpiryRemove)
  qed
next
  case (ExpiryGoodbye s ss)
  with step show ?thesis
    by (auto simp: expiry_step_def split: prod.splits option.splits dest!: sound_goodbye intro: directed_sound [OF _ inv])
next
  case (ExpiryCount s ss)
  with step directed_sound [OF sound_emit inv] show ?thesis by (auto simp: expiry_step_def)
next
  case (ExpiryDelete s ss)
  with step show ?thesis by (auto simp: expiry_step_def intro: directed_same)
qed

section \<open>Runs\<close>

definition tasks_named :: "Server \<Rightarrow> LobbyTask list \<Rightarrow> bool" where
  "tasks_named st ts \<longleftrightarrow> (\<forall>c p. HelloTask c p \<in> set ts \<longrightarrow> named st c p)"

lemma task_step_directed:
  assumes inv: "tasks_inv env st (us @ t # vs)" and named: "tasks_named st (us @ t # vs)"
    and fits: "task_fits t st" and step: "task_step env t st = (st', r)"
  shows "directed (task_action t) st st'" "tasks_named st' (us @ (case r of Inl _ \<Rightarrow> [] | Inr t' \<Rightarrow> [t']) @ vs)"
proof -
  have lob: "lobby_inv env st" and ok: "task_ok st t" using inv by (auto simp: tasks_inv_def)
  have "directed (task_action t) st st' \<and> (\<forall>c p. r = Inr (HelloTask c p) \<longrightarrow> named st' c p)"
    using step
  proof (cases rule: task_step_cases)
    case (hello c p q)
    have n: "named st c p" and o: "hello_ok st (hc_socket c) p" using named ok by (simp_all add: tasks_named_def hello(1))
    from hello_step_directed [OF lob o fits [unfolded hello(1)] n hello(2)] show ?thesis
      by (cases q) (auto simp: hello(1,3) hello_directed_def)
  next
    case (detach now socket p q)
    with detach_step_directed [OF lob _ detach(2)] ok show ?thesis by (cases q) auto
  next
    case (expiry now p q)
    with expiry_step_directed [OF lob _ expiry(2)] ok show ?thesis by (cases q) auto
  qed
  then show "directed (task_action t) st st'" "tasks_named st' (us @ (case r of Inl _ \<Rightarrow> [] | Inr t' \<Rightarrow> [t']) @ vs)"
    using named named_kept [of st st'] by (auto simp: tasks_named_def directed_def split: sum.splits)
qed

lemma lobby_step_named:
  assumes step: "lobby_step env a st ts st' ts'" and inv: "tasks_inv env st ts" and named: "tasks_named st ts"
  shows "directed a st st'" "tasks_named st' ts'"
proof -
  have lob: "lobby_inv env st" using inv by (simp add: tasks_inv_def)
  have pend: "directed OtherAction st (set_pending_hello socket h st)" for socket h
    by (rule directed_same) (simp_all add: set_pending_hello_def)
  have keep: "tasks_named st' ts" if "directed a st st'"
    using that named named_kept [of st st'] by (simp add: tasks_named_def directed_def)
  have "directed a st st' \<and> tasks_named st' ts'"
    using step
  proof cases
    case others
    have "directed OtherAction st st'"
    proof (rule other_step_cases [OF others(3,4)])
      fix socket now roomName nickname
      assume "st' = onAfterCreate now socket roomName nickname st"
      then show "directed OtherAction st st'"
        by (auto simp: onAfterCreate_def Let_def set_pending_hello_def intro: directed_same)
    next
      assume "sound env st st'"
      from directed_sound [OF this lob] show "directed OtherAction st st'" by simp
    qed
    with keep others(1,2) show ?thesis by simp
  next
    case (frame socket h bytes now now2 random r)
    from frame(5,6) have "directed a st st'"
    proof (cases rule: idle_frame_cases)
      case dropped
      with directed_sound [OF sound_emit lob] show ?thesis by (simp add: frame(1))
    next
      case (kept h')
      with pend show ?thesis by (simp add: frame(1))
    qed
    with keep frame(2) show ?thesis by simp
  next
    case (hello socket h entry now now2 random)
    with keep pend show ?thesis by (auto simp: tasks_named_def named_def)
  next
    case (step t t' us vs)
    with task_step_directed [OF inv [unfolded step(2)] named [unfolded step(2)] step(4,5)] show ?thesis by simp
  next
    case (finish t e us vs)
    with task_step_directed [OF inv [unfolded finish(2)] named [unfolded finish(2)] finish(4,5)] show ?thesis by simp
  qed (use named in \<open>auto simp: tasks_named_def named_def directed_refl\<close>)
  then show "directed a st st'" "tasks_named st' ts'" by simp_all
qed

lemma interleaved_named: "interleaved env st ts \<Longrightarrow> tasks_named st ts"
proof (induction rule: interleaved.induct)
  case start
  show ?case by (simp add: tasks_named_def)
next
  case (continue st ts a st' ts')
  from lobby_step_named(2) [OF continue(2) interleaved_inv [OF continue(1)] continue(3)] show ?case .
qed

end
