(* ===== verification/InterleavedProps.thy ===== *)
theory InterleavedProps
  imports SerialRuns InterleavedDirectory LobbyProps
begin

text \<open>
  The properties of the lobby when its calls interleave: what survives (the directory of sessions, the
  consistency of a session outside a handover, the bounds), and two races, each a concrete run.
\<close>

section \<open>What survives\<close>

text \<open>C2: the directory of sessions does not depend on how calls interleave. Whatever hellos,
  destructions of transports and expiries are under way, each single step of any of them does to the directory
  at most what the whole call may do when it runs alone, and the steps of all else leave it alone: a
  session is resumed by one hello only, before its deadline and in its own room; the loss of a transport starts
  the grace period of a connected session; the collection of an expiry drops exactly what is over.\<close>

theorem interleaved_directory_refined:
  assumes "interleaved env st ts" and "lobby_step env action st ts st' ts'"
  shows "directory_step action (session_view st) (session_view st')
    \<and> (\<forall>k room i lease. session_view st k = Some (room, i, lease) \<longrightarrow>
         session_view st' k = None \<and> lease \<noteq> None \<or> (\<exists>lease'. session_view st' k = Some (room, i, lease')))"
proof -
  have "directed action st st'"
    by (rule lobby_step_named(1) [OF assms(2) interleaved_inv [OF assms(1)] interleaved_named [OF assms(1)]])
  then have "directory_step action (session_view st) (session_view st')" by (simp add: directed_def)
  with directory_identity [OF this] show ?thesis by blast
qed

text \<open>C4: sessions stay consistent while calls interleave. At every moment each session is filed under the digest
  of its token, its peer is the member of its room with its id, and no peer is held by two calls;
  unless a call is in the middle of handing its transport over or taking it away, the lease runs
  exactly while the peer has no transport, and a transport has its peer as its listener.\<close>

theorem interleaved_session_consistent:
  assumes "interleaved env st ts" and "(k, s) \<in> set (lb_sessions st)"
  shows "k = digestKey (sr_digest s)
    \<and> Room_getPeerById (sr_room s) (p_peerId (st_peers st (sr_peer s))) st = Some (sr_peer s)
    \<and> distinct (held ts) \<and> distinct (busy ts)
    \<and> (sr_peer s \<in> set (moving ts)
       \<or> (SessionLease_disconnected (sr_lease s) \<longleftrightarrow> p_socket (st_peers st (sr_peer s)) = None)
         \<and> (\<forall>socket. p_socket (st_peers st (sr_peer s)) = Some socket \<longrightarrow>
              lb_listeners st socket = Some (PeerListener (sr_peer s))))"
proof -
  have inv: "tasks_inv env st ts" by (rule interleaved_inv [OF assms(1)])
  then have lob: "lobby_inv env st" by (simp add: tasks_inv_def)
  have "s \<in> sessions_of st" using assms(2) by (force simp: sessions_of_def)
  then have "sr_peer s \<in> set (moving ts) \<or> transport_ok st s" using inv by (auto simp: tasks_inv_def transports_ok_def)
  with sessionsD(1,2) [OF lob assms(2)] inv show ?thesis
    by (auto simp: tasks_inv_def session_member_def Room_getPeerById_def findById_def transport_ok_def split: option.splits)
qed

text \<open>C14: the server's registries and buffers are bounded whatever calls are under way: at most 256
  rooms, 64 members in a room, the configured number of messages in a history, and 256 frames and
  2 MiB in the outbound queue of any peer, with exactly one drain coroutine while the queue is used.\<close>

theorem interleaved_bounded:
  assumes "interleaved env st ts"
  shows "length (lb_rooms st) \<le> 256 \<and> length (rm_peerById (st_rooms st rr)) \<le> 64
    \<and> length (rm_history (st_rooms st rr)) \<le> history_limit env
    \<and> length (p_outboundFrames (st_peers st pr)) \<le> 256
    \<and> frames_size (env_jsonBytes env) (p_outboundFrames (st_peers st pr)) \<le> 2 * 1024 * 1024
    \<and> length (p_drains (st_peers st pr)) = (if p_outboundDrainActive (st_peers st pr) then 1 else 0)"
proof -
  have inv: "lobby_inv env st" using interleaved_inv [OF assms] by (simp add: tasks_inv_def)
  then have heap: "heap_inv env st" and rooms: "rooms_ok st" by (simp_all add: lobby_inv_def)
  note h = heap_invD(2) [OF heap, of rr] heap_invD(3) [OF heap, of rr] heap_invD(4) [OF heap, of pr]
  have q: "bytes_ok (env_jsonBytes env) (st_peers st pr)" "drain_ok (st_peers st pr)"
    using h(3) by (simp_all add: peer_inv_def)
  have "unat maxOutboundBytes = 2 * 1024 * 1024" by (simp add: maxOutboundBytes_def)
  with rooms h(1,2) q show ?thesis
    by (simp add: rooms_ok_def members_ok_def history_ok_def bytes_ok_def drain_ok_def
        Limits_rooms_def Limits_peersPerRoom_def maxOutboundFrames_def)
qed

text \<open>Serial runs are interleaved runs.\<close>

lemma reachable_interleaved: "reachable env st \<Longrightarrow> interleaved env st []"
proof (induction rule: reachable.induct)
  case start
  show ?case by (rule interleaved.start)
next
  case (step st a st')
  from serial_step [OF step(4) step(2,3)] show ?case .
qed



section \<open>Races\<close>

text \<open>The session of \<open>demo_joined\<close>, the peer \<open>1\<close> of the socket \<open>5\<close>: a new transport of its client, the
  socket \<open>6\<close>, has sent the frame of its hello but not yet its end.\<close>

definition race_back :: Server where
  "race_back = fst (PendingHello_readMessage demo_lobby_env 2 2 None 6 demo_pending ''resume''
     (onAfterCreate 2 6 ''r'' ''n'' demo_joined))"

lemma race_connect:
  assumes "reachable env st" "counters_fit st" "lb_listeners st socket = None" "um_find (lb_pending st) socket = None"
  shows "reachable env (onAfterCreate now socket roomName nick st)"
  by (rule reachable.step [OF assms(1,2) server_step.connect [OF assms(3,4)]])

lemma race_frame:
  assumes "reachable env st" "counters_fit st" "lb_listeners st socket = Some (PendingHelloListener h)"
  shows "reachable env (fst (PendingHello_readMessage env now now2 random socket h frame st))"
  by (rule reachable.step [OF assms(1,2) server_step.hello_frame [OF assms(3) surjective_pairing]])

lemma reachable_back: "reachable demo_lobby_env race_back"
proof -
  have "lb_listeners demo_joined 6 = None" "um_find (lb_pending demo_joined) 6 = None" by code_simp+
  moreover have "lb_listeners (onAfterCreate 2 6 ''r'' ''n'' st) 6 = Some (PendingHelloListener demo_pending)" for st
    by (simp add: onAfterCreate_def set_pending_hello_def demo_pending_def Let_def)
  ultimately show ?thesis
    unfolding race_back_def
    by (intro race_frame race_connect reachable_joined) (simp_all add: counters_fit_demo counters_fit_connect)
qed

text \<open>The old transport is being destroyed, but its loss has not been announced yet.\<close>

definition race_lost :: Server where
  "race_lost = emit [Count EVENT_PEER_DISCONNECTED] (fst (detach_registry 3 1 (fst (detach_unbind 5
     (race_back\<lparr>lb_pending := um_erase 5 (lb_pending race_back)\<rparr>)))))"

lemma interleaved_lost: "interleaved demo_lobby_env race_lost [DetachTask 3 5 (DetachOffline 1 0)]"
proof -
  let ?t = "DetachTask 3 5"
  let ?s1 = "race_back\<lparr>lb_pending := um_erase 5 (lb_pending race_back)\<rparr>"
  have step: "interleaved demo_lobby_env st' [?t p']" if "interleaved demo_lobby_env st [?t p]" "detach_step demo_lobby_env 3 5 p st = (st', Inr p')"
    for st st' p p'
  proof -
    have "lobby_step demo_lobby_env (TransportDestroyed 3) st ([] @ ?t p # []) st' ([] @ ?t p' # [])"
      using that(2) lobby_step.step [of "?t p" st demo_lobby_env st' "?t p'" "[]" "[]"] by (simp add: task_step_def)
    with that(1) show ?thesis using interleaved.continue by fastforce
  qed
  have "snd (detach_unbind 5 ?s1) = Some 1" by code_simp
  then obtain s2 where u: "detach_unbind 5 ?s1 = (s2, Some 1)" by (metis prod.collapse)
  have "snd (detach_registry 3 1 (fst (detach_unbind 5 ?s1))) = Some 0" by code_simp
  then obtain s3 where r: "detach_registry 3 1 s2 = (s3, Some 0)" unfolding u fst_conv by (metis prod.collapse)
  have "interleaved demo_lobby_env race_back [?t DetachPending]"
    using interleaved.continue [OF reachable_interleaved [OF reachable_back] lobby_step.destroy] by simp
  then have "interleaved demo_lobby_env ?s1 [?t DetachUnbind]" by (rule step) (simp add: detach_step_def)
  then have "interleaved demo_lobby_env s2 [?t (DetachRegistry 1)]"
    by (rule step) (simp only: detach_step_def DetachPoint.case u prod.case option.case)
  then have "interleaved demo_lobby_env s3 [?t (DetachCount 1 0)]"
    by (rule step) (simp only: detach_step_def DetachPoint.case r prod.case option.case)
  then have "interleaved demo_lobby_env (emit [Count EVENT_PEER_DISCONNECTED] s3) [?t (DetachOffline 1 0)]"
    by (rule step) (simp add: detach_step_def)
  then show ?thesis by (simp only: race_lost_def u r fst_conv)
qed

text \<open>The session is resumed on the new transport in the meantime.\<close>

definition race_buffered :: PendingHello where
  "race_buffered = demo_pending\<lparr>h_buffer := ''resume''\<rparr>"

definition race_resumed :: Server where
  "race_resumed = fst (acceptSessionHello demo_lobby_env 4 4 None 6 ''r'' ''n'' (Some (demo_hello (Some demo_token)))
     (set_pending_hello 6 (race_buffered\<lparr>h_consumed := True\<rparr>) race_lost))"

definition race_end :: Server where
  "race_end = Room_publishConnectionState demo_lobby_env 0 1 False race_resumed"

lemma interleaved_resumed: "interleaved demo_lobby_env race_resumed [DetachTask 3 5 (DetachOffline 1 0)]"
proof -
  let ?ts = "[DetachTask 3 5 (DetachOffline 1 0)]"
  let ?x = "(demo_hello (Some demo_token), 0, replicate 22 CHR ''A'')"
  let ?st = "set_pending_hello 6 (race_buffered\<lparr>h_consumed := True\<rparr>) race_lost"
  let ?t = "HelloTask (hello_call 4 4 None 6 race_buffered ?x) HelloPending"
  have l: "lb_listeners race_lost 6 = Some (PendingHelloListener race_buffered)" by code_simp
  have "hello_starts demo_lobby_env race_buffered [] = Some ?x" by code_simp
  from lobby_step.hello [OF l _ this, of ?ts 4 4 None]
  have step: "lobby_step demo_lobby_env OtherAction race_lost ?ts ?st (?t # ?ts)" by simp
  have "rm_sequencer (st_rooms race_lost rr) = (if rr = 0 then 1 else 0)" for rr by (code_simp, cases "rr = 0"; simp)
  moreover have "lb_peerIdCounter race_lost = 2" by code_simp
  ultimately have left: "task_left ?t ?st" by (simp add: counters_left_def)
  have "hello_accepted (Some (demo_hello (Some demo_token))) = Some ?x" by code_simp
  from hello_alone [OF this refl, of demo_lobby_env 4 4 None 6 race_buffered ?st]
  have "fst (run_task demo_lobby_env ?t ?st) = race_resumed" by (simp add: race_resumed_def race_buffered_def demo_pending_def)
  with interleaved_call [OF interleaved_lost step left surjective_pairing] show ?thesis by simp
qed

lemma race_last_step:
  "lobby_step demo_lobby_env (TransportDestroyed 3) race_resumed [DetachTask 3 5 (DetachOffline 1 0)] race_end []"
  using lobby_step.finish [of "DetachTask 3 5 (DetachOffline 1 0)" race_resumed demo_lobby_env race_end "Inr None" "[]" "[]"]
  by (simp add: task_step_def detach_step_def race_end_def)

lemma interleaved_end: "interleaved demo_lobby_env race_end []"
  by (rule interleaved.continue [OF interleaved_resumed race_last_step])

text \<open>What the queue of a member holds about the connection of another one.\<close>

definition announced :: "peer_ref \<Rightarrow> int \<Rightarrow> Server \<Rightarrow> bool option list" where
  "announced pr i st = map mb_connected (filter (\<lambda>b. mb_code b = Some CODE_PEER_CONNECTION_STATE \<and> mb_peerId b = Some i)
     (map (msg_body \<circ> of_payload) (p_outboundFrames (st_peers st pr))))"

definition race_view ::
  "Server \<Rightarrow> bool option list \<times> (peer_ref \<times> room_ref \<times> SessionLease) list \<times> socket_ref option \<times> Listener option \<times> peer_ref list \<times> int" where
  "race_view st = (announced 1 1 st, map (\<lambda>(k, s). (sr_peer s, sr_room s, sr_lease s)) (lb_sessions st),
     p_socket (st_peers st 1), lb_listeners st 6, room_peers 0 st, p_peerId (st_peers st 1))"

lemma race_ended: "race_view race_end = ([Some True, Some False], [(1, 0, None)], Some 6, Some (PeerListener 1), [1], 1)"
  by code_simp

text \<open>C39: an announcement can be late. The destruction of a transport first unbinds the peer and starts the
  lease, and announces the loss only afterwards, without the lock (\<^verbatim>\<open>Lobby.cpp\<close> 211-223). When the client resumes
  in between, every member of the room is told that it is connected and then that it is not, although its
  session is connected and its transport alive, and nothing corrects this.\<close>

theorem late_offline_announcement:
  "\<exists>env st s socket. interleaved env st [] \<and> s \<in> sessions_of st
     \<and> \<not> SessionLease_disconnected (sr_lease s)
     \<and> p_socket (st_peers st (sr_peer s)) = Some socket \<and> lb_listeners st socket = Some (PeerListener (sr_peer s))
     \<and> room_peers (sr_room s) st \<noteq> []
     \<and> list_all (\<lambda>member. announced member (p_peerId (st_peers st (sr_peer s))) st = [Some True, Some False])
          (room_peers (sr_room s) st)"
proof -
  note v = race_ended [unfolded race_view_def prod.inject]
  from v obtain k s where "lb_sessions race_end = [(k, s)]" "sr_peer s = 1" "sr_room s = 0" "sr_lease s = None"
    by (auto simp del: One_nat_def)
  with v interleaved_end show ?thesis
    by (intro exI [of _ demo_lobby_env] exI [of _ race_end] exI [of _ s] exI [of _ 6])
       (simp add: sessions_of_def SessionLease_disconnected_def del: One_nat_def)
qed

text \<open>A new client of a room whose only session is about to expire.\<close>

definition orphan_waiting :: Server where
  "orphan_waiting = onAfterCreate (1 + gracePeriod) 6 ''r'' ''n'' demo_detached"

definition orphan_call :: HelloCall where
  "orphan_call = hello_call (1 + gracePeriod) (2 + gracePeriod) demo_bytes 6 demo_pending
     (demo_hello None, 0, replicate 22 CHR ''A'')"

definition orphan_taken :: Server where
  "orphan_taken = fst (hello_takePending (1 + gracePeriod) 6
     (set_pending_hello 6 (demo_pending\<lparr>h_consumed := True\<rparr>) orphan_waiting))"

definition orphan_expired :: Server where
  "orphan_expired = fst (expireSessions demo_lobby_env (2 + gracePeriod) orphan_taken)"

definition orphan_end :: Server where
  "orphan_end = fst (enrol_and_finish demo_lobby_env orphan_call demo_token 0 orphan_expired)"

lemma orphan_call_sel:
  "hc_socket orphan_call = 6" "hc_now orphan_call = 1 + gracePeriod" "hc_roomName orphan_call = ''r''"
  "hc_bytes orphan_call = demo_bytes" "hc_resume orphan_call = None"
  by (simp_all add: orphan_call_def hello_call_def demo_pending_def demo_hello_def message_def MessageBody_empty_def)

lemma interleaved_entering: "interleaved demo_lobby_env orphan_taken [HelloTask orphan_call (HelloEnter demo_token 0)]"
proof -
  let ?t = "HelloTask orphan_call"
  let ?s0 = "set_pending_hello 6 (demo_pending\<lparr>h_consumed := True\<rparr>) orphan_waiting"
  have step: "interleaved demo_lobby_env st' [?t p']"
    if "interleaved demo_lobby_env st [?t p]" "task_fits (?t p) st" "hello_step demo_lobby_env orphan_call p st = (st', Inr p')"
    for st st' p p'
  proof -
    have "lobby_step demo_lobby_env (task_action (?t p)) st ([] @ ?t p # []) st' ([] @ ?t p' # [])"
      using that(2,3) by (intro lobby_step.step) (simp_all add: task_step_def)
    with that(1) show ?thesis using interleaved.continue by fastforce
  qed
  have "lb_listeners demo_detached 6 = None" "um_find (lb_pending demo_detached) 6 = None" by code_simp+
  then have "reachable demo_lobby_env orphan_waiting"
    unfolding orphan_waiting_def by (rule race_connect [OF reachable_detached counters_fit_demo(2)])
  moreover have "lb_listeners orphan_waiting 6 = Some (PendingHelloListener demo_pending)"
    by (simp add: orphan_waiting_def onAfterCreate_def set_pending_hello_def demo_pending_def Let_def)
  moreover have "hello_starts demo_lobby_env demo_pending [] = Some (demo_hello None, 0, replicate 22 CHR ''A'')" by code_simp
  ultimately have "interleaved demo_lobby_env ?s0 [?t HelloPending]"
    unfolding orphan_call_def
    by (intro interleaved.continue [OF reachable_interleaved lobby_step.hello]) simp_all
  note s0 = this
  have "snd (hello_takePending (1 + gracePeriod) 6 ?s0) = True" "makeResumeToken demo_bytes = Some demo_token" by code_simp+
  moreover from this(1) have "hello_takePending (1 + gracePeriod) 6 ?s0 = (orphan_taken, True)"
    unfolding orphan_taken_def by (metis prod.collapse)
  ultimately have "hello_step demo_lobby_env orphan_call HelloPending ?s0 = (orphan_taken, Inr (HelloRoom demo_token))"
    by (simp add: hello_step_def orphan_call_sel)
  note s1 = step [OF s0 _ this, simplified]
  have "um_find (lb_rooms orphan_taken) ''r'' = Some 0" by code_simp
  then have "hello_step demo_lobby_env orphan_call (HelloRoom demo_token) orphan_taken = (orphan_taken, Inr (HelloCapacity demo_token 0))"
    by (simp add: hello_step_def orphan_call_sel getOrCreateRoom_def)
  note s2 = step [OF s1 _ this, simplified]
  have "Room_hasPeerCapacity 0 orphan_taken" by code_simp
  then have "hello_step demo_lobby_env orphan_call (HelloCapacity demo_token 0) orphan_taken = (orphan_taken, Inr (HelloEnter demo_token 0))"
    by (simp add: hello_step_def)
  from step [OF s2 _ this] show ?thesis by simp
qed

lemma interleaved_orphan: "interleaved demo_lobby_env orphan_end []"
proof -
  let ?t = "HelloTask orphan_call (HelloEnter demo_token 0)"
  have "lobby_step demo_lobby_env OtherAction orphan_taken [?t] orphan_taken [ExpiryTask (2 + gracePeriod) ExpiryCollect, ?t]"
    by (rule lobby_step.expire)
  moreover have "run_task demo_lobby_env (ExpiryTask (2 + gracePeriod) ExpiryCollect) orphan_taken
      = (orphan_expired, expiry_end (snd (expireSessions demo_lobby_env (2 + gracePeriod) orphan_taken)))"
    by (simp add: expiry_alone orphan_expired_def map_prod_def split: prod.split)
  ultimately have "interleaved demo_lobby_env orphan_expired [?t]"
    by (intro interleaved_call [OF interleaved_entering]) simp_all
  moreover have "rm_sequencer (st_rooms orphan_expired rr) = (if rr = 0 then 2 else 0)" for rr by (code_simp, cases "rr = 0"; simp)
  moreover have "lb_peerIdCounter orphan_expired = 2" by code_simp
  ultimately show ?thesis
    using interleaved_alone [of demo_lobby_env orphan_expired ?t "[]"]
    by (simp add: counters_left_def run_enter orphan_end_def)
qed

text \<open>C38: the steps of a hello are not atomic with the expiry, and one interleaving orphans a session. Between
  finding the room and enrolling in it (\<^verbatim>\<open>Lobby.cpp\<close> 171-174) the maintenance thread can expire the
  last member and delete the room (121-125, 226-250): when both calls have returned, the new connected session
  lives in a room that is not registered, and the next client of the same room name gets a different room.\<close>

theorem orphan_room_race:
  "\<exists>env st s. interleaved env st [] \<and> s \<in> sessions_of st \<and> \<not> SessionLease_disconnected (sr_lease s)
     \<and> getRoom (Room_getName (sr_room s) st) st = None
     \<and> (\<exists>rr'. snd (getOrCreateRoom (Room_getName (sr_room s) st) st) = Some rr' \<and> rr' \<noteq> sr_room s)"
proof -
  have "lb_sessions orphan_end = [(''D'', \<lparr>sr_room = 0, sr_peer = 2, sr_digest = ''D'', sr_lease = None\<rparr>)]"
    "getRoom (Room_getName 0 orphan_end) orphan_end = None"
    "snd (getOrCreateRoom (Room_getName 0 orphan_end) orphan_end) = Some 3"
    by code_simp+
  with interleaved_orphan show ?thesis
    by (intro exI [of _ demo_lobby_env] exI [of _ orphan_end]) (simp add: sessions_of_def SessionLease_disconnected_def)
qed

section \<open>Witnesses\<close>

text \<open>A transport is lost while its session is resumed; a hello is under way while its room's last session is
  about to expire.\<close>

theorem interleaved_directory_refined_witness:
  "directory_step (TransportDestroyed 3) (session_view race_resumed) (session_view race_end)"
  using interleaved_directory_refined [OF interleaved_resumed race_last_step] by blast

theorem interleaved_session_consistent_witness:
  "p_socket (st_peers orphan_taken 1) = None
   \<and> Room_getPeerById 0 (p_peerId (st_peers orphan_taken 1)) orphan_taken = Some 1"
proof -
  have "lb_sessions orphan_taken = [(''D'', \<lparr>sr_room = 0, sr_peer = 1, sr_digest = ''D'', sr_lease = Some (2 + gracePeriod)\<rparr>)]"
    by code_simp
  with interleaved_session_consistent [OF interleaved_entering, of "''D''"
      "\<lparr>sr_room = 0, sr_peer = 1, sr_digest = ''D'', sr_lease = Some (2 + gracePeriod)\<rparr>"]
  show ?thesis by (simp add: SessionLease_disconnected_def del: One_nat_def)
qed

theorem interleaved_bounded_witness:
  "length (lb_rooms orphan_taken) \<le> 256 \<and> length (rm_history (st_rooms orphan_taken 0)) \<le> 2"
proof -
  have "history_limit demo_lobby_env = 2" by code_simp
  with interleaved_bounded [OF interleaved_entering, of 0 0] show ?thesis by simp
qed

end
