(* ===== verification/Config.thy ===== *)
theory Config
  imports Boundaries TorText
begin

text \<open>
  The configuration: \<^verbatim>\<open>server/src/utils/ConfigValidation.hpp\<close>, the URLs of
  \<^verbatim>\<open>server/src/dto/Config.hpp\<close> and the reading of environment and command line of
  \<^verbatim>\<open>server/src/utils/AppConfig.hpp\<close>, in this order.

  \<^verbatim>\<open>getenv\<close> is a function; the two look-ups in the command line are those of
  \<^verbatim>\<open>vendor/oatpp/src/oatpp/base/CommandLineArguments.cpp\<close>. \<open>BuildPaths\<close> holds the preprocessor constants. The fields that
  \<open>fromCommandLine\<close> sets on every path it returns from are not optional.
\<close>

section \<open>Validation\<close>

text \<open>The loop of \<^verbatim>\<open>parsePort\<close>, in \<^verbatim>\<open>std::uint32_t\<close>.\<close>

fun parsePort_loop :: "u32 \<Rightarrow> string \<Rightarrow> u16 option" where
  "parsePort_loop port [] = Some (ucast port)"
| "parsePort_loop port (c # cs) =
     (if \<not> is_digit c then None
      else let port = port * 10 + of_nat (digit_val c)
           in if port > 65535 then None else parsePort_loop port cs)"

definition parsePort :: "string \<Rightarrow> u16 option" where
  "parsePort value = (if value = [] then None else parsePort_loop 0 value)"

definition validStatsPath :: "string \<Rightarrow> bool" where
  "validStatsPath path \<longleftrightarrow> validRelativePath path \<and> length path \<le> 128"

definition validStateFilePath :: "string \<Rightarrow> bool" where
  "validStateFilePath path \<longleftrightarrow> path \<noteq> [] \<and> length path \<le> 4096 \<and> \<not> containsControl path"

definition validLoopbackHost :: "string \<Rightarrow> bool" where
  "validLoopbackHost host \<longleftrightarrow> host = ''127.0.0.1'' \<or> host = ''::1'' \<or> host = ''localhost''"

definition default_port :: "bool \<Rightarrow> u16" where
  "default_port useTls = (if useTls then 443 else 80)"

definition port_text :: "u16 \<Rightarrow> string" where
  "port_text port = decimal (unat port)"

definition canonicalBaseUrl :: "string \<Rightarrow> u16 \<Rightarrow> bool \<Rightarrow> string" where
  "canonicalBaseUrl host port useTls =
     (if useTls then ''https://'' else ''http://'') @ host
     @ (if port \<noteq> default_port useTls then '':'' @ port_text port else [])"

definition websocketBaseUrl :: "string \<Rightarrow> u16 \<Rightarrow> bool \<Rightarrow> string" where
  "websocketBaseUrl host port useTls =
     (if useTls then ''wss://'' else ''ws://'') @ host @ '':'' @ port_text port"

section \<open>The configuration object\<close>

record ConfigDto =
  cf_statisticsUrl :: string
  cf_statisticsStatePath :: "string option"
  cf_host :: string
  cf_port :: u16
  cf_useTLS :: bool
  cf_torEnabled :: bool
  cf_torControlSocket :: "string option"
  cf_torControlHost :: string
  cf_torControlPort :: u16
  cf_torKeyPath :: string
  cf_torBackendPort :: u16
  cf_torVirtualPort :: u16
  cf_onionHost :: "string option"
  cf_tlsPrivateKeyPath :: "string option"
  cf_tlsCertificateChainPath :: "string option"
  cf_pidFilePath :: "string option"
  cf_version :: string
  cf_maxMessageSizeBytes :: u64
  cf_maxRoomHistoryMessages :: u32

definition getHostString :: "ConfigDto \<Rightarrow> string" where
  "getHostString c =
     (let defPort = (if cf_useTLS c then 443 else 80)
      in cf_host c @ (if defPort \<noteq> cf_port c then '':'' @ port_text (cf_port c) else []))"

definition getCanonicalBaseUrl :: "ConfigDto \<Rightarrow> string" where
  "getCanonicalBaseUrl c = canonicalBaseUrl (cf_host c) (cf_port c) (cf_useTLS c)"

definition getWebsocketBaseUrl :: "ConfigDto \<Rightarrow> string" where
  "getWebsocketBaseUrl c = websocketBaseUrl (cf_host c) (cf_port c) (cf_useTLS c)"

definition getStatsUrl :: "ConfigDto \<Rightarrow> string" where
  "getStatsUrl c = getCanonicalBaseUrl c @ ''/'' @ cf_statisticsUrl c"

definition getOnionHostString :: "ConfigDto \<Rightarrow> string option" where
  "getOnionHostString c =
     (case cf_onionHost c of
        None \<Rightarrow> None
      | Some h \<Rightarrow> Some (h @ (if cf_torVirtualPort c \<noteq> 80 then '':'' @ port_text (cf_torVirtualPort c) else [])))"

definition getOnionBaseUrl :: "ConfigDto \<Rightarrow> string option" where
  "getOnionBaseUrl c =
     (case cf_onionHost c of
        None \<Rightarrow> None | Some h \<Rightarrow> Some (canonicalBaseUrl h (cf_torVirtualPort c) False))"

definition isOnionRequestHost :: "ConfigDto \<Rightarrow> string \<Rightarrow> bool" where
  "isOnionRequestHost c requestHost \<longleftrightarrow> getOnionHostString c = Some requestHost"

definition isAllowedRequestHost :: "ConfigDto \<Rightarrow> string \<Rightarrow> bool" where
  "isAllowedRequestHost c requestHost \<longleftrightarrow>
     requestHost = getHostString c \<or> getOnionHostString c = Some requestHost"

definition getWebsocketBaseUrlForHost :: "ConfigDto \<Rightarrow> string \<Rightarrow> string" where
  "getWebsocketBaseUrlForHost c requestHost =
     (if isOnionRequestHost c requestHost
      then websocketBaseUrl (the (cf_onionHost c)) (cf_torVirtualPort c) False
      else getWebsocketBaseUrl c)"

definition isAllowedOrigin :: "ConfigDto \<Rightarrow> string \<Rightarrow> bool \<Rightarrow> bool" where
  "isAllowedOrigin c origin developmentOverride \<longleftrightarrow>
     allowedOrigin origin (getCanonicalBaseUrl c) developmentOverride \<or> getOnionBaseUrl c = Some origin"

section \<open>Environment and command line\<close>

record Arguments =
  ar_getenv :: "string \<Rightarrow> string option"
  ar_argv :: "string list"

definition hasArgument :: "Arguments \<Rightarrow> string \<Rightarrow> bool" where
  "hasArgument args name \<longleftrightarrow> name \<in> set (ar_argv args)"

text \<open>The word behind the first occurrence of the name that is not the last word.\<close>

fun named_value :: "string list \<Rightarrow> string \<Rightarrow> string option \<Rightarrow> string option" where
  "named_value (a # v # argv) name fallback = (if a = name then Some v else named_value (v # argv) name fallback)"
| "named_value _ name fallback = fallback"

definition getNamedArgumentValue :: "Arguments \<Rightarrow> string \<Rightarrow> string option \<Rightarrow> string option" where
  "getNamedArgumentValue args name fallback = named_value (ar_argv args) name fallback"

record BuildPaths =
  CERT_PEM_PATH :: string
  CERT_CRT_PATH :: string
  CONSPIRE_VERSION :: string

text \<open>The environment variable, or else the named argument.\<close>

definition env_or_named :: "Arguments \<Rightarrow> string \<Rightarrow> string \<Rightarrow> string option \<Rightarrow> string option" where
  "env_or_named args var arg fallback =
     (case ar_getenv args var of Some v \<Rightarrow> Some v | None \<Rightarrow> getNamedArgumentValue args arg fallback)"

definition parse_text :: "string option \<Rightarrow> u16 option" where
  "parse_text portText = parsePort (case portText of None \<Rightarrow> [] | Some t \<Rightarrow> t)"

text \<open>\<^verbatim>\<open>std::filesystem::path\<close> on POSIX: the path without its last component and the separators before it, and
  appending a file name.\<close>

definition parent_path :: "string \<Rightarrow> string" where
  "parent_path path =
     (let pre = rev (dropWhile (\<lambda>c. c \<noteq> CHR ''/'') (rev path));
          parent = rev (dropWhile (\<lambda>c. c = CHR ''/'') (rev pre))
      in if pre = [] then [] else if parent \<noteq> [] then parent
         else if list_all (\<lambda>c. c = CHR ''/'') path then path else ''/'')"

definition path_append :: "string \<Rightarrow> string \<Rightarrow> string" where
  "path_append parent name =
     (if parent = [] \<or> last parent = CHR ''/'' then parent @ name else parent @ ''/'' @ name)"

text \<open>The first part, up to the statistics: an error text or the configuration and the text of the port.\<close>

definition fromCommandLine_http :: "BuildPaths \<Rightarrow> Arguments \<Rightarrow> ConfigDto \<Rightarrow> string + ConfigDto \<times> string" where
  "fromCommandLine_http build args c =
     (let c = c\<lparr>cf_useTLS := hasArgument args ''--tls''\<rparr>
      in case env_or_named args ''EXTERNAL_ADDRESS'' ''--host'' (Some ''localhost'') of
           None \<Rightarrow> Inl ''Invalid host!''
         | Some host \<Rightarrow>
             if \<not> validHost host then Inl ''Invalid host!''
             else
               let portText = env_or_named args ''EXTERNAL_PORT'' ''--port''
                     (Some (if cf_useTLS c then ''8443'' else ''8080''))
               in (case parse_text portText of
                     None \<Rightarrow> Inl ''Invalid port!''
                   | Some port \<Rightarrow>
                       let c = c\<lparr>cf_host := host, cf_port := port\<rparr>;
                           c = (if cf_useTLS c then c\<lparr>
                                  cf_tlsPrivateKeyPath := env_or_named args ''TLS_FILE_PRIVATE_KEY'' ''--tls-key''
                                    (Some (CERT_PEM_PATH build)),
                                  cf_tlsCertificateChainPath := env_or_named args ''TLS_FILE_CERT_CHAIN'' ''--tls-chain''
                                    (Some (CERT_CRT_PATH build))\<rparr> else c)
                       in (case env_or_named args ''URL_STATS_PATH'' ''--url-stats'' (Some ''admin/stats.json'') of
                             None \<Rightarrow> Inl ''Invalid statistics path!''
                           | Some url \<Rightarrow>
                               if \<not> validStatsPath url then Inl ''Invalid statistics path!''
                               else
                                 let path = env_or_named args ''STATS_STATE_PATH'' ''--stats-state'' None
                                 in if hasArgument args ''--stats-state'' \<and> path = None
                                    then Inl ''Missing statistics state path!''
                                    else if path \<noteq> None \<and> \<not> validStateFilePath (the path)
                                    then Inl ''Invalid statistics state path!''
                                    else Inr (c\<lparr>cf_statisticsUrl := url, cf_statisticsStatePath := path\<rparr>,
                                              the portText))))"

definition default_backend_port :: "ConfigDto \<Rightarrow> string \<Rightarrow> string" where
  "default_backend_port c portText =
     (if cf_useTLS c then (if cf_port c = 8080 then ''8081'' else ''8080'') else portText)"

definition default_key_path :: "ConfigDto \<Rightarrow> string" where
  "default_key_path c =
     (case cf_statisticsStatePath c of
        None \<Rightarrow> ''conspire-onion.key''
      | Some path \<Rightarrow> path_append (parent_path path) ''onion.key'')"

definition fromCommandLine_key :: "Arguments \<Rightarrow> ConfigDto \<Rightarrow> string + ConfigDto" where
  "fromCommandLine_key args c =
     (let given = env_or_named args ''TOR_KEY_PATH'' ''--tor-key'' None
      in if hasArgument args ''--tor-key'' \<and> given = None then Inl ''Missing Tor key path!''
         else
           let key = (case given of Some k \<Rightarrow> k | None \<Rightarrow> default_key_path c)
           in if \<not> validStateFilePath key then Inl ''Invalid Tor key path!''
              else Inr (c\<lparr>cf_torKeyPath := key\<rparr>))"

definition fromCommandLine_ports :: "Arguments \<Rightarrow> string \<Rightarrow> ConfigDto \<Rightarrow> string + ConfigDto" where
  "fromCommandLine_ports args portText c =
     (case parse_text (env_or_named args ''TOR_CONTROL_PORT'' ''--tor-control-port'' (Some ''9051'')) of
        None \<Rightarrow> Inl ''Invalid Tor control port!''
      | Some controlPort \<Rightarrow>
          if controlPort = 0 then Inl ''Invalid Tor control port!''
          else (case parse_text (env_or_named args ''TOR_BACKEND_PORT'' ''--tor-backend-port''
                       (Some (default_backend_port c portText))) of
            None \<Rightarrow> Inl ''Invalid Tor backend port!''
          | Some backendPort \<Rightarrow>
              if cf_torEnabled c \<and> (backendPort = 0 \<or> cf_useTLS c \<and> backendPort = cf_port c)
              then Inl ''Invalid Tor backend port!''
              else (case parse_text (env_or_named args ''TOR_VIRTUAL_PORT'' ''--tor-virtual-port'' (Some ''80'')) of
                None \<Rightarrow> Inl ''Invalid Tor virtual port!''
              | Some virtualPort \<Rightarrow>
                  if virtualPort = 0 then Inl ''Invalid Tor virtual port!''
                  else Inr (c\<lparr>cf_torControlPort := controlPort, cf_torBackendPort := backendPort,
                              cf_torVirtualPort := virtualPort\<rparr>))))"

definition fromCommandLine_tor :: "Arguments \<Rightarrow> string \<Rightarrow> ConfigDto \<Rightarrow> string + ConfigDto" where
  "fromCommandLine_tor args portText c =
     (let c = c\<lparr>cf_torEnabled := \<not> hasArgument args ''--no-tor'',
            cf_torControlSocket := env_or_named args ''TOR_CONTROL_SOCKET'' ''--tor-control-socket''
              (Some ''/run/tor/control'')\<rparr>
      in if hasArgument args ''--tor-control-socket'' \<and> cf_torControlSocket c = None
         then Inl ''Missing Tor control socket path!''
         else if cf_torControlSocket c \<noteq> None \<and> \<not> validStateFilePath (the (cf_torControlSocket c))
         then Inl ''Invalid Tor control socket path!''
         else (case env_or_named args ''TOR_CONTROL_HOST'' ''--tor-control-host'' (Some ''127.0.0.1'') of
           None \<Rightarrow> Inl ''Tor control host must be loopback!''
         | Some host \<Rightarrow>
             if \<not> validLoopbackHost host then Inl ''Tor control host must be loopback!''
             else fromCommandLine_ports args portText (c\<lparr>cf_torControlHost := host\<rparr>)))"

definition ConfigDto_createShared :: ConfigDto where
  "ConfigDto_createShared = \<lparr>cf_statisticsUrl = [], cf_statisticsStatePath = None, cf_host = [], cf_port = 0,
     cf_useTLS = False, cf_torEnabled = True, cf_torControlSocket = None, cf_torControlHost = [],
     cf_torControlPort = 0, cf_torKeyPath = [], cf_torBackendPort = 0, cf_torVirtualPort = 0,
     cf_onionHost = None, cf_tlsPrivateKeyPath = None, cf_tlsCertificateChainPath = None, cf_pidFilePath = None,
     cf_version = [], cf_maxMessageSizeBytes = 8 * 1024, cf_maxRoomHistoryMessages = 100\<rparr>"

definition fromCommandLine :: "BuildPaths \<Rightarrow> Arguments \<Rightarrow> string + ConfigDto" where
  "fromCommandLine build args =
     (case fromCommandLine_http build args ConfigDto_createShared of
        Inl e \<Rightarrow> Inl e
      | Inr (c, portText) \<Rightarrow>
          (case fromCommandLine_tor args portText c of
             Inl e \<Rightarrow> Inl e
           | Inr c \<Rightarrow>
               (case fromCommandLine_key args c of
                  Inl e \<Rightarrow> Inl e
                | Inr c \<Rightarrow> Inr (c\<lparr>cf_pidFilePath := getNamedArgumentValue args ''--pid'' None,
                                 cf_version := CONSPIRE_VERSION build\<rparr>))))"

end
