(* ===== verification/ConfigProps.thy ===== *)
theory ConfigProps
  imports Config
begin

text \<open>
  What a configuration that was accepted satisfies, what a port number is, and how the URLs and the host
  strings made from a configuration relate.
\<close>

section \<open>Numbers\<close>

definition number_from :: "nat \<Rightarrow> string \<Rightarrow> nat" where
  "number_from n s = foldl (\<lambda>n c. n * 10 + digit_val c) n s"

lemma number_from_simps [simp]:
  "number_from n [] = n"
  "number_from n (c # cs) = number_from (n * 10 + digit_val c) cs"
  "number_from n (s @ t) = number_from (number_from n s) t"
  by (simp_all add: number_from_def)

lemma number_from_grows: "n \<le> number_from n s"
proof (induction s arbitrary: n)
  case (Cons c s)
  from Cons.IH [of "n * 10 + digit_val c"] show ?case by simp
qed simp

lemma digit_val_less: "is_digit c \<Longrightarrow> digit_val c < 10"
  by (auto simp: is_digit_def digit_val_def byte_def)

lemma parsePort_loop_exact:
  "unat port \<le> 65535 \<Longrightarrow> parsePort_loop port cs =
     (if list_all is_digit cs \<and> number_from (unat port) cs \<le> 65535
      then Some (of_nat (number_from (unat port) cs)) else None)"
proof (induction port cs rule: parsePort_loop.induct)
  case (1 port)
  have "(ucast port :: u16) = of_nat (unat port)" by (rule of_nat_unat [symmetric])
  with 1 show ?case by simp
next
  case (2 port c cs)
  show ?case
  proof (cases "is_digit c")
    case True
    have small: "unat port * 10 + digit_val c < 2 ^ 32" using 2(2) digit_val_less [OF True] by simp
    then have u: "unat (port * 10 + of_nat (digit_val c)) = unat port * 10 + digit_val c"
      by (simp add: unat_word_ariths unat_of_nat)
    show ?thesis
    proof (cases "port * 10 + of_nat (digit_val c) > 65535")
      case big: True
      then have "unat port * 10 + digit_val c > 65535" using u by (simp add: word_less_nat_alt)
      with number_from_grows [of "unat port * 10 + digit_val c" cs] big True show ?thesis by simp
    next
      case False
      then have "unat (port * 10 + of_nat (digit_val c)) \<le> 65535" by (simp add: word_le_nat_alt not_less)
      with 2(1) [OF _ refl False] True False u show ?thesis by simp
    qed
  qed simp
qed

lemma parsePort_exact:
  "parsePort s = (if s \<noteq> [] \<and> list_all is_digit s \<and> number_from 0 s \<le> 65535
     then Some (of_nat (number_from 0 s)) else None)"
  using parsePort_loop_exact [of 0 s] by (auto simp: parsePort_def)

lemma char_digit: "d < 10 \<Longrightarrow> is_digit (char_of (48 + d)) \<and> digit_val (char_of (48 + d)) = d"
  by (simp add: is_digit_def digit_val_def byte_def)

lemma decimal_number: "decimal n \<noteq> [] \<and> list_all is_digit (decimal n) \<and> number_from 0 (decimal n) = n"
proof (induction n rule: decimal.induct)
  case (1 n)
  show ?case
  proof (cases "n < 10")
    case True
    with char_digit [of n] show ?thesis by (subst (1 2 3) decimal.simps) simp
  next
    case False
    with 1 char_digit [of "n mod 10"] show ?thesis by (subst (1 2 3) decimal.simps) simp
  qed
qed

lemma parsePort_text: "parsePort (port_text p) = Some p"
proof -
  have "unat p < 65536" by (rule order_less_le_trans [OF unsigned_less]) simp
  then show ?thesis using decimal_number [of "unat p"] by (simp add: parsePort_exact port_text_def)
qed

section \<open>Accepted configurations\<close>

definition config_ok :: "ConfigDto \<Rightarrow> bool" where
  "config_ok c \<longleftrightarrow>
     validHost (cf_host c) \<and> validStatsPath (cf_statisticsUrl c)
   \<and> (case cf_statisticsStatePath c of None \<Rightarrow> True | Some p \<Rightarrow> validStateFilePath p)
   \<and> (case cf_torControlSocket c of None \<Rightarrow> True | Some p \<Rightarrow> validStateFilePath p)
   \<and> validLoopbackHost (cf_torControlHost c) \<and> cf_torControlPort c \<noteq> 0 \<and> cf_torVirtualPort c \<noteq> 0
   \<and> (cf_torEnabled c \<longrightarrow> cf_torBackendPort c \<noteq> 0 \<and> (cf_useTLS c \<longrightarrow> cf_torBackendPort c \<noteq> cf_port c))
   \<and> validStateFilePath (cf_torKeyPath c) \<and> cf_onionHost c = None
   \<and> cf_maxMessageSizeBytes c = 8192 \<and> cf_maxRoomHistoryMessages c = 100"

lemma fromCommandLine_http_ok:
  assumes "fromCommandLine_http build args c = Inr (c', portText)"
  shows "validHost (cf_host c') \<and> validStatsPath (cf_statisticsUrl c')
   \<and> (case cf_statisticsStatePath c' of None \<Rightarrow> True | Some p \<Rightarrow> validStateFilePath p)
   \<and> cf_onionHost c' = cf_onionHost c \<and> cf_maxMessageSizeBytes c' = cf_maxMessageSizeBytes c
   \<and> cf_maxRoomHistoryMessages c' = cf_maxRoomHistoryMessages c \<and> cf_useTLS c' = hasArgument args ''--tls''"
proof -
  obtain host where h: "env_or_named args ''EXTERNAL_ADDRESS'' ''--host'' (Some ''localhost'') = Some host" "validHost host"
    using assms by (auto simp: fromCommandLine_http_def Let_def split: option.splits if_splits)
  obtain url where u: "env_or_named args ''URL_STATS_PATH'' ''--url-stats'' (Some ''admin/stats.json'') = Some url"
      "validStatsPath url"
    using assms h by (auto simp: fromCommandLine_http_def Let_def split: option.splits if_splits)
  define path where "path = env_or_named args ''STATS_STATE_PATH'' ''--stats-state'' None"
  note r = assms [unfolded fromCommandLine_http_def, folded path_def, unfolded Let_def h u option.case]
  show ?thesis
    using r h(2) u(2) by (cases path) (auto split: option.splits if_splits)
qed

lemma fromCommandLine_ports_ok:
  "fromCommandLine_ports args portText c = Inr c' \<Longrightarrow>
     cf_torControlPort c' \<noteq> 0 \<and> cf_torVirtualPort c' \<noteq> 0
   \<and> (cf_torEnabled c' \<longrightarrow> cf_torBackendPort c' \<noteq> 0 \<and> (cf_useTLS c' \<longrightarrow> cf_torBackendPort c' \<noteq> cf_port c'))
   \<and> c' = c\<lparr>cf_torControlPort := cf_torControlPort c', cf_torBackendPort := cf_torBackendPort c',
           cf_torVirtualPort := cf_torVirtualPort c'\<rparr>"
  by (auto simp: fromCommandLine_ports_def split: option.splits if_splits)

lemma fromCommandLine_tor_ok:
  assumes "fromCommandLine_tor args portText c = Inr c'"
  shows "(case cf_torControlSocket c' of None \<Rightarrow> True | Some p \<Rightarrow> validStateFilePath p)
   \<and> validLoopbackHost (cf_torControlHost c') \<and> cf_torControlPort c' \<noteq> 0 \<and> cf_torVirtualPort c' \<noteq> 0
   \<and> (cf_torEnabled c' \<longrightarrow> cf_torBackendPort c' \<noteq> 0 \<and> (cf_useTLS c' \<longrightarrow> cf_torBackendPort c' \<noteq> cf_port c'))
   \<and> cf_host c' = cf_host c \<and> cf_statisticsUrl c' = cf_statisticsUrl c
   \<and> cf_statisticsStatePath c' = cf_statisticsStatePath c \<and> cf_onionHost c' = cf_onionHost c
   \<and> cf_maxMessageSizeBytes c' = cf_maxMessageSizeBytes c
   \<and> cf_maxRoomHistoryMessages c' = cf_maxRoomHistoryMessages c
   \<and> cf_torEnabled c' = (\<not> hasArgument args ''--no-tor'') \<and> cf_useTLS c' = cf_useTLS c"
proof -
  obtain c0 where c0: "fromCommandLine_ports args portText c0 = Inr c'" "validLoopbackHost (cf_torControlHost c0)"
      "case cf_torControlSocket c0 of None \<Rightarrow> True | Some p \<Rightarrow> validStateFilePath p"
      "c0 = c\<lparr>cf_torEnabled := \<not> hasArgument args ''--no-tor'', cf_torControlSocket := cf_torControlSocket c0,
             cf_torControlHost := cf_torControlHost c0\<rparr>"
    using assms
    by (cases "env_or_named args ''TOR_CONTROL_SOCKET'' ''--tor-control-socket'' (Some ''/run/tor/control'')")
       (auto simp: fromCommandLine_tor_def Let_def split: option.splits if_splits)
  note p = fromCommandLine_ports_ok [OF c0(1)]
  have "cf_torControlSocket c' = cf_torControlSocket c0" "cf_torControlHost c' = cf_torControlHost c0"
    "cf_host c' = cf_host c0" "cf_statisticsUrl c' = cf_statisticsUrl c0" "cf_statisticsStatePath c' = cf_statisticsStatePath c0"
    "cf_onionHost c' = cf_onionHost c0" "cf_maxMessageSizeBytes c' = cf_maxMessageSizeBytes c0"
    "cf_maxRoomHistoryMessages c' = cf_maxRoomHistoryMessages c0" "cf_torEnabled c' = cf_torEnabled c0"
    "cf_useTLS c' = cf_useTLS c0"
    by (subst p [THEN conjunct2, THEN conjunct2, THEN conjunct2], simp)+
  moreover have "cf_host c0 = cf_host c" "cf_statisticsUrl c0 = cf_statisticsUrl c"
    "cf_statisticsStatePath c0 = cf_statisticsStatePath c" "cf_onionHost c0 = cf_onionHost c"
    "cf_maxMessageSizeBytes c0 = cf_maxMessageSizeBytes c"
    "cf_maxRoomHistoryMessages c0 = cf_maxRoomHistoryMessages c" "cf_torEnabled c0 = (\<not> hasArgument args ''--no-tor'')"
    "cf_useTLS c0 = cf_useTLS c"
    by (subst c0(4), simp)+
  ultimately show ?thesis using c0(2,3) p by simp
qed

lemma fromCommandLine_key_ok:
  "fromCommandLine_key args c = Inr c' \<Longrightarrow> \<exists>k. validStateFilePath k \<and> c' = c\<lparr>cf_torKeyPath := k\<rparr>"
  by (auto simp: fromCommandLine_key_def Let_def split: if_splits)

lemma fromCommandLine_config_ok:
  assumes "fromCommandLine build args = Inr c"
  shows "config_ok c \<and> cf_useTLS c = hasArgument args ''--tls''"
proof -
  obtain c1 portText c2 c3 where h: "fromCommandLine_http build args ConfigDto_createShared = Inr (c1, portText)"
      and t: "fromCommandLine_tor args portText c1 = Inr c2" and k: "fromCommandLine_key args c2 = Inr c3"
      and c: "c = c3\<lparr>cf_pidFilePath := getNamedArgumentValue args ''--pid'' None, cf_version := CONSPIRE_VERSION build\<rparr>"
    using assms by (auto simp: fromCommandLine_def split: sum.splits)
  obtain key where "validStateFilePath key" "c3 = c2\<lparr>cf_torKeyPath := key\<rparr>" using fromCommandLine_key_ok [OF k] by blast
  then show ?thesis
    using fromCommandLine_http_ok [OF h] fromCommandLine_tor_ok [OF t]
    by (simp add: c config_ok_def ConfigDto_createShared_def)
qed

text \<open>An option with a default never misses its value: the check for a missing control socket path cannot fail.\<close>

lemma named_value_default: "named_value argv name (Some d) \<noteq> None"
  by (induction argv name "Some d" rule: named_value.induct) auto

lemma control_socket_never_missing:
  "fromCommandLine build args \<noteq> Inl ''Missing Tor control socket path!''"
proof -
  have "env_or_named args ''TOR_CONTROL_SOCKET'' ''--tor-control-socket'' (Some ''/run/tor/control'') \<noteq> None"
    using named_value_default by (auto simp: env_or_named_def getNamedArgumentValue_def split: option.splits)
  then have "fromCommandLine_tor args portText c \<noteq> Inl ''Missing Tor control socket path!''" for portText c
    by (auto simp: fromCommandLine_tor_def fromCommandLine_ports_def Let_def split: option.splits)
  moreover have "fromCommandLine_http build args c \<noteq> Inl ''Missing Tor control socket path!''" for c
    by (auto simp: fromCommandLine_http_def Let_def split: option.splits)
  moreover have "fromCommandLine_key args c \<noteq> Inl ''Missing Tor control socket path!''" for c
    by (auto simp: fromCommandLine_key_def Let_def)
  ultimately show ?thesis by (auto simp: fromCommandLine_def split: sum.splits)
qed

section \<open>Hosts and URLs\<close>

lemma containsControl_append [simp]: "containsControl (s @ t) \<longleftrightarrow> containsControl s \<or> containsControl t"
  by (induction s) simp_all

lemma digits_host: "list_all is_digit s \<Longrightarrow> list_all host_char s \<and> \<not> containsControl s"
  by (induction s) (auto simp: host_char_def is_digit_def byte_def)

lemma canonical_url_host: "getCanonicalBaseUrl c = (if cf_useTLS c then ''https://'' else ''http://'') @ getHostString c"
  by (simp add: getCanonicalBaseUrl_def canonicalBaseUrl_def getHostString_def default_port_def Let_def)

lemma onion_url_host: "getOnionBaseUrl c = map_option ((@) ''http://'') (getOnionHostString c)"
  by (auto simp: getOnionBaseUrl_def getOnionHostString_def canonicalBaseUrl_def default_port_def split: option.split)

text \<open>The host string of an accepted configuration is a valid host unless the port makes it too long.\<close>

lemma host_string_valid: "validHost (cf_host c) \<Longrightarrow> validHost (getHostString c) \<longleftrightarrow> length (getHostString c) \<le> 255"
  using digits_host [of "port_text (cf_port c)"] decimal_number [of "unat (cf_port c)"]
  by (auto simp: validHost_def getHostString_def Let_def port_text_def host_char_def byte_def)

section \<open>A concrete configuration\<close>

text \<open>No environment and only a host on the command line.\<close>

definition demo_args :: Arguments where
  "demo_args = \<lparr>ar_getenv = (\<lambda>_. None), ar_argv = [''conspire'', ''--host'', ''chat.example'']\<rparr>"

definition demo_build :: BuildPaths where
  "demo_build = \<lparr>CERT_PEM_PATH = ''k'', CERT_CRT_PATH = ''c'', CONSPIRE_VERSION = ''1''\<rparr>"

definition demo_config :: ConfigDto where
  "demo_config = \<lparr>cf_statisticsUrl = ''admin/stats.json'', cf_statisticsStatePath = None, cf_host = ''chat.example'',
     cf_port = 8080, cf_useTLS = False, cf_torEnabled = True, cf_torControlSocket = Some ''/run/tor/control'',
     cf_torControlHost = ''127.0.0.1'', cf_torControlPort = 9051, cf_torKeyPath = ''conspire-onion.key'',
     cf_torBackendPort = 8080, cf_torVirtualPort = 80, cf_onionHost = None, cf_tlsPrivateKeyPath = None,
     cf_tlsCertificateChainPath = None, cf_pidFilePath = None, cf_version = ''1'',
     cf_maxMessageSizeBytes = 8 * 1024, cf_maxRoomHistoryMessages = 100\<rparr>"

lemma demo_config_accepted: "fromCommandLine demo_build demo_args = Inr demo_config"
  by code_simp

section \<open>Properties\<close>



text \<open>A port text is accepted exactly when it is a non-empty run of digits whose value is at most 65535, and the
  port is that value: the 32-bit accumulator never wraps, however long the text. What the server prints for
  a port reads back as the port.\<close>

theorem parsePort_correct:
  "parsePort s = (if s \<noteq> [] \<and> list_all is_digit s \<and> foldl (\<lambda>n c. n * 10 + digit_val c) 0 s \<le> 65535
     then Some (of_nat (foldl (\<lambda>n c. n * 10 + digit_val c) 0 s)) else None)
   \<and> parsePort (port_text p) = Some p"
  using parsePort_exact [of s] parsePort_text [of p] by (simp add: number_from_def)

end
