(* ===== verification/Web.thy ===== *)
theory Web
  imports Config Statistics
begin

text \<open>
  The HTTP surface: the request interceptor of \<^verbatim>\<open>server/src/AppComponent.hpp\<close> and the endpoints of
  \<^verbatim>\<open>server/src/controller/StaticController.hpp\<close> and \<^verbatim>\<open>StatisticsController.hpp\<close>. An endpoint yields
  \<open>Inl\<close> the status and message of a failed \<^verbatim>\<open>OATPP_ASSERT_HTTP\<close>, or \<open>Inr\<close> a response. \<open>findAsset\<close> is the
  table of embedded files the build generates: the empty text for a path that is not in it. The routing
  by the path patterns is oatpp's.
\<close>

record Request =
  rq_path :: string
  rq_variable :: "string \<Rightarrow> string option"
  rq_header :: "string \<Rightarrow> string option"

datatype Body = NoBody | TextBody string | FileBody subscriber_ref

record Response =
  rs_status :: nat
  rs_headers :: "(string \<times> string) list"
  rs_body :: Body
  rs_parameters :: "(string \<times> string) list"

type_synonym Outcome = "(nat \<times> string) + Response"

definition createResponse :: "nat \<Rightarrow> Body \<Rightarrow> Response" where
  "createResponse status body = \<lparr>rs_status = status, rs_headers = [], rs_body = body, rs_parameters = []\<rparr>"

definition putHeader :: "string \<Rightarrow> string \<Rightarrow> Response \<Rightarrow> Response" where
  "putHeader name value r = r\<lparr>rs_headers := rs_headers r @ [(name, value)]\<rparr>"

section \<open>The interceptor\<close>

text \<open>\<open>None\<close> lets the request through.\<close>

definition intercept :: "ConfigDto \<Rightarrow> Request \<Rightarrow> Response option" where
  "intercept c request =
     (let bad = Some (createResponse 400 NoBody)
      in case rq_header request ''Host'' of
           None \<Rightarrow> bad
         | Some host \<Rightarrow>
             if \<not> validHost host \<or> \<not> validRequestPath (rq_path request) then bad
             else if \<not> isAllowedRequestHost c host
             then Some (putHeader ''Cache-Control'' ''no-store''
                    (putHeader ''Location'' (getCanonicalBaseUrl c @ rq_path request) (createResponse 301 NoBody)))
             else None)"

section \<open>Pages and assets\<close>

definition loadAsset :: "(string \<Rightarrow> string) \<Rightarrow> string \<Rightarrow> (nat \<times> string) + string" where
  "loadAsset findAsset path =
     (if findAsset path = [] then Inl (404, ''Asset Not Found:('') else Inr (findAsset path))"

definition onion_button :: "string option \<Rightarrow> string" where
  "onion_button onionBaseUrl =
     (case onionBaseUrl of
        None \<Rightarrow> []
      | Some url \<Rightarrow>
          ''<a id='' @ [dquote] @ ''tor-hidden-service'' @ [dquote] @ '' class='' @ [dquote] @ ''button'' @ [dquote]
          @ '' href='' @ [dquote] @ htmlText url
          @ [dquote] @ '' target='' @ [dquote] @ ''_blank'' @ [dquote] @ '' rel='' @ [dquote] @ ''noopener noreferrer''
          @ [dquote] @ ''>Tor hidden service</a>'')"

definition renderPage :: "string \<Rightarrow> string \<Rightarrow> string option \<Rightarrow> string" where
  "renderPage page version onionBaseUrl =
     (let page = fst (replaceLiteral page ''%%%CONSPIRE_TITLE%%%'' (pageTitle version))
      in fst (replaceLiteral page ''%%%TOR_HIDDEN_SERVICE_BUTTON%%%'' (onion_button onionBaseUrl)))"

definition nosniff :: "Response \<Rightarrow> Response" where
  "nosniff = putHeader ''X-Content-Type-Options'' ''nosniff''"

definition no_store :: "Response \<Rightarrow> Response" where
  "no_store = putHeader ''Cache-Control'' ''no-store''"

definition html_response :: "string \<Rightarrow> string \<Rightarrow> Response" where
  "html_response policy page =
     no_store (putHeader ''Referrer-Policy'' ''no-referrer'' (nosniff
       (putHeader ''Content-Security-Policy'' policy
         (putHeader ''Content-Type'' ''text/html'' (createResponse 200 (TextBody page))))))"

definition typed_response :: "string \<Rightarrow> string \<Rightarrow> Response" where
  "typed_response contentType body =
     no_store (nosniff (putHeader ''Content-Type'' contentType (createResponse 200 (TextBody body))))"

definition serve_asset :: "(string \<Rightarrow> string) \<Rightarrow> string \<Rightarrow> string \<Rightarrow> Outcome" where
  "serve_asset findAsset path contentType =
     (case loadAsset findAsset path of Inl e \<Rightarrow> Inl e | Inr body \<Rightarrow> Inr (typed_response contentType body))"

text \<open>The room id of the path, checked.\<close>

definition valid_room :: "Request \<Rightarrow> (nat \<times> string) + string" where
  "valid_room request =
     (case rq_variable request ''roomId'' of
        None \<Rightarrow> Inl (400, ''Invalid room id'')
      | Some roomId \<Rightarrow> if validRoomId roomId then Inr roomId else Inl (400, ''Invalid room id''))"

definition serve_room_asset :: "(string \<Rightarrow> string) \<Rightarrow> string \<Rightarrow> string \<Rightarrow> Request \<Rightarrow> Outcome" where
  "serve_room_asset findAsset path contentType request =
     (case valid_room request of Inl e \<Rightarrow> Inl e | Inr roomId \<Rightarrow> serve_asset findAsset path contentType)"

section \<open>The static controller\<close>

record Site =
  si_findAsset :: "string \<Rightarrow> string"
  si_config :: ConfigDto

definition root_policy :: string where
  "root_policy = ''default-src 'self'; base-uri 'none'; object-src 'none'; frame-ancestors 'none'' @ [squote]"

text \<open>The front page counts its visit before anything can fail.\<close>

definition static_Root :: "Site \<Rightarrow> Counters \<Rightarrow> Counters \<times> Outcome" where
  "static_Root site counters =
     (counter_add EVENT_FRONT_PAGE_LOADED 1 counters,
      (case loadAsset (si_findAsset site) ''index.html'' of
         Inl e \<Rightarrow> Inl e
       | Inr file \<Rightarrow> Inr (html_response
           root_policy
           (renderPage file (cf_version (si_config site)) (getOnionBaseUrl (si_config site))))))"

definition static_RootCSS :: "Site \<Rightarrow> Outcome" where
  "static_RootCSS site = serve_asset (si_findAsset site) ''style.css'' ''text/css''"

definition static_DesignSystemCSS :: "Site \<Rightarrow> Outcome" where
  "static_DesignSystemCSS site = serve_asset (si_findAsset site) ''design-system.css'' ''text/css''"

definition static_LobbyJS :: "Site \<Rightarrow> Outcome" where
  "static_LobbyJS site = serve_asset (si_findAsset site) ''lobby.js'' ''text/javascript''"

definition dashboard_policy :: string where
  "dashboard_policy = ''default-src 'self'; script-src 'self'; ''
     @ ''style-src 'self' 'unsafe-inline'; connect-src 'self' https: http://localhost:* http://127.0.0.1:*; ''
     @ ''base-uri 'none'; object-src 'none'; frame-ancestors 'none'' @ [squote]"

definition static_Dashboard :: "Site \<Rightarrow> Outcome" where
  "static_Dashboard site =
     (case loadAsset (si_findAsset site) ''dashboard/index.html'' of
        Inl e \<Rightarrow> Inl e
      | Inr file \<Rightarrow> Inr (html_response dashboard_policy (renderPage file (cf_version (si_config site)) None)))"

definition static_DashboardSlash :: "Site \<Rightarrow> Outcome" where
  "static_DashboardSlash site =
     (case loadAsset (si_findAsset site) ''dashboard/index.html'' of
        Inl e \<Rightarrow> Inl e
      | Inr file \<Rightarrow> Inr (html_response dashboard_policy (renderPage file (cf_version (si_config site)) None)))"

definition static_DashboardCSS :: "Site \<Rightarrow> Outcome" where
  "static_DashboardCSS site = serve_asset (si_findAsset site) ''dashboard/style.css'' ''text/css''"

definition dashboard_config :: "string \<Rightarrow> string" where
  "dashboard_config statisticsUrl =
     ''globalThis.ConspireDashboardConfig = {statsUrl: '' @ javascriptString (''/'' @ statisticsUrl)
     @ ''};'' @ [newline, newline]"

definition static_DashboardJS :: "Site \<Rightarrow> Outcome" where
  "static_DashboardJS site =
     (case loadAsset (si_findAsset site) ''dashboard/app.js'' of
        Inl e \<Rightarrow> Inl e
      | Inr file \<Rightarrow> Inr (typed_response ''text/javascript''
          (dashboard_config (cf_statisticsUrl (si_config site)) @ file)))"

definition static_DashboardChartJS :: "Site \<Rightarrow> Outcome" where
  "static_DashboardChartJS site =
     (case loadAsset (si_findAsset site) ''dashboard/vendor/chart.umd.min.js'' of
        Inl e \<Rightarrow> Inl e
      | Inr file \<Rightarrow> Inr (putHeader ''Cache-Control'' ''public, max-age=31536000, immutable''
          (nosniff (putHeader ''Content-Type'' ''text/javascript'' (createResponse 200 (TextBody file))))))"

definition static_DashboardSampleStats :: "Site \<Rightarrow> Outcome" where
  "static_DashboardSampleStats site =
     serve_asset (si_findAsset site) ''dashboard/sample-stats.json'' ''application/json''"

definition chat_policy :: string where
  "chat_policy = ''default-src 'self'; img-src 'self' blob:; base-uri 'none'; object-src 'none'; frame-ancestors 'none'' @ [squote]"

definition static_ChatHTML :: "Site \<Rightarrow> Request \<Rightarrow> Outcome" where
  "static_ChatHTML site request =
     (case valid_room request of
        Inl e \<Rightarrow> Inl e
      | Inr roomId \<Rightarrow>
          (case loadAsset (si_findAsset site) ''chat/index.html'' of
             Inl e \<Rightarrow> Inl e
           | Inr file \<Rightarrow>
               let page = renderPage file (cf_version (si_config site)) None
               in Inr (html_response chat_policy (fst (replaceLiteral page ''%%%ROOM_ID%%%'' (urlPathSegment roomId))))))"

definition chat_config :: "ConfigDto \<Rightarrow> string \<Rightarrow> string \<Rightarrow> string" where
  "chat_config c requestHost roomId =
     (let baseUrl = getWebsocketBaseUrlForHost c requestHost;
          encodedRoom = urlPathSegment roomId;
          websocketUrl = javascriptString (baseUrl @ ''/api/ws/room/'' @ encodedRoom);
          roomUrl = javascriptString (''/room/'' @ encodedRoom)
      in ''globalThis.ConspireChatConfig = {urlWebsocket: '' @ websocketUrl @ '', urlRoom: '' @ roomUrl @ ''};''
         @ [newline, newline])"

definition static_ChatJS :: "Site \<Rightarrow> Request \<Rightarrow> Outcome" where
  "static_ChatJS site request =
     (case valid_room request of
        Inl e \<Rightarrow> Inl e
      | Inr roomId \<Rightarrow>
          (case loadAsset (si_findAsset site) ''chat/chat.js'' of
             Inl e \<Rightarrow> Inl e
           | Inr file \<Rightarrow>
               (case rq_header request ''Host'' of
                  None \<Rightarrow> Inl (400, ''Invalid host'')
                | Some requestHost \<Rightarrow>
                    if \<not> isAllowedRequestHost (si_config site) requestHost then Inl (400, ''Invalid host'')
                    else Inr (typed_response ''text/javascript''
                           (chat_config (si_config site) requestHost roomId @ file)))))"

definition static_ProtocolJS :: "Site \<Rightarrow> Outcome" where
  "static_ProtocolJS site = serve_asset (si_findAsset site) ''chat/protocol.js'' ''text/javascript''"

definition static_ImagePreviewJS :: "Site \<Rightarrow> Outcome" where
  "static_ImagePreviewJS site = serve_asset (si_findAsset site) ''chat/image-preview.js'' ''text/javascript''"

definition static_TransportJS :: "Site \<Rightarrow> Request \<Rightarrow> Outcome" where
  "static_TransportJS site = serve_room_asset (si_findAsset site) ''chat/transport.js'' ''text/javascript''"

definition static_ReliabilityJS :: "Site \<Rightarrow> Request \<Rightarrow> Outcome" where
  "static_ReliabilityJS site = serve_room_asset (si_findAsset site) ''chat/reliability.js'' ''text/javascript''"

definition static_FormatJS :: "Site \<Rightarrow> Request \<Rightarrow> Outcome" where
  "static_FormatJS site = serve_room_asset (si_findAsset site) ''chat/format.js'' ''text/javascript''"

definition static_StateJS :: "Site \<Rightarrow> Request \<Rightarrow> Outcome" where
  "static_StateJS site = serve_room_asset (si_findAsset site) ''chat/state.js'' ''text/javascript''"

definition static_UiJS :: "Site \<Rightarrow> Request \<Rightarrow> Outcome" where
  "static_UiJS site = serve_room_asset (si_findAsset site) ''chat/ui.js'' ''text/javascript''"

definition static_ChatCSS :: "Site \<Rightarrow> Request \<Rightarrow> Outcome" where
  "static_ChatCSS site = serve_room_asset (si_findAsset site) ''chat/chat.css'' ''text/css''"

text \<open>All endpoints of the controller.\<close>

datatype StaticEndpoint =
    Root | RootCSS | DesignSystemCSS | LobbyJS | Dashboard | DashboardSlash | DashboardCSS | DashboardJS
  | DashboardChartJS | DashboardSampleStats | ChatHTML | ChatJS | ProtocolJS | ImagePreviewJS | TransportJS
  | ReliabilityJS | FormatJS | StateJS | UiJS | ChatCSS

fun StaticController :: "Site \<Rightarrow> StaticEndpoint \<Rightarrow> Request \<Rightarrow> Counters \<Rightarrow> Counters \<times> Outcome" where
  "StaticController site Root request counters = static_Root site counters"
| "StaticController site RootCSS request counters = (counters, static_RootCSS site)"
| "StaticController site DesignSystemCSS request counters = (counters, static_DesignSystemCSS site)"
| "StaticController site LobbyJS request counters = (counters, static_LobbyJS site)"
| "StaticController site Dashboard request counters = (counters, static_Dashboard site)"
| "StaticController site DashboardSlash request counters = (counters, static_DashboardSlash site)"
| "StaticController site DashboardCSS request counters = (counters, static_DashboardCSS site)"
| "StaticController site DashboardJS request counters = (counters, static_DashboardJS site)"
| "StaticController site DashboardChartJS request counters = (counters, static_DashboardChartJS site)"
| "StaticController site DashboardSampleStats request counters = (counters, static_DashboardSampleStats site)"
| "StaticController site ChatHTML request counters = (counters, static_ChatHTML site request)"
| "StaticController site ChatJS request counters = (counters, static_ChatJS site request)"
| "StaticController site ProtocolJS request counters = (counters, static_ProtocolJS site)"
| "StaticController site ImagePreviewJS request counters = (counters, static_ImagePreviewJS site)"
| "StaticController site TransportJS request counters = (counters, static_TransportJS site request)"
| "StaticController site ReliabilityJS request counters = (counters, static_ReliabilityJS site request)"
| "StaticController site FormatJS request counters = (counters, static_FormatJS site request)"
| "StaticController site StateJS request counters = (counters, static_StateJS site request)"
| "StaticController site UiJS request counters = (counters, static_UiJS site request)"
| "StaticController site ChatCSS request counters = (counters, static_ChatCSS site request)"

section \<open>The statistics endpoint\<close>

definition statistics_Stats :: "(StatPointDto list \<Rightarrow> string) \<Rightarrow> Statistics \<Rightarrow> Outcome" where
  "statistics_Stats writeJson s = Inr (typed_response ''application/json'' (getJsonData writeJson s))"

end
