(* ===== verification/Nickname.thy ===== *)
theory Nickname
  imports Prelude
begin

text \<open>
  The nicknames of \<^verbatim>\<open>server/src/utils/Nickname.cpp\<close>: three tables and a random choice from each. The
  avatars are given as the bytes of their UTF-8 encoding. The three draws of the random generator are
  arguments; \<^verbatim>\<open>uniform_int_distribution(0, n)\<close> returns a value from 0 to \<open>n\<close>.
\<close>

definition AVATARS_SIZE :: nat where "AVATARS_SIZE = 70"
definition ADJECTIVES_SIZE :: nat where "ADJECTIVES_SIZE = 103"
definition NOUNS_SIZE :: nat where "NOUNS_SIZE = 49"

definition avatar_bytes :: "nat list list" where
  "avatar_bytes = [
    [0xE2, 0x9A, 0xBD], [0xE2, 0x9B, 0x84], [0xF0, 0x9F, 0x8F, 0x96], [0xE2, 0x9B, 0xB5], [0xE2, 0x9B, 0xBA],
    [0xF0, 0x9F, 0x8C, 0x80], [0xF0, 0x9F, 0x8C, 0xAD], [0xF0, 0x9F, 0x8C, 0xB2], [0xF0, 0x9F, 0x8C, 0xB5],
    [0xF0, 0x9F, 0x8C, 0xB6], [0xF0, 0x9F, 0x8C, 0xBA], [0xF0, 0x9F, 0x8C, 0xBB], [0xF0, 0x9F, 0x8D, 0x80],
    [0xF0, 0x9F, 0x8D, 0x84], [0xF0, 0x9F, 0x8D, 0x95], [0xF0, 0x9F, 0x8D, 0xAD], [0xF0, 0x9F, 0x8E, 0x83],
    [0xF0, 0x9F, 0x8E, 0xBE], [0xF0, 0x9F, 0x90, 0x89], [0xF0, 0x9F, 0x90, 0x8C], [0xF0, 0x9F, 0x90, 0x9B],
    [0xF0, 0x9F, 0x90, 0xA0], [0xF0, 0x9F, 0x90, 0xBF], [0xF0, 0x9F, 0x94, 0xAE], [0xF0, 0x9F, 0x97, 0xBF],
    [0xF0, 0x9F, 0x9A, 0x8C], [0xF0, 0x9F, 0xA4, 0xA1], [0xF0, 0x9F, 0xA5, 0x90], [0xF0, 0x9F, 0xA6, 0x82],
    [0xF0, 0x9F, 0xA6, 0x84], [0xF0, 0x9F, 0xA6, 0x85], [0xF0, 0x9F, 0xA6, 0x89], [0xF0, 0x9F, 0xA6, 0x8B],
    [0xF0, 0x9F, 0xA6, 0x8D], [0xF0, 0x9F, 0xA6, 0x91], [0xF0, 0x9F, 0xA6, 0x81], [0xE2, 0x9B, 0xB0],
    [0xE2, 0x9B, 0xB2], [0xF0, 0x9F, 0x8C, 0x82], [0xF0, 0x9F, 0x8E, 0xB7], [0xF0, 0x9F, 0x8C, 0x8B],
    [0xF0, 0x9F, 0x8C, 0xAE], [0xF0, 0x9F, 0x8C, 0xB4], [0xF0, 0x9F, 0x8D, 0x81], [0xF0, 0x9F, 0x8D, 0x86],
    [0xF0, 0x9F, 0x8D, 0x94], [0xF0, 0x9F, 0x8D, 0xA1], [0xF0, 0x9F, 0x8D, 0xB0], [0xF0, 0x9F, 0x8E, 0x85],
    [0xF0, 0x9F, 0x8E, 0x88], [0xF0, 0x9F, 0x8E, 0xAD], [0xF0, 0x9F, 0x8E, 0xB2], [0xF0, 0x9F, 0x8E, 0xB8],
    [0xF0, 0x9F, 0x8E, 0xBA], [0xF0, 0x9F, 0x8E, 0xBB], [0xF0, 0x9F, 0x8F, 0x80], [0xF0, 0x9F, 0x8F, 0x82],
    [0xF0, 0x9F, 0x8F, 0x88], [0xF0, 0x9F, 0x8F, 0x89], [0xF0, 0x9F, 0x8F, 0x93], [0xF0, 0x9F, 0x8F, 0xB9],
    [0xF0, 0x9F, 0x8F, 0xBA], [0xF0, 0x9F, 0x90, 0x88], [0xF0, 0x9F, 0x90, 0x8B], [0xF0, 0x9F, 0x90, 0x9A],
    [0xF0, 0x9F, 0x90, 0x9D], [0xF0, 0x9F, 0x90, 0x9E], [0xF0, 0x9F, 0x90, 0xA1], [0xF0, 0x9F, 0x90, 0xA2],
    [0xF0, 0x9F, 0x90, 0xAB]]"

definition AVATARS :: "string list" where
  "AVATARS = map (map char_of) avatar_bytes"

definition ADJECTIVES :: "string list" where
  "ADJECTIVES = [
    ''Attractive'', ''Bald'', ''Beautiful'', ''Chubby'', ''Clean'', ''Dazzling'', ''Drab'', ''Elegant'',
    ''Fancy'', ''Fit'', ''Flabby'', ''Glamorous'', ''Gorgeous'', ''Handsome'', ''Long'', ''Magnificent'',
    ''Muscular'', ''Plain'', ''Plump'', ''Quaint'', ''Scruffy'', ''Shapely'', ''Short'', ''Skinny'', ''Stocky'',
    ''Ugly'', ''Unkempt'', ''Unsightly'', ''Ashy'', ''Black'', ''Blue'', ''Gray'', ''Green'', ''Icy'',
    ''Lemon'', ''Mango'', ''Orange'', ''Purple'', ''Red'', ''Salmon'', ''White'', ''Yellow'', ''Aggressive'',
    ''Agreeable'', ''Ambitious'', ''Brave'', ''Calm'', ''Delightful'', ''Eager'', ''Faithful'', ''Gentle'',
    ''Happy'', ''Jolly'', ''Kind'', ''Lively'', ''Nice'', ''Obedient'', ''Polite'', ''Proud'', ''Silly'',
    ''Thankful'', ''Victorious'', ''Witty'', ''Wonderful'', ''Zealous'', ''Broad'', ''Chubby'', ''Crooked'',
    ''Curved'', ''Deep'', ''Flat'', ''High'', ''Hollow'', ''Low'', ''Narrow'', ''Refined'', ''Round'',
    ''Shallow'', ''Skinny'', ''Square'', ''Steep'', ''Straight'', ''Wide'', ''Big'', ''Colossal'', ''Fat'',
    ''Gigantic'', ''Great'', ''Huge'', ''Immense'', ''Large'', ''Little'', ''Mammoth'', ''Massive'',
    ''Microscopic'', ''Miniature'', ''Petite'', ''Puny'', ''Scrawny'', ''Short'', ''Small'', ''Tall'',
    ''Teeny'', ''Tiny'']"

definition NOUNS :: "string list" where
  "NOUNS = [
    ''Area'', ''Book'', ''Business'', ''Case'', ''Child'', ''Company'', ''Country'', ''Day'', ''Eye'', ''Fact'',
    ''Family'', ''Government'', ''Group'', ''Hand'', ''Home'', ''Job'', ''Life'', ''Lot'', ''Man'', ''Money'',
    ''Month'', ''Mother'', ''Mr'', ''Night'', ''Number'', ''Part'', ''People'', ''Place'', ''Point'',
    ''Problem'', ''Program'', ''Question'', ''Right'', ''Room'', ''School'', ''State'', ''Story'', ''Student'',
    ''Study'', ''System'', ''Thing'', ''Time'', ''Water'', ''Way'', ''Week'', ''Woman'', ''Word'', ''Work'',
    ''World'', ''Year'']"

text \<open>\<open>None\<close>: a draw beyond its table, which would read out of bounds.\<close>

definition Nickname_random :: "nat \<Rightarrow> nat \<Rightarrow> nat \<Rightarrow> string option" where
  "Nickname_random aIndex jIndex nIndex =
     (if aIndex < length AVATARS \<and> jIndex < length ADJECTIVES \<and> nIndex < length NOUNS
      then Some (AVATARS ! aIndex @ '' '' @ ADJECTIVES ! jIndex @ '' '' @ NOUNS ! nIndex) else None)"

text \<open>The values the three distributions return.\<close>

definition Nickname_draw :: "nat \<Rightarrow> nat \<Rightarrow> nat \<Rightarrow> bool" where
  "Nickname_draw aIndex jIndex nIndex \<longleftrightarrow>
     aIndex \<le> AVATARS_SIZE - 1 \<and> jIndex \<le> ADJECTIVES_SIZE - 1 \<and> nIndex \<le> NOUNS_SIZE - 1"

lemma table_sizes: "length AVATARS = 70" "length ADJECTIVES = 104" "length NOUNS = 50"
  by (simp_all add: AVATARS_def avatar_bytes_def ADJECTIVES_def NOUNS_def)

text \<open>Every draw names an entry of each table.\<close>

lemma Nickname_random_defined:
  assumes "Nickname_draw a j n"
  shows "\<exists>av adj noun. Nickname_random a j n = Some (av @ '' '' @ adj @ '' '' @ noun)
    \<and> av \<in> set AVATARS \<and> adj \<in> set ADJECTIVES \<and> noun \<in> set NOUNS"
proof -
  have "a < length AVATARS" "j < length ADJECTIVES" "n < length NOUNS"
    using assms by (simp_all add: Nickname_draw_def table_sizes AVATARS_SIZE_def ADJECTIVES_SIZE_def NOUNS_SIZE_def)
  then show ?thesis unfolding Nickname_random_def by (metis nth_mem)
qed

text \<open>The constants are one less than the lengths of the last two tables: their last entries are never
  chosen.\<close>

lemma last_entries_never_drawn:
  assumes "Nickname_draw a j n"
  shows "Nickname_random a j n = Some (AVATARS ! a @ '' '' @ ADJECTIVES ! j @ '' '' @ NOUNS ! n)
    \<and> j < length ADJECTIVES - 1 \<and> n < length NOUNS - 1"
  using assms
  by (simp add: Nickname_random_def Nickname_draw_def table_sizes AVATARS_SIZE_def ADJECTIVES_SIZE_def NOUNS_SIZE_def)

end
