(* ===== verification/Endpoints.thy ===== *)
theory Endpoints
  imports Web Nickname ServerRuns
begin

text \<open>
  The endpoints that meet the rooms: the websocket endpoint of
  \<^verbatim>\<open>server/src/controller/RoomsController.hpp\<close>, whose parameters reach the lobby's listener, and the
  download of \<^verbatim>\<open>server/src/controller/FileController.hpp\<close>. The handshake and the conversion of the file id
  are oatpp's: the parameters \<open>handshake\<close> and \<open>strToInt64\<close>. Between the lookups of a download other steps may
  run; each is the operation the code calls.
\<close>

definition rooms_WS :: "ConfigDto \<Rightarrow> bool \<Rightarrow> (Request \<Rightarrow> Response) \<Rightarrow> string option \<Rightarrow> Request \<Rightarrow> Outcome" where
  "rooms_WS c developmentOverride handshake nickname request =
     (case rq_variable request ''roomId'' of
        None \<Rightarrow> Inl (400, ''Invalid room id'')
      | Some roomName \<Rightarrow>
          if \<not> validRoomId roomName then Inl (400, ''Invalid room id'')
          else (case rq_header request ''Origin'' of
            None \<Rightarrow> Inl (403, ''Invalid origin'')
          | Some origin \<Rightarrow>
              if \<not> isAllowedOrigin c origin developmentOverride then Inl (403, ''Invalid origin'')
              else (case nickname of
                None \<Rightarrow> Inl (400, ''No nickname specified.'')
              | Some nickname \<Rightarrow>
                  Inr ((handshake request)\<lparr>rs_parameters := [(''roomName'', roomName), (''nickname'', nickname)]\<rparr>))))"

definition disposition :: "string \<Rightarrow> string" where
  "disposition filename =
     ''attachment; filename='' @ [dquote] @ attachmentFilename filename @ [dquote]"

definition files_GetFile :: "(string option \<Rightarrow> int option) \<Rightarrow> Request \<Rightarrow> Server \<Rightarrow> Server \<times> Outcome" where
  "files_GetFile strToInt64 request st =
     (case valid_room request of
        Inl e \<Rightarrow> (st, Inl e)
      | Inr roomId \<Rightarrow>
          (case strToInt64 (rq_variable request ''fileId'') of
             None \<Rightarrow> (st, Inl (400, ''Invalid fileId''))
           | Some fileId \<Rightarrow>
               (case getRoom roomId st of
                  None \<Rightarrow> (st, Inl (404, ''Room not found''))
                | Some room \<Rightarrow>
                    (case Room_getFileById room fileId st of
                       None \<Rightarrow> (st, Inl (404, ''File not found''))
                     | Some fr \<Rightarrow>
                         (case File_subscribe_at fr st of
                            (st, None) \<Rightarrow> (st, Inl (429, ''Too many file subscribers''))
                          | (st, Some subscriber) \<Rightarrow>
                              (st, Inr (nosniff (putHeader ''Content-Type'' ''application/octet-stream''
                                 (putHeader ''content-disposition'' (disposition (f_fileName (st_files st fr)))
                                   (createResponse 200 (FileBody subscriber)))))))))))"

text \<open>The read callback of the response body counts what it delivers.\<close>

definition ReadCallback_read :: "Env \<Rightarrow> subscriber_ref \<Rightarrow> int \<Rightarrow> Server \<Rightarrow> Server \<times> ReadResult" where
  "ReadCallback_read env subscriber cnt st =
     (case Subscriber_readChunk_at env subscriber cnt st of
        (st, ReadBytes chunk) \<Rightarrow>
          (if chunk \<noteq> [] then st\<lparr>st_counters := counter_add FILE_SERVED_BYTES (of_nat (length chunk)) (st_counters st)\<rparr>
           else st, ReadBytes chunk)
      | (st, result) \<Rightarrow> (st, result))"

end
