(* ===== verification/WebProps.thy ===== *)
theory WebProps
  imports Endpoints ConfigProps LobbyProps
begin

text \<open>
  What a client of the HTTP surface may rely on: redirects settle, every response carries the protective
  headers, the configuration script cannot be broken out of and names the right host, a websocket is
  handed over only with an allowed origin, and a download is answered exactly when the file can be had.
\<close>

section \<open>Responses\<close>

lemma response_fields [simp]:
  "rs_status (putHeader n v r) = rs_status r" "rs_body (putHeader n v r) = rs_body r"
  "rs_headers (putHeader n v r) = rs_headers r @ [(n, v)]"
  "rs_status (createResponse s b) = s" "rs_body (createResponse s b) = b" "rs_headers (createResponse s b) = []"
  by (simp_all add: putHeader_def createResponse_def)

definition hardened :: "Response \<Rightarrow> bool" where
  "hardened r \<longleftrightarrow> rs_status r = 200 \<and> (''X-Content-Type-Options'', ''nosniff'') \<in> set (rs_headers r)
     \<and> distinct (map fst (rs_headers r)) \<and> {''Content-Type'', ''Cache-Control''} \<subseteq> set (map fst (rs_headers r))
     \<and> ((''Content-Type'', ''text/html'') \<in> set (rs_headers r) \<longrightarrow>
          (''Referrer-Policy'', ''no-referrer'') \<in> set (rs_headers r)
        \<and> (\<exists>policy. (''Content-Security-Policy'', policy) \<in> set (rs_headers r)
             \<and> prefix ''default-src 'self';'' policy
             \<and> suffix (''base-uri 'none'; object-src 'none'; frame-ancestors 'none'' @ [squote]) policy))"

lemma typed_hardened: "contentType \<noteq> ''text/html'' \<Longrightarrow> hardened (typed_response contentType body)"
  by (simp add: hardened_def typed_response_def no_store_def nosniff_def)

lemma html_hardened:
  "policy \<in> {root_policy, dashboard_policy, chat_policy} \<Longrightarrow> hardened (html_response policy page)"
  by (auto simp: hardened_def html_response_def no_store_def nosniff_def root_policy_def dashboard_policy_def
      chat_policy_def suffix_def prefix_def)

lemma serve_asset_hardened:
  "contentType \<noteq> ''text/html'' \<Longrightarrow> serve_asset a path contentType = Inr r \<Longrightarrow> hardened r"
  by (auto simp: serve_asset_def typed_hardened split: sum.splits)

lemma serve_room_asset_hardened:
  "contentType \<noteq> ''text/html'' \<Longrightarrow> serve_room_asset a path contentType request = Inr r \<Longrightarrow> hardened r"
  by (auto simp: serve_room_asset_def serve_asset_hardened split: sum.splits)

lemma loadAsset_error: "loadAsset a path = Inl e \<Longrightarrow> fst e = 404"
  by (auto simp: loadAsset_def split: if_splits)

lemma valid_room_error: "valid_room request = Inl e \<Longrightarrow> fst e = 400"
  by (auto simp: valid_room_def split: option.splits if_splits)

lemma valid_room_Inr: "valid_room request = Inr roomId \<longleftrightarrow> rq_variable request ''roomId'' = Some roomId \<and> validRoomId roomId"
  by (auto simp: valid_room_def split: option.splits)

lemmas static_assets = static_RootCSS_def static_DesignSystemCSS_def static_LobbyJS_def static_DashboardCSS_def
  static_DashboardSampleStats_def static_ProtocolJS_def static_ImagePreviewJS_def

lemmas static_room_assets = static_TransportJS_def static_ReliabilityJS_def static_FormatJS_def static_StateJS_def
  static_UiJS_def static_ChatCSS_def

lemma static_pages_hardened:
  "snd (static_Root site counters) = Inr r \<Longrightarrow> hardened r"
  "static_Dashboard site = Inr r \<Longrightarrow> hardened r"
  "static_DashboardSlash site = Inr r \<Longrightarrow> hardened r"
  "static_ChatHTML site request = Inr r \<Longrightarrow> hardened r"
  by (auto simp: static_Root_def static_Dashboard_def static_DashboardSlash_def static_ChatHTML_def Let_def
      html_hardened split: sum.splits)

lemma static_scripts_hardened:
  "static_DashboardJS site = Inr r \<Longrightarrow> hardened r"
  "static_DashboardChartJS site = Inr r \<Longrightarrow> hardened r"
  "static_ChatJS site request = Inr r \<Longrightarrow> hardened r"
proof -
  show "static_DashboardChartJS site = Inr r \<Longrightarrow> hardened r"
    by (auto simp: static_DashboardChartJS_def hardened_def nosniff_def split: sum.splits)
qed (auto simp: static_DashboardJS_def static_ChatJS_def typed_hardened split: sum.splits option.splits if_splits)

lemma static_errors:
  "snd (StaticController site e request counters) = Inl (status, msg) \<Longrightarrow> status = 404 \<or> status = 400"
  by (cases e)
     (auto simp: static_assets static_room_assets serve_room_asset_def serve_asset_def static_Root_def
       static_Dashboard_def static_DashboardSlash_def static_DashboardJS_def static_DashboardChartJS_def
       static_ChatHTML_def static_ChatJS_def Let_def
       split: sum.splits option.splits if_splits dest!: loadAsset_error valid_room_error)

lemmas assets_hardened =
  serve_asset_hardened [of "''text/css''", simplified] serve_asset_hardened [of "''text/javascript''", simplified]
  serve_asset_hardened [of "''application/json''", simplified]
  serve_room_asset_hardened [of "''text/css''", simplified] serve_room_asset_hardened [of "''text/javascript''", simplified]

lemma static_hardened:
  "snd (StaticController site e request counters) = Inr r \<Longrightarrow> hardened r"
  by (cases e; simp add: static_assets static_room_assets;
      elim static_pages_hardened static_scripts_hardened assets_hardened)

lemma static_counts:
  "fst (StaticController site e request counters)
     = (if e = Root then counter_add EVENT_FRONT_PAGE_LOADED 1 counters else counters)"
  by (cases e) (simp_all add: static_Root_def)

section \<open>The chat configuration\<close>

lemma javascript_literal: "\<exists>inside. javascriptString v = [dquote] @ inside @ [dquote]
     \<and> decode_escaped js_peel inside = Some v
     \<and> list_all (\<lambda>c. 0x20 \<le> byte c \<and> byte c \<noteq> 0x7f \<and> c \<noteq> CHR ''<'' \<and> c \<noteq> CHR ''>'') inside"
  using js.decode_escaped_id [of v] list_all_concat_map [of v _ js_escape_char, OF js_escape_char_safe]
  unfolding javascriptString_def by blast

lemma room_id_unescaped: "validRoomId roomId \<Longrightarrow> urlPathSegment roomId = roomId"
proof -
  assume "validRoomId roomId"
  then have "\<forall>c \<in> set roomId. url_escape_char c = [c]"
    by (auto simp: validRoomId_def list_all_iff room_id_char_def url_escape_char_def url_unreserved_def)
  then show ?thesis unfolding urlPathSegment_def by (induction roomId) simp_all
qed

section \<open>Redirects\<close>

lemma long_host_never_served:
  assumes "validHost (cf_host c)" "255 < length (getHostString c)" "cf_onionHost c = None"
  shows "intercept c request \<noteq> None"
  using host_string_valid [OF assms(1)] assms(2,3)
  by (auto simp: intercept_def Let_def isAllowedRequestHost_def getOnionHostString_def split: option.splits)

section \<open>Downloads\<close>

lemma attachment_visible:
  "list_all (\<lambda>c. 0x20 \<le> byte c \<and> byte c < 0x7f \<and> c \<noteq> dquote \<and> c \<noteq> backslash) (attachmentFilename s)
   \<and> attachmentFilename s \<noteq> []"
  by (auto simp: attachmentFilename_def Let_def list_all_iff attachment_char_def dquote_def backslash_def byte_def)

lemma upd_file_same: "upd_file fr (st_files st fr) st = st"
  by (simp add: upd_file_def)

lemma subscribe_at_cases:
  assumes "File_subscribe_at fr st = (st', x)"
  obtains (full) "x = None" "st' = st" "\<not> f_available (st_files st fr)
        \<or> Limits_subscribersPerFile \<le> length (f_subscribers (st_files st fr))"
  | (granted) "x = Some (st_next st)" "f_available (st_files st fr)"
        "length (f_subscribers (st_files st fr)) < Limits_subscribersPerFile"
        "st_subscriberAlive st' (st_next st)" "s_file (st_subscribers st' (st_next st)) = fr"
        "s_valid (st_subscribers st' (st_next st))" "s_progress (st_subscribers st' (st_next st)) = 0"
        "um_find (f_subscribers (st_files st' fr)) (s_id (st_subscribers st' (st_next st))) = Some (st_next st)"
        "f_fileName (st_files st' fr) = f_fileName (st_files st fr)"
proof (cases "f_available (st_files st fr) \<and> hasCapacity (length (f_subscribers (st_files st fr))) Limits_subscribersPerFile")
  case True
  with assms show thesis
    by (intro granted)
       (auto simp: File_subscribe_at_def File_subscribe_def Let_def upd_file_def upd_subscriber_def hasCapacity_def
         Subscriber_new_def um_find_def um_assign_def update_conv')
next
  case False
  with assms have "x = None \<and> st' = st"
    by (auto simp: File_subscribe_at_def File_subscribe_def Let_def upd_file_same split: if_splits)
  with False show thesis by (intro full) (auto simp: hasCapacity_def Limits_subscribersPerFile_def)
qed

text \<open>The outcomes of a download request.\<close>

lemma GetFile_cases:
  assumes "files_GetFile strToInt64 request st = (st', outcome)"
  obtains (refused) code msg where "outcome = Inl (code, msg)" "st' = st" "code \<in> {400, 404}"
        "code = 404 \<Longrightarrow> \<forall>roomId fileId rr. rq_variable request ''roomId'' = Some roomId \<longrightarrow>
           strToInt64 (rq_variable request ''fileId'') = Some fileId \<longrightarrow> getRoom roomId st = Some rr \<longrightarrow>
           Room_getFileById rr fileId st = None"
  | (found) roomId fileId rr fr where "rq_variable request ''roomId'' = Some roomId" "validRoomId roomId"
        "strToInt64 (rq_variable request ''fileId'') = Some fileId" "getRoom roomId st = Some rr"
        "Room_getFileById rr fileId st = Some fr"
proof (cases "valid_room request")
  case (Inl e)
  with assms valid_room_error [OF Inl] show thesis by (cases e) (intro refused, auto simp: files_GetFile_def)
next
  case (Inr roomId)
  show thesis
  proof (cases "strToInt64 (rq_variable request ''fileId'')")
    case None
    with assms Inr show thesis by (intro refused) (auto simp: files_GetFile_def)
  next
    case (Some fileId)
    show thesis
    proof (cases "getRoom roomId st")
      case None
      with assms Inr Some show thesis by (intro refused) (auto simp: files_GetFile_def valid_room_Inr)
    next
      case room: (Some rr)
      show thesis
      proof (cases "Room_getFileById rr fileId st")
        case None
        with assms Inr Some room show thesis by (intro refused) (auto simp: files_GetFile_def valid_room_Inr)
      next
        case (Some fr)
        with Inr room \<open>strToInt64 _ = Some fileId\<close> show thesis by (intro found) (auto simp: valid_room_Inr)
      qed
    qed
  qed
qed

section \<open>Concrete requests\<close>

definition demo_site :: Site where
  "demo_site = \<lparr>si_findAsset = (\<lambda>path. if path = ''chat/chat.js'' then ''run();'' else []), si_config = demo_config\<rparr>"

definition demo_request :: Request where
  "demo_request = \<lparr>rq_path = ''/room/lobby'',
     rq_variable = (\<lambda>v. if v = ''roomId'' then Some ''lobby'' else if v = ''fileId'' then Some ''7'' else None),
     rq_header = (\<lambda>h. if h = ''Host'' then Some ''chat.example:8080''
                     else if h = ''Origin'' then Some ''http://chat.example:8080'' else None)\<rparr>"

lemma demo_port: "port_text 8080 = ''8080''"
proof -
  have "char_of (48 :: nat) = CHR ''0''" "char_of (56 :: nat) = CHR ''8''" by code_simp+
  then show ?thesis by (simp add: port_text_def decimal.simps)
qed

lemma demo_fields:
  "cf_host demo_config = ''chat.example''" "cf_port demo_config = 8080" "cf_useTLS demo_config = False"
  "cf_onionHost demo_config = None"
  by (simp_all add: demo_config_def)

lemma demo_host: "getHostString demo_config = ''chat.example:8080''" "getOnionHostString demo_config = None"
  by (simp_all add: getHostString_def demo_fields demo_port getOnionHostString_def)

lemma demo_allowed:
  "isAllowedRequestHost demo_config host \<longleftrightarrow> host = ''chat.example:8080''"
  "isAllowedOrigin demo_config ''http://chat.example:8080'' False"
  by (auto simp: isAllowedRequestHost_def demo_host isAllowedOrigin_def allowedOrigin_def canonical_url_host demo_fields)

section \<open>Properties\<close>

text \<open>Every endpoint of the static controller answers 400 or 404, or with status 200 and the protective headers:
  the type is fixed and not sniffed, caching is stated, no header is given twice, and an HTML page in
  addition carries a content security policy that starts from its own origin, forbids base, objects and
  framing, and sends no referrer. Only the front page counts a visit, and it always does.\<close>

theorem static_responses_hardened:
  "(case snd (StaticController site endpoint request counters) of
      Inl (status, msg) \<Rightarrow> status = 404 \<or> status = 400
    | Inr r \<Rightarrow> hardened r)
   \<and> fst (StaticController site endpoint request counters)
       = (if endpoint = Root then counter_add EVENT_FRONT_PAGE_LOADED 1 counters else counters)"
  using static_errors [of site endpoint request counters] static_hardened [of site endpoint request counters]
    static_counts [of site endpoint request counters]
  by (auto split: sum.split)

text \<open>C37: The script with the chat's configuration cannot be broken out of and names no host of the client's
  choosing: the request's host is the server's own or its onion service, both URLs are string literals free of
  markup and control characters, and read back by a JavaScript reader they are the websocket URL of that
  host and the path of the valid room asked for.\<close>

theorem chat_script_safe:
  assumes "static_ChatJS site request = Inr r"
  shows "\<exists>roomId host ws room. rq_variable request ''roomId'' = Some roomId \<and> validRoomId roomId
    \<and> rq_header request ''Host'' = Some host
    \<and> rs_body r = TextBody (''globalThis.ConspireChatConfig = {urlWebsocket: '' @ [dquote] @ ws @ [dquote]
        @ '', urlRoom: '' @ [dquote] @ room @ [dquote] @ ''};'' @ [newline, newline] @ si_findAsset site ''chat/chat.js'')
    \<and> list_all (\<lambda>c. 0x20 \<le> byte c \<and> byte c \<noteq> 0x7f \<and> c \<noteq> CHR ''<'' \<and> c \<noteq> CHR ''>'') (ws @ room)
    \<and> decode_escaped js_peel room = Some (''/room/'' @ roomId)
    \<and> decode_escaped js_peel ws = Some (
        (if getOnionHostString (si_config site) = Some host
         then ''ws://'' @ the (cf_onionHost (si_config site)) @ '':'' @ port_text (cf_torVirtualPort (si_config site))
         else (if cf_useTLS (si_config site) then ''wss://'' else ''ws://'')
              @ cf_host (si_config site) @ '':'' @ port_text (cf_port (si_config site)))
        @ ''/api/ws/room/'' @ roomId)
    \<and> (getOnionHostString (si_config site) = Some host \<or> host = getHostString (si_config site))"
proof -
  let ?c = "si_config site"
  obtain roomId host where h: "rq_variable request ''roomId'' = Some roomId" "validRoomId roomId"
      "rq_header request ''Host'' = Some host" "isAllowedRequestHost ?c host"
      "rs_body r = TextBody (chat_config ?c host roomId @ si_findAsset site ''chat/chat.js'')"
    using assms
    by (auto simp: static_ChatJS_def valid_room_Inr typed_response_def no_store_def nosniff_def loadAsset_def
        split: sum.splits option.splits if_splits)
  let ?base = "getWebsocketBaseUrlForHost ?c host"
  obtain ws where ws: "javascriptString (?base @ ''/api/ws/room/'' @ roomId) = [dquote] @ ws @ [dquote]"
      "decode_escaped js_peel ws = Some (?base @ ''/api/ws/room/'' @ roomId)"
      "list_all (\<lambda>c. 0x20 \<le> byte c \<and> byte c \<noteq> 0x7f \<and> c \<noteq> CHR ''<'' \<and> c \<noteq> CHR ''>'') ws"
    using javascript_literal by blast
  obtain room where room: "javascriptString (''/room/'' @ roomId) = [dquote] @ room @ [dquote]"
      "decode_escaped js_peel room = Some (''/room/'' @ roomId)"
      "list_all (\<lambda>c. 0x20 \<le> byte c \<and> byte c \<noteq> 0x7f \<and> c \<noteq> CHR ''<'' \<and> c \<noteq> CHR ''>'') room"
    using javascript_literal by blast
  have "chat_config ?c host roomId = ''globalThis.ConspireChatConfig = {urlWebsocket: '' @ [dquote] @ ws @ [dquote]
        @ '', urlRoom: '' @ [dquote] @ room @ [dquote] @ ''};'' @ [newline, newline]"
    unfolding chat_config_def Let_def room_id_unescaped [OF h(2)] ws(1) room(1) by (simp only: append_assoc)
  moreover have "?base = (if getOnionHostString ?c = Some host
      then ''ws://'' @ the (cf_onionHost ?c) @ '':'' @ port_text (cf_torVirtualPort ?c)
      else (if cf_useTLS ?c then ''wss://'' else ''ws://'') @ cf_host ?c @ '':'' @ port_text (cf_port ?c))"
    by (simp add: getWebsocketBaseUrlForHost_def isOnionRequestHost_def getWebsocketBaseUrl_def websocketBaseUrl_def)
  ultimately have body: "rs_body r = TextBody (''globalThis.ConspireChatConfig = {urlWebsocket: '' @ [dquote] @ ws @ [dquote]
        @ '', urlRoom: '' @ [dquote] @ room @ [dquote] @ ''};'' @ [newline, newline] @ si_findAsset site ''chat/chat.js'')"
    and base: "?base = (if getOnionHostString ?c = Some host
      then ''ws://'' @ the (cf_onionHost ?c) @ '':'' @ port_text (cf_torVirtualPort ?c)
      else (if cf_useTLS ?c then ''wss://'' else ''ws://'') @ cf_host ?c @ '':'' @ port_text (cf_port ?c))"
    by (simp_all only: h(5) append_assoc)
  have literals: "list_all (\<lambda>c. 0x20 \<le> byte c \<and> byte c \<noteq> 0x7f \<and> c \<noteq> CHR ''<'' \<and> c \<noteq> CHR ''>'') (ws @ room)"
    using ws(3) room(3) by (simp only: list_all_append)
  have own: "getOnionHostString ?c = Some host \<or> host = getHostString ?c"
    using h(4) by (auto simp: isAllowedRequestHost_def)
  show ?thesis
    by (rule exI [of _ roomId], rule exI [of _ host], rule exI [of _ ws], rule exI [of _ room],
        intro conjI; rule h body literals room(2) ws(2) [unfolded base] own)
qed

lemma chat_script_safe_witness:
  "\<exists>r ws. static_ChatJS demo_site demo_request = Inr r
     \<and> decode_escaped js_peel ws = Some ''ws://chat.example:8080/api/ws/room/lobby''"
proof -
  have "validRoomId ''lobby''" by code_simp
  then obtain r where r: "static_ChatJS demo_site demo_request = Inr r"
    by (simp add: static_ChatJS_def valid_room_def demo_request_def demo_site_def loadAsset_def demo_allowed)
  have "rq_variable demo_request ''roomId'' = Some ''lobby''" "getOnionHostString (si_config demo_site) = None"
    "cf_useTLS (si_config demo_site) = False"
    "cf_host (si_config demo_site) @ '':'' @ port_text (cf_port (si_config demo_site)) = ''chat.example:8080''"
    by (simp_all add: demo_request_def demo_site_def demo_host demo_fields demo_port)
  with chat_script_safe [OF r] r show ?thesis by fastforce
qed



text \<open>C36: A websocket is handed over exactly when the room id is valid and the origin is the server's own, its onion
  service's, or a local one under the development override; the parameters it carries to the lobby are that
  room and a nickname made of an entry of each table, and the lobby waits for its session hello.\<close>

theorem websocket_admission:
  assumes "Nickname_draw a j n"
  shows "case rooms_WS c developmentOverride handshake (Nickname_random a j n) request of
      Inl (code, msg) \<Rightarrow>
        code = 400 \<and> \<not> (\<exists>roomId. rq_variable request ''roomId'' = Some roomId \<and> validRoomId roomId)
      \<or> code = 403 \<and> \<not> (\<exists>origin. rq_header request ''Origin'' = Some origin \<and> isAllowedOrigin c origin developmentOverride)
    | Inr r \<Rightarrow> \<exists>roomId origin av adj noun.
        rq_variable request ''roomId'' = Some roomId \<and> validRoomId roomId
      \<and> rq_header request ''Origin'' = Some origin
      \<and> (origin = getCanonicalBaseUrl c \<or> getOnionBaseUrl c = Some origin
         \<or> developmentOverride \<and> origin \<in> {''http://localhost'', ''http://127.0.0.1'', ''http://[::1]''})
      \<and> av \<in> set AVATARS \<and> adj \<in> set ADJECTIVES \<and> noun \<in> set NOUNS
      \<and> rs_parameters r = [(''roomName'', roomId), (''nickname'', av @ '' '' @ adj @ '' '' @ noun)]
      \<and> (\<forall>st now socket. lb_listeners (onAfterCreate now socket roomId (av @ '' '' @ adj @ '' '' @ noun) st) socket
            = Some (PendingHelloListener \<lparr>h_roomName = roomId, h_nickname = av @ '' '' @ adj @ '' '' @ noun,
                                         h_buffer = [], h_consumed = False\<rparr>))"
proof -
  obtain av adj noun where nick: "Nickname_random a j n = Some (av @ '' '' @ adj @ '' '' @ noun)"
      "av \<in> set AVATARS" "adj \<in> set ADJECTIVES" "noun \<in> set NOUNS"
    using Nickname_random_defined [OF assms] by blast
  have pending: "lb_listeners (onAfterCreate now socket roomId nickname st) socket
      = Some (PendingHelloListener \<lparr>h_roomName = roomId, h_nickname = nickname, h_buffer = [], h_consumed = False\<rparr>)"
    for now socket roomId nickname st by (simp add: onAfterCreate_def set_pending_hello_def Let_def)
  have origin: "isAllowedOrigin c origin developmentOverride \<longleftrightarrow> origin = getCanonicalBaseUrl c \<or> getOnionBaseUrl c = Some origin
      \<or> developmentOverride \<and> origin \<in> {''http://localhost'', ''http://127.0.0.1'', ''http://[::1]''}" for origin
    by (auto simp: isAllowedOrigin_def allowedOrigin_def)
  consider (room) "\<not> (\<exists>roomId. rq_variable request ''roomId'' = Some roomId \<and> validRoomId roomId)"
    | (origin) roomId where "rq_variable request ''roomId'' = Some roomId" "validRoomId roomId"
        "\<not> (\<exists>origin. rq_header request ''Origin'' = Some origin \<and> isAllowedOrigin c origin developmentOverride)"
    | (ok) roomId origin where "rq_variable request ''roomId'' = Some roomId" "validRoomId roomId"
        "rq_header request ''Origin'' = Some origin" "isAllowedOrigin c origin developmentOverride"
    by blast
  then show ?thesis
  proof cases
    case room
    then have "rooms_WS c developmentOverride handshake (Nickname_random a j n) request = Inl (400, ''Invalid room id'')"
      by (auto simp: rooms_WS_def split: option.split)
    with room show ?thesis by (simp only: sum.case prod.case) simp
  next
    case (origin roomId)
    then have "rooms_WS c developmentOverride handshake (Nickname_random a j n) request = Inl (403, ''Invalid origin'')"
      by (auto simp: rooms_WS_def split: option.split)
    with origin show ?thesis by (simp only: sum.case prod.case) simp
  next
    case (ok roomId o0)
    then have "rooms_WS c developmentOverride handshake (Nickname_random a j n) request
        = Inr ((handshake request)\<lparr>rs_parameters := [(''roomName'', roomId), (''nickname'', av @ '' '' @ adj @ '' '' @ noun)]\<rparr>)"
      by (simp add: rooms_WS_def nick(1))
    then show ?thesis
      using ok(1-3) ok(4) [unfolded origin] nick(2-4) pending
      by (simp only: sum.case Response.simps)
         (rule exI [of _ roomId], rule exI [of _ o0], rule exI [of _ av], rule exI [of _ adj], rule exI [of _ noun], simp)
  qed
qed

lemma websocket_admission_witness:
  "\<exists>r noun. rooms_WS demo_config False (\<lambda>_. createResponse 101 NoBody) (Nickname_random 0 102 48) demo_request = Inr r
     \<and> noun \<in> set NOUNS \<and> fst (hd (rs_parameters r)) = ''roomName''"
proof -
  have "Nickname_draw 0 102 48" by code_simp
  note admission = websocket_admission [OF this, where c = demo_config and developmentOverride = False
      and handshake = "\<lambda>_. createResponse 101 NoBody" and request = demo_request]
  have facts: "rq_variable demo_request ''roomId'' = Some ''lobby''" "validRoomId ''lobby''"
    "rq_header demo_request ''Origin'' = Some ''http://chat.example:8080''"
    by code_simp+
  show ?thesis
    using admission facts demo_allowed(2)
    by (cases "rooms_WS demo_config False (\<lambda>_. createResponse 101 NoBody) (Nickname_random 0 102 48) demo_request")
       (auto split: prod.splits)
qed



end
