(* ===== verification/Lifecycle.thy ===== *)
theory Lifecycle
  imports TorText
begin

text \<open>
  The periodic worker and the PID file of \<^verbatim>\<open>server/src/utils/Lifecycle.hpp\<close>. A \<open>PeriodicRunner\<close> is used by
  two threads: the owner, which starts and stops it, and the worker. \<open>runner_step\<close> makes one atomic step of
  either; \<open>None\<close> means that the step is not enabled. The waits of the condition variable follow the
  standard: the predicate is tested before blocking and after every wake-up, a time-out ends the wait with
  the predicate's value, and a notification reaches only a thread that is blocked.
\<close>

section \<open>The periodic runner\<close>

text \<open>Where the worker is: at the head of the loop; testing the predicate; past the test but not yet blocked;
  blocked; awake again; timed out; in the callback; behind the loop; returned and not yet joined.\<close>

datatype WorkerState =
    NoThread | LoopHead | Testing | Entering | Blocked | Awake | TimedOut | InCallback | Leaving | Returned

text \<open>Where the owner is in \<^verbatim>\<open>stop()\<close>: outside, after setting the flag, after the notification.\<close>

datatype OwnerState = Outside | FlagSet | Notified

record PeriodicRunner =
  rn_stopping :: bool
  rn_running :: bool
  rn_failed :: bool
  rn_thread :: WorkerState
  rn_owner :: OwnerState
  rn_calls :: nat

definition PeriodicRunner_new :: PeriodicRunner where
  "PeriodicRunner_new = \<lparr>rn_stopping = False, rn_running = False, rn_failed = False, rn_thread = NoThread,
     rn_owner = Outside, rn_calls = 0\<rparr>"

text \<open>\<^verbatim>\<open>start\<close>: whether an iteration is given and whether the thread can be created.\<close>

definition runner_start :: "bool \<Rightarrow> bool \<Rightarrow> PeriodicRunner \<Rightarrow> PeriodicRunner \<times> bool" where
  "runner_start hasIteration threadCreated r =
     (if rn_thread r \<noteq> NoThread \<or> \<not> hasIteration then (r, False)
      else
        let r = r\<lparr>rn_stopping := False, rn_failed := False, rn_running := True\<rparr>
        in if threadCreated then (r\<lparr>rn_thread := LoopHead\<rparr>, True)
           else (r\<lparr>rn_running := False, rn_stopping := True\<rparr>, False))"

datatype RunnerEvent =
    Start bool bool
  | SetStopping
  | NotifyAll
  | Join
  | Proceed
  | TimeOut
  | SpuriousWake
  | CallbackThrows

definition runner_work :: "PeriodicRunner \<Rightarrow> PeriodicRunner option" where
  "runner_work r =
     (case rn_thread r of
        LoopHead \<Rightarrow> Some (r\<lparr>rn_thread := if rn_stopping r then Leaving else Testing\<rparr>)
      | Testing \<Rightarrow> Some (r\<lparr>rn_thread := if rn_stopping r then Leaving else Entering\<rparr>)
      | Entering \<Rightarrow> Some (r\<lparr>rn_thread := Blocked\<rparr>)
      | Awake \<Rightarrow> Some (r\<lparr>rn_thread := Testing\<rparr>)
      | TimedOut \<Rightarrow> Some (if rn_stopping r then r\<lparr>rn_thread := Leaving\<rparr>
                         else r\<lparr>rn_thread := InCallback, rn_calls := Suc (rn_calls r)\<rparr>)
      | InCallback \<Rightarrow> Some (r\<lparr>rn_thread := LoopHead\<rparr>)
      | Leaving \<Rightarrow> Some (r\<lparr>rn_running := False, rn_thread := Returned\<rparr>)
      | _ \<Rightarrow> None)"

fun runner_step :: "RunnerEvent \<Rightarrow> PeriodicRunner \<Rightarrow> PeriodicRunner option" where
  "runner_step (Start hasIteration threadCreated) r =
     (if rn_owner r = Outside then Some (fst (runner_start hasIteration threadCreated r)) else None)"
| "runner_step SetStopping r =
     (if rn_owner r = Outside then Some (r\<lparr>rn_stopping := True, rn_owner := FlagSet\<rparr>) else None)"
| "runner_step NotifyAll r =
     (if rn_owner r = FlagSet
      then Some (r\<lparr>rn_owner := Notified, rn_thread := if rn_thread r = Blocked then Awake else rn_thread r\<rparr>) else None)"
| "runner_step Join r =
     (if rn_owner r = Notified \<and> rn_thread r \<in> {NoThread, Returned}
      then Some (r\<lparr>rn_owner := Outside, rn_thread := NoThread, rn_running := False\<rparr>) else None)"
| "runner_step Proceed r = runner_work r"
| "runner_step TimeOut r = (if rn_thread r = Blocked then Some (r\<lparr>rn_thread := TimedOut\<rparr>) else None)"
| "runner_step SpuriousWake r = (if rn_thread r = Blocked then Some (r\<lparr>rn_thread := Awake\<rparr>) else None)"
| "runner_step CallbackThrows r =
     (if rn_thread r = InCallback
      then Some (r\<lparr>rn_failed := True, rn_stopping := True, rn_thread := LoopHead\<rparr>) else None)"

definition runner_run :: "RunnerEvent list \<Rightarrow> PeriodicRunner \<Rightarrow> PeriodicRunner option" where
  "runner_run es r = run_events runner_step es r"

lemma runner_run_simps [simp]:
  "runner_run [] r = Some r"
  "runner_run (e # es) r = (case runner_step e r of None \<Rightarrow> None | Some r \<Rightarrow> runner_run es r)"
  by (simp_all add: runner_run_def split: option.split)

section \<open>The PID file\<close>

text \<open>The object with the part of the file system it writes.\<close>

record PidFile =
  pd_path :: string
  pd_files :: "string \<Rightarrow> string option"

definition PidFile_active :: "PidFile \<Rightarrow> bool" where
  "PidFile_active p \<longleftrightarrow> pd_path p \<noteq> []"

definition PidFile_reset :: "PidFile \<Rightarrow> PidFile" where
  "PidFile_reset p =
     (if pd_path p \<noteq> [] then p\<lparr>pd_files := (pd_files p)(pd_path p := None), pd_path := []\<rparr> else p)"

text \<open>\<open>opened\<close>: the stream opens (and truncates); \<open>written\<close>: writing and closing succeed.\<close>

definition PidFile_create :: "nat \<Rightarrow> bool \<Rightarrow> bool \<Rightarrow> string \<Rightarrow> PidFile \<Rightarrow> PidFile \<times> bool" where
  "PidFile_create pid opened written path p =
     (let p = PidFile_reset p
      in if path = [] then (p, True)
         else if \<not> opened then (p, False)
         else if \<not> written then (p\<lparr>pd_files := (pd_files p)(path := None)\<rparr>, False)
         else (p\<lparr>pd_files := (pd_files p)(path \<mapsto> decimal pid @ [newline]), pd_path := path\<rparr>, True))"

section \<open>Invariants of the runner\<close>

definition runner_ok :: "PeriodicRunner \<Rightarrow> bool" where
  "runner_ok r \<longleftrightarrow> (rn_owner r \<noteq> Outside \<longrightarrow> rn_stopping r)
     \<and> (rn_running r \<longleftrightarrow> rn_thread r \<notin> {NoThread, Returned})
     \<and> (rn_failed r \<and> rn_thread r \<noteq> NoThread \<longrightarrow> rn_stopping r)
     \<and> (rn_thread r \<in> {Leaving, Returned} \<longrightarrow> rn_stopping r)"

lemma runner_step_ok: "runner_ok r \<Longrightarrow> runner_step e r = Some r' \<Longrightarrow> runner_ok r'"
  by (cases e; cases "rn_thread r")
     (auto simp: runner_ok_def runner_start_def runner_work_def Let_def split: if_splits)

interpretation runner: machine runner_step "\<lambda>_. True" runner_ok
  by unfold_locales (rule runner_step_ok)

lemma runner_run_ok: "runner_ok r \<Longrightarrow> runner_run es r = Some r' \<Longrightarrow> runner_ok r'"
  using runner.run_inv [of r es r'] by (simp add: runner_run_def list_all_iff)

lemma runner_new_ok: "runner_ok PeriodicRunner_new"
  by (simp add: runner_ok_def PeriodicRunner_new_def)

text \<open>How far the worker is from its return once it is to stop.\<close>

definition stop_distance :: "PeriodicRunner \<Rightarrow> nat" where
  "stop_distance r = (case rn_thread r of
     InCallback \<Rightarrow> 3 | LoopHead \<Rightarrow> 2 | Entering \<Rightarrow> 5 | Blocked \<Rightarrow> 4 | Awake \<Rightarrow> 3 | Testing \<Rightarrow> 2 | TimedOut \<Rightarrow> 2
   | Leaving \<Rightarrow> 1 | Returned \<Rightarrow> 0 | NoThread \<Rightarrow> 0)"

definition owner_event :: "RunnerEvent \<Rightarrow> bool" where
  "owner_event e \<longleftrightarrow> (case e of Start _ _ \<Rightarrow> True | SetStopping \<Rightarrow> True | NotifyAll \<Rightarrow> True | Join \<Rightarrow> True | _ \<Rightarrow> False)"

definition start_event :: "RunnerEvent \<Rightarrow> bool" where
  "start_event e \<longleftrightarrow> (case e of Start _ _ \<Rightarrow> True | _ \<Rightarrow> False)"

lemma no_start_events: "(\<forall>a b. Start a b \<notin> set es) \<longleftrightarrow> list_all (\<lambda>e. \<not> start_event e) es"
  by (auto simp: list_all_iff start_event_def split: RunnerEvent.split)

text \<open>While it is to stop no callback is entered, and every step of the worker brings it nearer to its return.\<close>

interpretation stopping: terminating_machine runner_step "\<lambda>e. \<not> start_event e"
    "\<lambda>r. rn_stopping r \<and> rn_calls r = n" "\<lambda>e. \<not> owner_event e" stop_distance for n
proof
  fix r r' e
  assume r: "rn_stopping r \<and> rn_calls r = n" "\<not> start_event e" "runner_step e r = Some r'"
  then show "rn_stopping r' \<and> rn_calls r' = n" "stop_distance r' \<le> stop_distance r"
    by (cases e; cases "rn_thread r";
        auto simp: runner_work_def stop_distance_def start_event_def split: if_splits)+
  show "stop_distance r' < stop_distance r" if "\<not> owner_event e"
    using r that
    by (cases e; cases "rn_thread r") (auto simp: runner_work_def stop_distance_def owner_event_def split: if_splits)
qed

text \<open>While the owner waits in \<open>stop\<close> and the worker has not returned, some step of the worker is enabled.\<close>

lemma worker_enabled:
  "rn_thread r \<notin> {NoThread, Returned} \<Longrightarrow> \<exists>e r'. \<not> owner_event e \<and> runner_step e r = Some r'"
proof -
  assume "rn_thread r \<notin> {NoThread, Returned}"
  then have "(\<exists>r'. runner_step Proceed r = Some r') \<or> (\<exists>r'. runner_step TimeOut r = Some r')"
    by (cases "rn_thread r") (simp_all add: runner_work_def)
  moreover have "\<not> owner_event Proceed" "\<not> owner_event TimeOut" by (simp_all add: owner_event_def)
  ultimately show ?thesis by blast
qed

text \<open>After the join there is no worker until the next start.\<close>

interpretation joined: machine runner_step "\<lambda>e. \<not> start_event e"
    "\<lambda>r. rn_thread r = NoThread \<and> \<not> rn_running r \<and> rn_calls r = n" for n
proof
  fix r r' e
  assume "rn_thread r = NoThread \<and> \<not> rn_running r \<and> rn_calls r = n" "\<not> start_event e" "runner_step e r = Some r'"
  then show "rn_thread r' = NoThread \<and> \<not> rn_running r' \<and> rn_calls r' = n"
    by (cases e) (auto simp: runner_work_def start_event_def split: if_splits)
qed

section \<open>Properties\<close>



text \<open>A callback is never invoked after \<open>stop\<close> has joined the worker: from the join on, until the next start,
  there is no thread, the runner does not run and the number of callbacks stays what it was.\<close>

theorem no_callback_after_join:
  assumes "runner_run es PeriodicRunner_new = Some r" and "runner_step Join r = Some r1"
    and "runner_run fs r1 = Some r'" and "\<forall>a b. Start a b \<notin> set fs"
  shows "rn_thread r' = NoThread \<and> \<not> rn_running r' \<and> rn_calls r' = rn_calls r"
proof -
  have "rn_thread r1 = NoThread" "\<not> rn_running r1" "rn_calls r1 = rn_calls r"
    using assms(2) by (auto split: if_splits)
  with joined.run_inv [of r1 "rn_calls r" fs r'] assms(3,4) show ?thesis
    by (simp add: no_start_events runner_run_def)
qed

lemma no_callback_after_join_witness:
  "\<exists>r'. runner_run [SetStopping, NotifyAll, Join] (PeriodicRunner_new\<lparr>rn_stopping := True\<rparr>) = Some r'
     \<and> rn_thread r' = NoThread \<and> \<not> rn_running r' \<and> rn_calls r' = 0"
proof -
  let ?r = "PeriodicRunner_new\<lparr>rn_stopping := True, rn_owner := Notified\<rparr>"
  let ?r1 = "PeriodicRunner_new\<lparr>rn_stopping := True\<rparr>"
  have "runner_run [SetStopping, NotifyAll] PeriodicRunner_new = Some ?r" "runner_step Join ?r = Some ?r1"
    "runner_run [SetStopping, NotifyAll, Join] ?r1 = Some ?r1"
    by (simp_all add: PeriodicRunner_new_def)
  from no_callback_after_join [OF this] this(3) show ?thesis by (auto simp: PeriodicRunner_new_def)
qed

text \<open>C40: The notification of a stop can be lost: \<open>stop\<close> sets the flag and notifies without holding the mutex, so when
  this happens between the worker's test and its wait, the worker blocks with the flag set while the owner
  waits for it, and neither the worker nor the owner has a step left; only the time-out or a spurious
  wake-up, up to a whole interval later, lets the stop go on.\<close>

theorem stop_wakeup_lost:
  "\<exists>r. runner_run [Start True True, Proceed, Proceed, SetStopping, NotifyAll, Proceed] PeriodicRunner_new = Some r
    \<and> rn_stopping r \<and> rn_thread r = Blocked \<and> rn_owner r = Notified
    \<and> {e. runner_step e r \<noteq> None} = {TimeOut, SpuriousWake}"
proof -
  let ?r = "PeriodicRunner_new\<lparr>rn_stopping := True, rn_running := True, rn_thread := Blocked, rn_owner := Notified\<rparr>"
  have "runner_run [Start True True, Proceed, Proceed, SetStopping, NotifyAll, Proceed] PeriodicRunner_new = Some ?r"
    by (simp add: PeriodicRunner_new_def runner_start_def runner_work_def)
  moreover have "runner_step e ?r \<noteq> None \<longleftrightarrow> e \<in> {TimeOut, SpuriousWake}" for e
    by (cases e) (simp_all add: PeriodicRunner_new_def runner_work_def)
  ultimately show ?thesis by (intro exI [of _ ?r]) (simp add: PeriodicRunner_new_def set_eq_iff)
qed

end
