(* ===== verification/App.thy ===== *)
theory App
  imports Config TorControl Statistics Lifecycle
begin

text \<open>
  The life of the process, \<^verbatim>\<open>run()\<close> in \<^verbatim>\<open>server/src/App.cpp\<close>: the order in which the components are started
  and stopped on every path. The state holds the configuration, the onion service, the statistics and the
  PID file; what is done to oatpp's objects, the threads and the runners is recorded as a list of events.
  \<open>World\<close> is what the surroundings answer. Log output and the four signals are left out; the bodies of
  the workers are \<open>runPingIteration\<close>, \<open>expireSessions\<close>, \<open>runStatIteration\<close> and \<open>saveState\<close>.
\<close>

text \<open>The listeners: what oatpp's connection providers are created with. The public one is a component
  (\<^verbatim>\<open>AppComponent.hpp\<close>).\<close>

datatype ConnectionProvider =
    TlsProvider "string option" "string option" string u16
  | TcpProvider string u16

definition serverConnectionProvider :: "ConfigDto \<Rightarrow> ConnectionProvider" where
  "serverConnectionProvider c =
     (if cf_useTLS c
      then TlsProvider (cf_tlsCertificateChainPath c) (cf_tlsPrivateKeyPath c) ''0.0.0.0'' (cf_port c)
      else TcpProvider ''0.0.0.0'' (cf_port c))"

datatype WorkerName = PingRunner | SessionRunner | StatisticsRunner | StatisticsPersistenceRunner

datatype AppEvent =
    PrintVersion
  | PrintHelp
  | CreateComponents
  | SetupSignalHandlers
  | AddController string
  | CreateServer ConnectionProvider
  | CreateTorProvider ConnectionProvider
  | ResetTorProvider
  | CreateTorServer
  | StartServerThread
  | StartTorServerThread
  | StartRunner WorkerName
  | StopRunner WorkerName
  | WaitForShutdown
  | StopTorServer
  | JoinTorServerThread
  | StopServer
  | JoinServerThread
  | StopConnectionHandler
  | WaitTasksFinished
  | SaveState string
  | StopExecutor
  | JoinExecutor

text \<open>\<open>wo_torProvider\<close>: the loopback listener can be opened; \<open>wo_runner\<close>: the thread of a worker can be
  created; \<open>wo_clocks\<close>: the clock at the load, the first sample and the last one; \<open>wo_periodic\<close>: what the
  statistics have become when the workers have stopped.\<close>

record World =
  wo_tor :: TorSystem
  wo_torProvider :: bool
  wo_pid :: nat
  wo_pidOpened :: bool
  wo_pidWritten :: bool
  wo_readJson :: "string \<Rightarrow> StatPointDto option list option option"
  wo_writeJson :: "StatPointDto list \<Rightarrow> string"
  wo_stateFile :: "string \<Rightarrow> StateFile"
  wo_clocks :: "int \<times> int \<times> int"
  wo_runner :: "WorkerName \<Rightarrow> bool"
  wo_periodic :: "Statistics \<Rightarrow> Statistics"

record AppState =
  ap_config :: ConfigDto
  ap_onion :: Onion
  ap_statistics :: Statistics
  ap_pidFile :: PidFile
  ap_events :: "AppEvent list"

definition record_events :: "AppEvent list \<Rightarrow> AppState \<Rightarrow> AppState" where
  "record_events es s = s\<lparr>ap_events := ap_events s @ es\<rparr>"

section \<open>The stages\<close>

definition tor_options :: "ConfigDto \<Rightarrow> Options" where
  "tor_options c = Options_default\<lparr>
     op_controlSocket := (case cf_torControlSocket c of None \<Rightarrow> [] | Some p \<Rightarrow> p),
     op_controlHost := cf_torControlHost c, op_controlPort := unat (cf_torControlPort c),
     op_keyPath := cf_torKeyPath c, op_targetPort := unat (cf_torBackendPort c),
     op_virtualPort := unat (cf_torVirtualPort c)\<rparr>"

text \<open>The onion service, and whether it has a server of its own. Opening the listener may throw.\<close>

definition run_tor :: "World \<Rightarrow> AppState \<Rightarrow> AppState \<times> bool" where
  "run_tor w s =
     (let c = ap_config s
      in if \<not> cf_torEnabled c then (s, False)
         else if cf_useTLS c \<and> \<not> wo_torProvider w
         then (record_events [ResetTorProvider] (s\<lparr>ap_onion := Onion_stop (wo_tor w) (ap_onion s)\<rparr>), False)
         else
           let s = (if cf_useTLS c then record_events [CreateTorProvider (TcpProvider ''127.0.0.1'' (cf_torBackendPort c))] s else s)
           in (case Onion_start (wo_tor w) (tor_options c) (ap_onion s) of
                 (onion, None) \<Rightarrow>
                   let s = s\<lparr>ap_onion := onion, ap_config := c\<lparr>cf_onionHost := Some (on_hostname onion)\<rparr>\<rparr>
                   in if cf_useTLS c then (record_events [CreateTorServer] s, True) else (s, False)
               | (onion, Some torError) \<Rightarrow> (record_events [ResetTorProvider] (s\<lparr>ap_onion := onion\<rparr>), False)))"

definition sampled :: "int \<Rightarrow> Statistics \<Rightarrow> Statistics" where
  "sampled now s = (case runStatIteration now s of Some s \<Rightarrow> s | None \<Rightarrow> s)"

text \<open>Restoring the statistics, and whether they will be saved.\<close>

definition run_statistics :: "World \<Rightarrow> AppState \<Rightarrow> AppState \<times> bool" where
  "run_statistics w s =
     (let (loadTime, firstSample, _) = wo_clocks w;
          path = (case cf_statisticsStatePath (ap_config s) of None \<Rightarrow> [] | Some p \<Rightarrow> p);
          (statistics, enabled) =
            (if path = [] then (ap_statistics s, False)
             else (case loadState (wo_readJson w) (wo_stateFile w path) loadTime (ap_statistics s) of
                     (statistics, result) \<Rightarrow> (statistics, result \<noteq> INVALID_STATE)))
      in (s\<lparr>ap_statistics := sampled firstSample statistics\<rparr>, enabled))"

definition started :: "World \<Rightarrow> WorkerName list \<Rightarrow> AppEvent list" where
  "started w ws = map StartRunner (filter (wo_runner w) ws)"

definition stop_tor_server :: "bool \<Rightarrow> AppEvent list" where
  "stop_tor_server torServer = (if torServer then [StopTorServer, JoinTorServerThread] else [])"

definition stop_server :: "AppEvent list" where
  "stop_server = [StopServer, JoinServerThread, StopConnectionHandler]"

text \<open>The destructor of the PID file runs when the function returns.\<close>

definition leave :: "AppState \<Rightarrow> AppState" where
  "leave s = s\<lparr>ap_pidFile := PidFile_reset (ap_pidFile s)\<rparr>"

definition run_failed :: "World \<Rightarrow> bool \<Rightarrow> AppState \<Rightarrow> AppState" where
  "run_failed w torServer s =
     (let s = record_events (map StopRunner [PingRunner, SessionRunner, StatisticsRunner, StatisticsPersistenceRunner]) s;
          s = s\<lparr>ap_onion := Onion_stop (wo_tor w) (ap_onion s)\<rparr>
      in leave (record_events (stop_tor_server torServer @ stop_server @ [StopExecutor, JoinExecutor]) s))"

definition run_shutdown :: "World \<Rightarrow> bool \<Rightarrow> bool \<Rightarrow> AppState \<Rightarrow> AppState" where
  "run_shutdown w torServer persistence s =
     (let (_, _, lastSample) = wo_clocks w;
          path = (case cf_statisticsStatePath (ap_config s) of None \<Rightarrow> [] | Some p \<Rightarrow> p);
          s = record_events (WaitForShutdown # map StopRunner [PingRunner, SessionRunner, StatisticsPersistenceRunner]) s;
          s = s\<lparr>ap_onion := Onion_stop (wo_tor w) (ap_onion s)\<rparr>;
          s = record_events (stop_tor_server torServer @ stop_server @ [WaitTasksFinished, StopRunner StatisticsRunner]) s;
          s = s\<lparr>ap_statistics := wo_periodic w (ap_statistics s)\<rparr>;
          s = (if persistence
               then record_events [SaveState path] (s\<lparr>ap_statistics := sampled lastSample (ap_statistics s)\<rparr>) else s);
          s = record_events [StopExecutor, JoinExecutor] s
      in leave (s\<lparr>ap_pidFile := PidFile_reset (ap_pidFile s)\<rparr>))"

text \<open>From the components on.\<close>

definition run_server :: "World \<Rightarrow> AppState \<Rightarrow> AppState" where
  "run_server w s =
     (let s = record_events [CreateComponents, SetupSignalHandlers] s;
          path = (case cf_pidFilePath (ap_config s) of None \<Rightarrow> [] | Some p \<Rightarrow> p);
          (pidFile, created) = PidFile_create (wo_pid w) (wo_pidOpened w) (wo_pidWritten w) path (ap_pidFile s);
          s = s\<lparr>ap_pidFile := pidFile\<rparr>
      in if \<not> created then leave (record_events [StopExecutor, JoinExecutor] s)
         else
           let s = record_events (map AddController [''RoomsController'', ''StaticController'', ''FileController'',
                     ''StatisticsController''] @ [CreateServer (serverConnectionProvider (ap_config s))]) s;
               (s, torServer) = run_tor w s;
               (s, persistence) = run_statistics w s;
               workers = [PingRunner, SessionRunner, StatisticsRunner]
                 @ (if persistence then [StatisticsPersistenceRunner] else []);
               s = record_events ([StartServerThread] @ (if torServer then [StartTorServerThread] else [])
                     @ started w workers) s
           in if \<not> list_all (wo_runner w) workers then run_failed w torServer s
              else run_shutdown w torServer persistence s)"

definition App_new :: "ConfigDto \<Rightarrow> (string \<Rightarrow> string option) \<Rightarrow> (errno + nat) list \<Rightarrow> (errno + string) list \<Rightarrow> AppState" where
  "App_new c files sends recvs = \<lparr>ap_config = c, ap_onion = Onion_new sends recvs,
     ap_statistics = Statistics_default, ap_pidFile = \<lparr>pd_path = [], pd_files = files\<rparr>, ap_events = []\<rparr>"

text \<open>\<open>Inl\<close>: the configuration is refused and the exception ends the process.\<close>

definition run :: "World \<Rightarrow> BuildPaths \<Rightarrow> Arguments \<Rightarrow> (string \<Rightarrow> string option) \<Rightarrow> (errno + nat) list \<Rightarrow>
    (errno + string) list \<Rightarrow> string + AppState" where
  "run w build args files sends recvs =
     (if hasArgument args ''--version''
      then Inr (record_events [PrintVersion] (App_new ConfigDto_createShared files sends recvs))
      else if hasArgument args ''-h'' \<or> hasArgument args ''--help''
      then Inr (record_events [PrintHelp] (App_new ConfigDto_createShared files sends recvs))
      else (case fromCommandLine build args of
        Inl error \<Rightarrow> Inl error
      | Inr c \<Rightarrow> Inr (run_server w (App_new c files sends recvs))))"

end
