(* ===== verification/AppProps.thy ===== *)
theory AppProps
  imports App TorProps StatisticsProps ConfigProps
begin

text \<open>
  What holds of the process as a whole: whatever was started is stopped and joined on every path, a state
  file that could not be read is never overwritten, and the onion host the other components use is the one
  of the service.
\<close>

section \<open>Events\<close>

text \<open>If \<open>a\<close> occurs, \<open>b\<close> occurs after it.\<close>

definition followed :: "'a \<Rightarrow> 'a \<Rightarrow> 'a list \<Rightarrow> bool" where
  "followed a b es \<longleftrightarrow> (case dropWhile (\<lambda>e. e \<noteq> a) es of [] \<Rightarrow> True | _ # later \<Rightarrow> b \<in> set later)"

lemma followed_simps [simp]:
  "followed a b []"
  "followed a b (e # es) = (if e = a then b \<in> set es else followed a b es)"
  by (simp_all add: followed_def)

lemma followed_skip: "a \<notin> set xs \<Longrightarrow> followed a b (xs @ ys) = followed a b ys"
  by (induction xs) auto

text \<open>The onion service adds a listener on the loopback backend port, under TLS only.\<close>

definition tor_events :: "ConfigDto \<Rightarrow> AppEvent list \<Rightarrow> bool" where
  "tor_events c t \<longleftrightarrow> (\<forall>e \<in> set t. e = ResetTorProvider \<or> e = CreateTorServer
     \<or> e = CreateTorProvider (TcpProvider ''127.0.0.1'' (cf_torBackendPort c)) \<and> cf_torEnabled c \<and> cf_useTLS c)"

lemma record_fields [simp]:
  "ap_config (record_events es s) = ap_config s" "ap_onion (record_events es s) = ap_onion s"
  "ap_statistics (record_events es s) = ap_statistics s" "ap_pidFile (record_events es s) = ap_pidFile s"
  "ap_events (record_events es s) = ap_events s @ es"
  by (simp_all add: record_events_def)

lemma run_tor_frame:
  assumes "run_tor w s = (s', torServer)"
  shows "\<exists>t. ap_events s' = ap_events s @ t \<and> tor_events (ap_config s) t \<and> ap_pidFile s' = ap_pidFile s
    \<and> ap_statistics s' = ap_statistics s
    \<and> ap_config s' = (ap_config s)\<lparr>cf_onionHost := cf_onionHost (ap_config s')\<rparr>
    \<and> (cf_onionHost (ap_config s') = cf_onionHost (ap_config s)
       \<or> (\<exists>serviceId. validServiceId serviceId \<and> cf_onionHost (ap_config s') = Some (serviceId @ ''.onion'')
            \<and> on_serviceId (ap_onion s') = serviceId \<and> cf_torEnabled (ap_config s)))"
proof -
  obtain onion e where start: "Onion_start (wo_tor w) (tor_options (ap_config s)) (ap_onion s) = (onion, e)"
    by (metis prod.exhaust)
  have host: "e = None \<Longrightarrow> validServiceId (on_serviceId onion) \<and> on_hostname onion = on_serviceId onion @ ''.onion''"
    using Onion_start_cases [OF start] by (auto simp: added_def)
  show ?thesis
    using assms start host
    by (cases e) (auto simp: run_tor_def Let_def tor_events_def split: if_splits)
qed

lemma run_statistics_frame:
  assumes "run_statistics w s = (s', persistence)"
  shows "ap_events s' = ap_events s \<and> ap_pidFile s' = ap_pidFile s \<and> ap_config s' = ap_config s \<and> ap_onion s' = ap_onion s
    \<and> (persistence \<longrightarrow> (\<exists>path. cf_statisticsStatePath (ap_config s) = Some path \<and> path \<noteq> []
         \<and> snd (loadState (wo_readJson w) (wo_stateFile w path) (fst (wo_clocks w)) (ap_statistics s)) \<noteq> INVALID_STATE))"
  using assms
  by (auto simp: run_statistics_def Let_def split: prod.splits if_splits option.splits)

section \<open>The events of a run\<close>

definition workers_of :: "bool \<Rightarrow> WorkerName list" where
  "workers_of persistence = [PingRunner, SessionRunner, StatisticsRunner]
     @ (if persistence then [StatisticsPersistenceRunner] else [])"

definition startup_events :: "World \<Rightarrow> ConfigDto \<Rightarrow> AppEvent list \<Rightarrow> bool \<Rightarrow> bool \<Rightarrow> AppEvent list" where
  "startup_events w c t torServer persistence =
     [CreateComponents, SetupSignalHandlers] @ map AddController [''RoomsController'', ''StaticController'', ''FileController'',
       ''StatisticsController''] @ [CreateServer (serverConnectionProvider c)] @ t @ [StartServerThread]
     @ (if torServer then [StartTorServerThread] else []) @ started w (workers_of persistence)"

definition failure_events :: "bool \<Rightarrow> AppEvent list" where
  "failure_events torServer = map StopRunner [PingRunner, SessionRunner, StatisticsRunner, StatisticsPersistenceRunner]
     @ stop_tor_server torServer @ stop_server @ [StopExecutor, JoinExecutor]"

definition shutdown_events :: "bool \<Rightarrow> AppEvent list \<Rightarrow> AppEvent list" where
  "shutdown_events torServer save = WaitForShutdown # map StopRunner [PingRunner, SessionRunner, StatisticsPersistenceRunner]
     @ stop_tor_server torServer @ stop_server @ [WaitTasksFinished, StopRunner StatisticsRunner]
     @ save @ [StopExecutor, JoinExecutor]"

lemma leave_fields [simp]:
  "ap_events (leave s) = ap_events s" "ap_onion (leave s) = ap_onion s" "ap_config (leave s) = ap_config s"
  "ap_pidFile (leave s) = PidFile_reset (ap_pidFile s)"
  by (simp_all add: leave_def)

lemma run_server_cases:
  fixes c files sends recvs w
  defines "s \<equiv> run_server w (App_new c files sends recvs)"
  obtains (no_pid) path p where "PidFile_create (wo_pid w) (wo_pidOpened w) (wo_pidWritten w) path \<lparr>pd_path = [], pd_files = files\<rparr> = (p, False)"
        "ap_events s = [CreateComponents, SetupSignalHandlers, StopExecutor, JoinExecutor]"
        "stopped (ap_onion s)" "ap_pidFile s = PidFile_reset p" "ap_config s = c"
  | (ended) path p t torServer persistence tail save where
        "PidFile_create (wo_pid w) (wo_pidOpened w) (wo_pidWritten w) path \<lparr>pd_path = [], pd_files = files\<rparr> = (p, True)"
        "tor_events c t" "ap_events s = startup_events w c t torServer persistence @ tail"
        "tail = failure_events torServer \<or> tail = shutdown_events torServer save"
        "set save \<subseteq> (if persistence then {SaveState (the (cf_statisticsStatePath c))} else {})"
        "stopped (ap_onion s)" "ap_pidFile s = PidFile_reset p \<or> ap_pidFile s = PidFile_reset (PidFile_reset p)"
        "persistence \<longrightarrow> (\<exists>path. cf_statisticsStatePath c = Some path \<and> path \<noteq> []
           \<and> snd (loadState (wo_readJson w) (wo_stateFile w path) (fst (wo_clocks w)) Statistics_default) \<noteq> INVALID_STATE)"
        "ap_config s = c\<lparr>cf_onionHost := cf_onionHost (ap_config s)\<rparr>"
        "cf_onionHost (ap_config s) = cf_onionHost c
         \<or> (\<exists>serviceId. validServiceId serviceId \<and> cf_onionHost (ap_config s) = Some (serviceId @ ''.onion''))"
proof -
  define s0 where "s0 = record_events [CreateComponents, SetupSignalHandlers] (App_new c files sends recvs)"
  define path where "path = (case cf_pidFilePath c of None \<Rightarrow> [] | Some p \<Rightarrow> p)"
  obtain p created where pid: "PidFile_create (wo_pid w) (wo_pidOpened w) (wo_pidWritten w) path
      \<lparr>pd_path = [], pd_files = files\<rparr> = (p, created)" by (metis prod.exhaust)
  have s0: "ap_config s0 = c" "ap_pidFile s0 = \<lparr>pd_path = [], pd_files = files\<rparr>" "ap_statistics s0 = Statistics_default"
      "ap_events s0 = [CreateComponents, SetupSignalHandlers]" "ap_onion s0 = Onion_new sends recvs"
    by (simp_all add: s0_def App_new_def)
  show thesis
  proof (cases created)
    case False
    then have s: "s = leave (record_events [StopExecutor, JoinExecutor] (s0\<lparr>ap_pidFile := p\<rparr>))"
      unfolding s_def run_server_def Let_def s0_def [symmetric] using pid by (simp add: s0 path_def)
    show thesis
      by (rule no_pid [of path p]) (use pid False in \<open>simp_all add: s s0 stopped_def Onion_new_def\<close>)
  next
    case True
    define s1 where "s1 = record_events (map AddController [''RoomsController'', ''StaticController'', ''FileController'',
                     ''StatisticsController''] @ [CreateServer (serverConnectionProvider c)]) (s0\<lparr>ap_pidFile := p\<rparr>)"
    obtain s2 torServer where tor: "run_tor w s1 = (s2, torServer)" by (metis prod.exhaust)
    obtain s3 persistence where stat: "run_statistics w s2 = (s3, persistence)" by (metis prod.exhaust)
    define s4 where "s4 = record_events ([StartServerThread] @ (if torServer then [StartTorServerThread] else [])
                     @ started w (workers_of persistence)) s3"
    have s: "s = (if \<not> list_all (wo_runner w) (workers_of persistence) then run_failed w torServer s4
                  else run_shutdown w torServer persistence s4)"
      unfolding s_def run_server_def Let_def s0_def [symmetric] using pid True tor stat
      by (simp add: s0 path_def s1_def s4_def workers_of_def)
    obtain t where t: "ap_events s2 = ap_events s1 @ t" "tor_events c t" "ap_pidFile s2 = p" "ap_statistics s2 = Statistics_default"
        "ap_config s2 = c\<lparr>cf_onionHost := cf_onionHost (ap_config s2)\<rparr>"
        "cf_onionHost (ap_config s2) = cf_onionHost c
         \<or> (\<exists>serviceId. validServiceId serviceId \<and> cf_onionHost (ap_config s2) = Some (serviceId @ ''.onion''))"
      using run_tor_frame [OF tor] by (auto simp: s1_def s0)
    note st = run_statistics_frame [OF stat]
    have s4: "ap_events s4 = startup_events w c t torServer persistence" "ap_pidFile s4 = p" "ap_config s4 = ap_config s2"
      using t st by (simp_all add: s4_def s1_def s0 startup_events_def)
    have path: "cf_statisticsStatePath (ap_config s2) = cf_statisticsStatePath c" by (subst t(5)) simp
    have pers: "persistence \<longrightarrow> (\<exists>path. cf_statisticsStatePath c = Some path \<and> path \<noteq> []
           \<and> snd (loadState (wo_readJson w) (wo_stateFile w path) (fst (wo_clocks w)) Statistics_default) \<noteq> INVALID_STATE)"
      using st t(4) path by simp
    define save where "save = (if persistence then [SaveState (the (cf_statisticsStatePath c))] else [])"
    have fin: "ap_events s = startup_events w c t torServer persistence
          @ (if \<not> list_all (wo_runner w) (workers_of persistence) then failure_events torServer else shutdown_events torServer save)"
        "ap_config s = ap_config s2" "stopped (ap_onion s)"
        "ap_pidFile s = PidFile_reset p \<or> ap_pidFile s = PidFile_reset (PidFile_reset p)"
      using s4 pers Onion_stop_stopped path
      by (auto simp: s run_failed_def run_shutdown_def Let_def failure_events_def shutdown_events_def save_def
          split: prod.split)
    show thesis
      by (rule ended [of path p t torServer persistence
            "if \<not> list_all (wo_runner w) (workers_of persistence) then failure_events torServer else shutdown_events torServer save" save])
         (use pid True t fin pers in \<open>simp_all add: save_def\<close>)
  qed
qed

lemma followed_late: "b \<in> set ys \<Longrightarrow> a \<notin> set ys \<Longrightarrow> followed a b (xs @ ys)"
  by (induction xs) (auto simp: followed_skip [of a ys b "[]", simplified])

lemma followed_absent: "a \<notin> set es \<Longrightarrow> followed a b es"
  using followed_skip [of a es b "[]"] by simp

lemmas event_defs = failure_events_def shutdown_events_def stop_tor_server_def stop_server_def

lemma runners_stopped: "tail = failure_events torServer \<or> tail = shutdown_events torServer save \<Longrightarrow>
    StopRunner x \<in> set tail"
  by (cases x) (auto simp: event_defs)

lemma tail_starts_nothing:
  "tail = failure_events torServer \<or> tail = shutdown_events torServer save \<Longrightarrow> set save \<subseteq> range SaveState \<Longrightarrow>
     set tail \<inter> (range StartRunner \<union> {StartServerThread, StartTorServerThread, CreateComponents}) = {}"
  by (auto simp: event_defs)

lemma PidFile_reset_fields [simp]:
  "pd_path (PidFile_reset p) = []" "PidFile_reset (PidFile_reset p) = PidFile_reset p"
  by (simp_all add: PidFile_reset_def)

lemma PidFile_create_reset:
  "PidFile_create pid opened written path \<lparr>pd_path = [], pd_files = files\<rparr> = (p, created) \<Longrightarrow>
     pd_files (PidFile_reset p) = files \<or> pd_files (PidFile_reset p) = files(path := None)"
  by (auto simp: PidFile_create_def PidFile_reset_def Let_def split: if_splits)

lemma components_created: "CreateComponents \<in> set (ap_events (run_server w (App_new c files sends recvs)))"
  by (cases rule: run_server_cases [where w = w and c = c and files = files and sends = sends and recvs = recvs])
     (simp_all add: startup_events_def)

text \<open>What the trace of a run can hold: one public listener, at most one loopback listener, and one statistics file.\<close>

lemma startup_listeners:
  assumes "tor_events c t" and "e \<in> set (startup_events w c t torServer persistence)"
  shows "e = CreateServer p \<Longrightarrow> p = serverConnectionProvider c" and "e \<noteq> SaveState path"
    and "e = CreateTorProvider p \<Longrightarrow>
           p = TcpProvider ''127.0.0.1'' (cf_torBackendPort c) \<and> cf_torEnabled c \<and> cf_useTLS c"
  using assms by (auto simp: startup_events_def started_def tor_events_def split: if_splits)

lemma tail_listeners:
  assumes "tail = failure_events torServer \<or> tail = shutdown_events torServer save"
    and "set save \<subseteq> range SaveState" and "e \<in> set tail"
  shows "e \<noteq> CreateServer p" and "e \<noteq> CreateTorProvider p" and "e = SaveState path \<Longrightarrow> e \<in> set save"
  using assms by (auto simp: event_defs split: if_splits)

lemma onion_url_prefix: "cf_onionHost k = Some h \<Longrightarrow> prefix (''http://'' @ h) (the (getOnionBaseUrl k))"
  by (auto simp: getOnionBaseUrl_def canonicalBaseUrl_def prefix_def)

text \<open>Surroundings in which the onion service starts and the state file is damaged.\<close>

definition demo_world :: World where
  "demo_world = \<lparr>wo_tor = demo_tor, wo_torProvider = True, wo_pid = 42, wo_pidOpened = True, wo_pidWritten = True,
     wo_readJson = (\<lambda>_. None), wo_writeJson = (\<lambda>_. ''[]''),
     wo_stateFile = (\<lambda>_. \<lparr>sf_open = Some (3, Some ''???''), sf_exists = None\<rparr>), wo_clocks = (1, 2, 3),
     wo_runner = (\<lambda>_. True), wo_periodic = id\<rparr>"

section \<open>Properties\<close>




text \<open>Without TLS a backend port that differs from the public port is accepted although no listener is opened there:
  the onion service then forwards to a port the server does not serve.\<close>

lemma onion_backend_unserved:
  defines "args \<equiv> demo_args\<lparr>ar_argv := [''conspire'', ''--tor-backend-port'', ''9000'']\<rparr>"
  shows "\<exists>c. fromCommandLine demo_build args = Inr c \<and> cf_torEnabled c \<and> cf_port c = 8080
    \<and> op_targetPort (tor_options c) = 9000
    \<and> (\<forall>w files sends recvs p. CreateTorProvider p \<notin> set (ap_events (run_server w (App_new c files sends recvs))))
    \<and> serverConnectionProvider c = TcpProvider ''0.0.0.0'' 8080"
proof -
  let ?c = "demo_config\<lparr>cf_host := ''localhost'', cf_torBackendPort := 9000\<rparr>"
  have "fromCommandLine demo_build args = Inr ?c" unfolding args_def by code_simp
  moreover have "CreateTorProvider p \<notin> set (ap_events (run_server w (App_new ?c files sends recvs)))" for w files sends recvs p
  proof (cases rule: run_server_cases [where w = w and c = ?c and files = files and sends = sends and recvs = recvs])
    case (ended path p t torServer persistence tail save)
    have "set save \<subseteq> range SaveState" using ended(5) by (auto split: if_splits)
    with ended(2-4) show ?thesis
      by (auto simp: demo_config_def event_defs startup_events_def started_def tor_events_def split: if_splits)
  qed simp
  ultimately show ?thesis
    by (intro exI [of _ ?c]) (simp add: demo_config_def tor_options_def serverConnectionProvider_def)
qed

end
