(* ===== verification/Spec2Isabelle.thy ===== *)
theory Spec2Isabelle
  imports TorProps Accounting InterleavedProps ConfigProps WebProps AppProps
begin

text \<open>
  Verification of the Conspire chat server (\<^verbatim>\<open>server/src\<close>), a C++ server over the oatpp library.

  \<^bold>\<open>The program.\<close> A browser opens a websocket on a room (\<^verbatim>\<open>controller/RoomsController.hpp\<close>). The lobby
  (\<^verbatim>\<open>rooms/Lobby.cpp\<close>) keeps the transport pending until its first frame, the session hello, which enrols a
  new peer in the room or resumes a session by its token; a lost transport leaves the peer in the room
  until a grace period is over. A room (\<^verbatim>\<open>rooms/Room.cpp\<close>) numbers and retains the messages of its members
  (\<^verbatim>\<open>rooms/Peer.cpp\<close>) and broadcasts them; peers share files (\<^verbatim>\<open>rooms/File.cpp\<close>), which the server does not
  store: a download over HTTP (\<^verbatim>\<open>controller/FileController.hpp\<close>) pulls its chunks from the peer that shares
  the file. Around this are the probes of idle transports (\<^verbatim>\<open>rooms/Heartbeat.hpp\<close>), the statistics that survive
  restarts (\<^verbatim>\<open>utils/Statistics.cpp\<close>), the onion service registered with a Tor process
  (\<^verbatim>\<open>utils/TorControl.cpp\<close>), the pages and their configuration script (\<^verbatim>\<open>controller/StaticController.hpp\<close>), and
  \<^verbatim>\<open>App.cpp\<close>, which starts and stops everything.

  \<^bold>\<open>Theories and sources.\<close>
  \<^item> \<open>Prelude\<close>: machine types, the operations of \<^verbatim>\<open>std::string\<close> and \<^verbatim>\<open>std::unordered_map\<close> (an association list),
    and the interfaces below.
  \<^item> \<open>Boundaries\<close>: \<^verbatim>\<open>utils/ServerBoundaries.hpp\<close>: limits, validators, escapers, \<open>replaceLiteral\<close>, \<open>ChunkRequest\<close>.
  \<^item> \<open>Sessions\<close>: \<^verbatim>\<open>utils/SessionReliability.hpp\<close> and \<^verbatim>\<open>SessionCredentials.hpp\<close>: sequencer, replay, retry window,
    leases, transport fence, resume tokens.
  \<^item> \<open>Dtos\<close>, \<open>Effects\<close>: \<^verbatim>\<open>dto/DTOs.hpp\<close>, the counters, exceptions, and what an operation does to sockets.
  \<^item> \<open>Heartbeats\<close>: \<^verbatim>\<open>rooms/Heartbeat.hpp\<close>. \<open>PeerTransport\<close>, \<open>PeerCommands\<close>: \<^verbatim>\<open>rooms/Peer.hpp\<close>, \<^verbatim>\<open>Peer.cpp\<close>.
  \<^item> \<open>Files\<close>, \<open>Store\<close>: \<^verbatim>\<open>rooms/File.hpp\<close>, \<^verbatim>\<open>File.cpp\<close>, and the heap of peers, rooms, files and subscribers by
    reference. \<open>Rooms\<close>, \<open>RoomFiles\<close>: \<^verbatim>\<open>rooms/Room.cpp\<close>. \<open>HeapInvariant\<close>: what every operation keeps.
  \<^item> \<open>Lobby\<close>: \<^verbatim>\<open>rooms/Lobby.cpp\<close>, whose record extends the heap, every call as the composition of its steps between
    two locks. \<open>LobbySteps\<close>: what one such step keeps, and leaves alone of other calls. \<open>Server\<close>: the invariant of calls that
    run alone. \<open>ServerRuns\<close>: the steps of the whole server and the directory of sessions they refine. \<open>LobbyProps\<close>: the
    properties of the lobby. \<open>Tallies\<close>, \<open>Accounting\<close>: the session counters as accounts of the lobby.
  \<^item> \<open>Interleaving\<close>: the calls of \<^verbatim>\<open>Lobby.cpp\<close> under way as tasks with a program point, and what a step of one keeps.
    \<open>InterleavedRuns\<close>: their interleaved runs with everything below the lobby. \<open>InterleavedDirectory\<close>: the same directory.
    \<open>SerialRuns\<close>: tasks that run alone are the calls. \<open>InterleavedProps\<close>: what survives interleaving, and two races.
  \<^item> \<open>Statistics\<close>, \<open>StatisticsProps\<close>: \<^verbatim>\<open>utils/Statistics.cpp\<close>. \<open>Nickname\<close>: \<^verbatim>\<open>utils/Nickname.cpp\<close>.
  \<^item> \<open>TorText\<close>, \<open>TorControl\<close>, \<open>TorProps\<close>: \<^verbatim>\<open>utils/TorControl.cpp\<close>.
  \<^item> \<open>Config\<close>, \<open>ConfigProps\<close>: \<^verbatim>\<open>utils/AppConfig.hpp\<close>, \<^verbatim>\<open>ConfigValidation.hpp\<close>, \<^verbatim>\<open>dto/Config.hpp\<close>, and the two look-ups
    of oatpp's command line they call (\<^verbatim>\<open>vendor/oatpp\<close>).
  \<^item> \<open>Web\<close>, \<open>Endpoints\<close>, \<open>WebProps\<close>: the interceptor of \<^verbatim>\<open>AppComponent.hpp\<close> and the controllers.
  \<^item> \<open>Lifecycle\<close>: \<^verbatim>\<open>utils/Lifecycle.hpp\<close>. \<open>App\<close>, \<open>AppProps\<close>: \<^verbatim>\<open>App.cpp\<close> and the listener of \<^verbatim>\<open>AppComponent.hpp\<close>.

  \<^bold>\<open>Reading the model.\<close> A class is a record, its methods are functions that return the updated record with
  the effects or the exception; functions and fields keep the names of the source. Objects that are shared
  are references into the heap, a weak pointer is a reference with an \<open>alive\<close> flag. Unsigned integers of
  the source are words of their width and wrap; \<^verbatim>\<open>v_int64\<close> is \<open>int\<close>, with a hypothesis where
  arithmetic could leave its range, and the clocks are \<open>int\<close>. Coroutines are part of the state: a step of one is an operation. What one
  mutex protects is one step; a broadcast of a room, which locks one peer after the other, is one step too. Where several threads meet, a run is any sequence of steps: \<open>Peer_run\<close> and
  \<open>Subscriber_run\<close> for one object, \<open>server_step\<close> and \<open>reachable\<close> for the server, \<open>runner_step\<close> for a worker (at
  the granularity of the condition variable). The steps of a session hello, of the loss of a transport and of an expiry
  are separate definitions (\<open>hello_lookup\<close>, \<open>hello_bind\<close>, \<open>detach_unbind\<close>, \<open>expire_collect\<close> and so on), composed by
  \<open>acceptSessionHello\<close>, \<open>onBeforeDestroy\<close> and \<open>expireSessions\<close>. \<open>reachable\<close> takes the compositions as one step; in \<open>interleaved\<close>
  any number of them are under way at once, with one call at a time for each socket, as oatpp serves a socket
  by one coroutine.

  \<^bold>\<open>Interfaces.\<close> \<open>keyed_container\<close> (the maps of the sources), \<open>codec\<close> and \<open>escaper\<close> (hexadecimal, Base64, JavaScript,
  HTML and URL text), \<open>sequence_source\<close>, \<open>retry_window\<close> and \<open>transport_fence\<close> (session reliability),
  \<open>frame_relation\<close> (what an operation leaves alone: \<open>quiet\<close>, \<open>sound\<close>, \<open>tallied\<close>), \<open>machine\<close> and
  \<open>terminating_machine\<close> (invariants and bounds over every interleaving of a heartbeat and of a worker). Each is
  interpreted on the model's own definitions in the theory of its provider.

  \<^bold>\<open>What is shown.\<close>
  \<^item> Sessions: the server refines a directory of sessions, every kind of step doing only what its kind
    may (\<open>session_directory_refined\<close>); sessions, rooms and peers agree in every reachable state; a token resumes its
    own session, room and identity only; the expiry takes exactly what is over.
  \<^item> Interleavings: the directory is refined and sessions, peers and transports agree however the calls interleave, up to
    the peers in the middle of a handover, each held by one call; serial runs are interleaved runs. That the room
    of a session is registered holds of serial runs only.
  \<^item> Messages: a retried command is published once; the numbers of a room have no gap; a client that returns
    gets exactly what it missed or is told to resynchronise; what is queued is written in order and once; a
    transport that was replaced has no effect.
  \<^item> Files: a download reads exactly the content an honest host serves, only the host can feed it, a reader
    never sleeps on data; sharing takes all files or none; a leaving peer takes its files with it.
  \<^item> Numbers: registries and queues are bounded; the counters of the dashboard agree with the lobby; the
    statistics survive a restart, a sample always comes to an end, and an unreadable state file is left alone.
  \<^item> Tor: replies are read the same however the bytes arrive; the client proves itself only to a server that
    has; nothing but whole commands is sent; a start ends in a service or with nothing left open.
  \<^item> Process: accepted configurations are well formed, ports are read exactly, redirects settle, the pages
    cannot be broken out of, and every path of \<open>run\<close> stops and joins what it started.

  \<^bold>\<open>Bounds and hypotheses.\<close> Recursion is structural or has a termination proof; the only fuel is that of
  the reader in \<open>escaper\<close>, where the length of the text is enough (\<open>decode_with_enough\<close>). \<open>counters_fit\<close> says that the
  identity, file and sequence counters are below their last value, \<open>sequences_fit\<close> that no room is within its members'
  announcements of its last sequence number: at that number the code throws in the middle of an operation; \<open>task_fits\<close> asks
  the same of the two steps of a hello that need it. Tor, the
  clock, the file system, JSON, SHA-256, the random source, the handshake and the embedded assets are arguments; the
  hypotheses on them state documented behaviour, such as that what the JSON mapper writes it reads back.

  \<^bold>\<open>What the model shows of the code.\<close> A hello can enrol in a room the expiry has just removed
  (\<open>orphan_room_race\<close>); the loss of an old transport can be announced after the session was resumed
  (\<open>late_offline_announcement\<close>); the wake-up of a stopping worker can be lost (\<open>stop_wakeup_lost\<close>), so that a stop takes up to a period;
  a missing value of \<^verbatim>\<open>--tor-control-socket\<close> is not noticed (\<open>control_socket_never_missing\<close>); the last adjective and
  noun are never drawn (\<open>last_entries_never_drawn\<close>); a long host name with a port is accepted and never served
  (\<open>long_host_never_served\<close>); without TLS another backend port is accepted and not served (\<open>onion_backend_unserved\<close>).

  \<^bold>\<open>Not modelled.\<close> Log lines; the signal handlers, which only set a flag; the rest of \<^verbatim>\<open>AppComponent.hpp\<close> and the
  endpoint declarations, which create oatpp's objects and hand them to each other; oatpp and OpenSSL; the
  memory model below mutexes and atomics; the browser's JavaScript, the tests and the build files.
\<close>

end
